theory Spec2Isabelle
  imports Complex_Main
begin

section \<open>JavaScript numbers\<close>

text \<open>
  A value of the type \<open>number\<close>: \<open>NaN\<close>, one of the two infinities, or a finite
  double-precision number, given by its value. The two zeros are one value here: the
  numbers of \<open>withRetry\<close> end in \<open>setTimeout\<close>, which treats both alike.
\<close>

datatype number = NaN | Infinity | NegInfinity | Num real

text \<open>The nearest integer, and the even one of the two when both are equally near.\<close>

definition roundEven :: "real \<Rightarrow> int" where
  "roundEven x =
     (let f = \<lfloor>x\<rfloor> in
      if x - of_int f < 1 / 2 then f
      else if x - of_int f > 1 / 2 then f + 1
      else if even f then f else f + 1)"

text \<open>
  The double nearest to a real number (IEEE 754 binary64, round to nearest, ties to
  even): 53 significant bits, the smallest exponent -1022, and an infinity when the
  rounded value reaches \<open>2^1024\<close>.
\<close>

definition roundDouble :: "real \<Rightarrow> number" where
  "roundDouble x =
     (if x = 0 then Num 0
      else
        (let e = max \<lfloor>log 2 \<bar>x\<bar>\<rfloor> (- 1022);
             ulp = 2 powr (of_int e - 52);
             y = of_int (roundEven (x / ulp)) * ulp
         in if y \<ge> 2 ^ 1024 then Infinity
            else if y \<le> - (2 ^ 1024) then NegInfinity
            else Num y))"

text \<open>The operator \<open>*\<close> on numbers.\<close>

fun multiply :: "number \<Rightarrow> number \<Rightarrow> number" where
  "multiply NaN b = NaN"
| "multiply a NaN = NaN"
| "multiply (Num x) (Num y) = roundDouble (x * y)"
| "multiply (Num x) Infinity = (if x = 0 then NaN else if x > 0 then Infinity else NegInfinity)"
| "multiply (Num x) NegInfinity = (if x = 0 then NaN else if x > 0 then NegInfinity else Infinity)"
| "multiply Infinity (Num y) = (if y = 0 then NaN else if y > 0 then Infinity else NegInfinity)"
| "multiply NegInfinity (Num y) = (if y = 0 then NaN else if y > 0 then NegInfinity else Infinity)"
| "multiply Infinity Infinity = Infinity"
| "multiply Infinity NegInfinity = NegInfinity"
| "multiply NegInfinity Infinity = NegInfinity"
| "multiply NegInfinity NegInfinity = Infinity"

text \<open>\<open>Math.min\<close> of two numbers: \<open>NaN\<close> when either is, else the smaller.\<close>

fun Math_min :: "number \<Rightarrow> number \<Rightarrow> number" where
  "Math_min NaN b = NaN"
| "Math_min a NaN = NaN"
| "Math_min NegInfinity b = NegInfinity"
| "Math_min a NegInfinity = NegInfinity"
| "Math_min Infinity b = b"
| "Math_min a Infinity = a"
| "Math_min (Num x) (Num y) = Num (min x y)"

section \<open>Errors and the world\<close>

text \<open>
  A thrown JavaScript value: \<open>undefined\<close>, or an error object with what the code
  reads of it: \<open>error?.code\<close>, \<open>error?.response?.status\<close> and the text that
  \<open>String(error)\<close> yields. \<open>JsUndefined\<close> is the value of \<open>lastError\<close> in
  \<open>withRetry\<close> before any attempt has failed.
\<close>

datatype js_error = JsUndefined | JsError "string option" "int option" string

fun error_code :: "js_error \<Rightarrow> string option" where
  "error_code JsUndefined = None"
| "error_code (JsError c s m) = c"

fun error_status :: "js_error \<Rightarrow> int option" where
  "error_status JsUndefined = None"
| "error_status (JsError c s m) = s"

fun errorText :: "js_error \<Rightarrow> string" where
  "errorText JsUndefined = ''undefined''"
| "errorText (JsError c s m) = m"

text \<open>
  A promise of an access token, as \<open>OAuthService.refreshPromises\<close> holds them.
\<close>

datatype promise = Pending | Fulfilled string | Rejected js_error

text \<open>
  The state of the process and of its environment that the code reads and writes:
  \<^item> \<open>now\<close>: the clock behind \<open>Date.now()\<close> and \<open>new Date()\<close>, in milliseconds;
  \<^item> \<open>soapCalls\<close>, \<open>tokenCalls\<close>: the number of requests sent so far to the SOAP
    endpoint and to the token endpoint;
  \<^item> \<open>tokenCache\<close>, \<open>refreshPromises\<close>: the static maps of \<open>OAuthService\<close>, keyed
    by environment name; a cached token comes with its expiry time, a refresh promise
    is named by its index in \<open>promises\<close>;
  \<^item> \<open>promises\<close>, \<open>promiseCount\<close>: the refresh promises created so far (one per
    call of \<open>doRefresh\<close>) and their number;
  \<^item> \<open>timers\<close>: the pending \<open>setTimeout\<close> callbacks of \<open>getAccessToken\<close>, each
    with its due time and the key it will delete from \<open>refreshPromises\<close>;
  \<^item> \<open>movedToProcessed\<close>, \<open>movedToFailed\<close>: the files moved so far, the latter with
    the recorded reason;
  \<^item> \<open>prompts\<close>: the number of confirmation prompts shown so far;
  \<^item> \<open>mathPow\<close>: what the platform's \<open>Math.pow\<close> returns for a finite base other
    than zero and a positive integer exponent, where ECMAScript asks for an
    approximation of the power and no more.
\<close>

record world =
  now :: int
  soapCalls :: nat
  tokenCalls :: nat
  tokenCache :: "string \<rightharpoonup> string \<times> int"
  refreshPromises :: "string \<rightharpoonup> nat"
  promises :: "nat \<Rightarrow> promise"
  promiseCount :: nat
  timers :: "(int \<times> string) list"
  movedToProcessed :: "string list"
  movedToFailed :: "(string \<times> string) list"
  prompts :: nat
  mathPow :: "real \<Rightarrow> nat \<Rightarrow> number"

section \<open>utils/retry.ts: retry with exponential backoff\<close>

record RetryOptions =
  maxAttempts :: int
  baseDelay :: number
  maxDelay :: number
  backoffMultiplier :: number
  shouldRetry :: "(js_error \<Rightarrow> bool) option"

definition defaultShouldRetry :: "js_error \<Rightarrow> bool" where
  "defaultShouldRetry error =
     (if error_code error = Some ''ECONNRESET'' \<or>
         error_code error = Some ''ETIMEDOUT'' \<or>
         error_code error = Some ''ENOTFOUND'' then True
      else if (case error_status error of Some s \<Rightarrow> s \<ge> 500 | None \<Rightarrow> False) then True
      else if error_status error = Some 429 then True
      else False)"

definition defaultRetryOptions :: RetryOptions where
  "defaultRetryOptions =
     \<lparr> maxAttempts = 3, baseDelay = Num 1000, maxDelay = Num 30000,
       backoffMultiplier = Num 2, shouldRetry = Some defaultShouldRetry \<rparr>"

text \<open>
  \<open>Partial<RetryOptions>\<close>: \<open>None\<close> is an absent key. The key \<open>shouldRetry\<close>
  may also be present with the value \<open>undefined\<close> (\<open>Some None\<close>), which the
  spread copies over the default.
\<close>

record PartialRetryOptions =
  p_maxAttempts :: "int option"
  p_baseDelay :: "number option"
  p_maxDelay :: "number option"
  p_backoffMultiplier :: "number option"
  p_shouldRetry :: "(js_error \<Rightarrow> bool) option option"

definition noOptions :: PartialRetryOptions where
  "noOptions = \<lparr> p_maxAttempts = None, p_baseDelay = None, p_maxDelay = None,
                 p_backoffMultiplier = None, p_shouldRetry = None \<rparr>"

text \<open>\<open>{ ...defaultRetryOptions, ...options }\<close>\<close>

definition mergeOptions :: "PartialRetryOptions \<Rightarrow> RetryOptions" where
  "mergeOptions options =
     \<lparr> maxAttempts = (case p_maxAttempts options of Some v \<Rightarrow> v
                        | None \<Rightarrow> maxAttempts defaultRetryOptions),
       baseDelay = (case p_baseDelay options of Some v \<Rightarrow> v
                        | None \<Rightarrow> baseDelay defaultRetryOptions),
       maxDelay = (case p_maxDelay options of Some v \<Rightarrow> v
                        | None \<Rightarrow> maxDelay defaultRetryOptions),
       backoffMultiplier = (case p_backoffMultiplier options of Some v \<Rightarrow> v
                        | None \<Rightarrow> backoffMultiplier defaultRetryOptions),
       shouldRetry = (case p_shouldRetry options of Some v \<Rightarrow> v
                        | None \<Rightarrow> shouldRetry defaultRetryOptions) \<rparr>"

text \<open>
  \<open>sleep(ms)\<close> resolves when the timer of \<open>setTimeout(resolve, ms)\<close> fires. Node
  replaces a delay that is not between 1 and \<open>2^31 - 1\<close> (\<open>NaN\<close> included) by 1 and
  truncates the delay to whole milliseconds; the timer is taken to fire exactly when
  it is due.
\<close>

definition timerDelay :: "number \<Rightarrow> int" where
  "timerDelay ms =
     (case ms of
        Num x \<Rightarrow> if 1 \<le> x \<and> x \<le> 2147483647 then \<lfloor>x\<rfloor> else 1
      | NaN \<Rightarrow> 1 | Infinity \<Rightarrow> 1 | NegInfinity \<Rightarrow> 1)"

definition sleep :: "number \<Rightarrow> world \<Rightarrow> world" where
  "sleep ms w = w\<lparr>now := now w + timerDelay ms\<rparr>"

text \<open>
  \<open>Math.pow(base, exponent)\<close> for an exponent that is a non-negative integer, as
  \<open>attempt - 1\<close> is in every iteration of \<open>withRetry\<close>: ECMAScript fixes the result
  for the exponent 0 and for a base that is \<open>NaN\<close>, infinite or zero, and leaves the
  rest to the platform.
\<close>

definition Math_pow :: "world \<Rightarrow> number \<Rightarrow> nat \<Rightarrow> number" where
  "Math_pow w base exponent =
     (if exponent = 0 then Num 1
      else
        (case base of
           NaN \<Rightarrow> NaN
         | Infinity \<Rightarrow> Infinity
         | NegInfinity \<Rightarrow> if odd exponent then NegInfinity else Infinity
         | Num x \<Rightarrow> if x = 0 then Num 0 else mathPow w x exponent))"

text \<open>
  \<open>Math.min(opts.baseDelay * Math.pow(opts.backoffMultiplier, attempt - 1), opts.maxDelay)\<close>
\<close>

definition backoffDelay :: "RetryOptions \<Rightarrow> int \<Rightarrow> world \<Rightarrow> number" where
  "backoffDelay opts attempt w =
     Math_min (multiply (baseDelay opts)
                 (Math_pow w (backoffMultiplier opts) (nat (attempt - 1))))
       (maxDelay opts)"

text \<open>\<open>opts.shouldRetry && !opts.shouldRetry(error)\<close>\<close>

definition nonRetryable :: "RetryOptions \<Rightarrow> js_error \<Rightarrow> bool" where
  "nonRetryable opts error =
     (case shouldRetry opts of None \<Rightarrow> False | Some p \<Rightarrow> \<not> p error)"

text \<open>
  What \<open>withRetry\<close> did, in order: each invocation of the operation with its
  attempt number and the error it threw (\<open>None\<close> when it returned), and each wait
  between two attempts with the time that passed on the clock while \<open>sleep(delay)\<close>
  was awaited.
\<close>

datatype retry_event = Attempt int "js_error option" | Sleep int

text \<open>
  The \<open>for\<close> loop of \<open>withRetry\<close>, from the iteration numbered \<open>attempt\<close>.
  An operation is a world transformer that returns (\<open>Inr\<close>) or throws (\<open>Inl\<close>).
  The result is what \<open>withRetry\<close> returns or throws, the world afterwards and
  the events.
\<close>

function withRetry_loop ::
  "RetryOptions \<Rightarrow> (world \<Rightarrow> (js_error + 'a) \<times> world) \<Rightarrow> int \<Rightarrow> js_error \<Rightarrow> world
     \<Rightarrow> (js_error + 'a) \<times> world \<times> retry_event list" where
  "withRetry_loop opts operation attempt lastError w =
     (if attempt \<le> maxAttempts opts then
        (case operation w of
           (Inr result, w1) \<Rightarrow> (Inr result, w1, [Attempt attempt None])
         | (Inl error, w1) \<Rightarrow>
             if attempt \<ge> maxAttempts opts then
               (Inl error, w1, [Attempt attempt (Some error)])
             else if nonRetryable opts error then
               (Inl error, w1, [Attempt attempt (Some error)])
             else
               (let delay = backoffDelay opts attempt w1;
                    w2 = sleep delay w1;
                    (r, w3, events) = withRetry_loop opts operation (attempt + 1) error w2
                in (r, w3, Attempt attempt (Some error) # Sleep (now w2 - now w1) # events)))
      else (Inl lastError, w, []))"
  by pat_completeness auto
termination
  by (relation "measure (\<lambda>(opts, operation, attempt, lastError, w).
                   nat (maxAttempts opts - attempt))") auto

declare withRetry_loop.simps [simp del]

definition withRetry ::
  "(world \<Rightarrow> (js_error + 'a) \<times> world) \<Rightarrow> PartialRetryOptions \<Rightarrow> world
     \<Rightarrow> (js_error + 'a) \<times> world \<times> retry_event list" where
  "withRetry operation options w =
     withRetry_loop (mergeOptions options) operation 1 JsUndefined w"



fun sleptDelays :: "retry_event list \<Rightarrow> int list" where
  "sleptDelays [] = []"
| "sleptDelays (Sleep d # events) = d # sleptDelays events"
| "sleptDelays (Attempt n e # events) = sleptDelays events"

text \<open>The number of times that the operation was invoked.\<close>

fun attemptCount :: "retry_event list \<Rightarrow> nat" where
  "attemptCount [] = 0"
| "attemptCount (Attempt n e # events) = Suc (attemptCount events)"
| "attemptCount (Sleep d # events) = attemptCount events"

section \<open>utils/retry.ts: circuit breaker\<close>

text \<open>
  \<open>execute\<close> is \<open>async\<close>: it checks the state, invokes the operation and is
  suspended until the operation settles; then it records the outcome. Calls on the
  same breaker may overlap, so the two halves are separate functions, and \<open>execute\<close>
  is their composition for a call that no other call overlaps. The constructor's
  default arguments are 5 and 60000.
\<close>

datatype breaker_state = CLOSED | OPEN | HALF_OPEN

record CircuitBreaker =
  failures :: int
  lastFailureTime :: int
  state :: breaker_state
  threshold :: int
  timeout :: int

definition newCircuitBreaker :: "int \<Rightarrow> int \<Rightarrow> CircuitBreaker" where
  "newCircuitBreaker thresholdArg timeoutArg =
     \<lparr> failures = 0, lastFailureTime = 0, state = CLOSED,
       threshold = thresholdArg, timeout = timeoutArg \<rparr>"

text \<open>\<open>new Error(`Circuit breaker is OPEN for ${operationName}`)\<close>\<close>

definition circuitOpenError :: "string \<Rightarrow> js_error" where
  "circuitOpenError operationName =
     JsError None None (''Error: Circuit breaker is OPEN for '' @ operationName)"

text \<open>
  \<open>execute\<close> up to its \<open>await\<close>: the check of the state and of the cool-down.
  \<open>Inl\<close> is the error thrown while OPEN, \<open>Inr\<close> means that \<open>operation()\<close> is
  invoked next.
\<close>

definition execute_enter ::
  "CircuitBreaker \<Rightarrow> string \<Rightarrow> world \<Rightarrow> (js_error + unit) \<times> CircuitBreaker" where
  "execute_enter cb operationName w =
     (if state cb = OPEN then
        (if now w - lastFailureTime cb < timeout cb then
           (Inl (circuitOpenError operationName), cb)
         else (Inr (), cb\<lparr>state := HALF_OPEN\<rparr>))
      else (Inr (), cb))"

definition onSuccess :: "CircuitBreaker \<Rightarrow> CircuitBreaker" where
  "onSuccess cb =
     (let cb1 = cb\<lparr>failures := 0\<rparr>
      in if state cb1 = HALF_OPEN then cb1\<lparr>state := CLOSED\<rparr> else cb1)"

definition onFailure :: "CircuitBreaker \<Rightarrow> world \<Rightarrow> CircuitBreaker" where
  "onFailure cb w =
     (let cb1 = cb\<lparr>failures := failures cb + 1, lastFailureTime := now w\<rparr>
      in if failures cb1 \<ge> threshold cb1 then cb1\<lparr>state := OPEN\<rparr> else cb1)"

text \<open>\<open>execute\<close> after its \<open>await\<close>, when the operation has settled.\<close>

definition execute_settle :: "CircuitBreaker \<Rightarrow> (js_error + 'a) \<Rightarrow> world \<Rightarrow> CircuitBreaker" where
  "execute_settle cb outcome w =
     (case outcome of Inr result \<Rightarrow> onSuccess cb | Inl error \<Rightarrow> onFailure cb w)"

text \<open>
  A call of \<open>execute\<close> during which no other call on the same breaker starts or
  settles: the operation runs to completion between the two halves.
\<close>

definition execute ::
  "CircuitBreaker \<Rightarrow> (world \<Rightarrow> (js_error + 'a) \<times> world) \<Rightarrow> string \<Rightarrow> world
     \<Rightarrow> (js_error + 'a) \<times> CircuitBreaker \<times> world" where
  "execute cb operation operationName w =
     (case execute_enter cb operationName w of
        (Inl error, cb1) \<Rightarrow> (Inl error, cb1, w)
      | (Inr u, cb1) \<Rightarrow>
          (case operation w of (outcome, w1) \<Rightarrow> (outcome, execute_settle cb1 outcome w1, w1)))"

text \<open>
  The synchronous part of a call of \<open>execute\<close>, up to the point where it is
  suspended on the pending operation: \<open>issue\<close> is what invoking \<open>operation()\<close>
  does before it first suspends (for a remote call, sending the request).
\<close>

definition execute_begin ::
  "CircuitBreaker \<Rightarrow> (world \<Rightarrow> world) \<Rightarrow> string \<Rightarrow> world
     \<Rightarrow> (js_error + unit) \<times> CircuitBreaker \<times> world" where
  "execute_begin cb issue operationName w =
     (case execute_enter cb operationName w of
        (Inl error, cb1) \<Rightarrow> (Inl error, cb1, w)
      | (Inr u, cb1) \<Rightarrow> (Inr u, cb1, issue w))"

text \<open>
  Calls of \<open>execute\<close> one after another, none overlapping another; each call has
  its own operation and the world it is made in.
\<close>

fun executeSeq ::
  "CircuitBreaker \<Rightarrow> ((world \<Rightarrow> (js_error + 'a) \<times> world) \<times> world) list \<Rightarrow> CircuitBreaker" where
  "executeSeq cb [] = cb"
| "executeSeq cb ((operation, w) # calls) =
     executeSeq (fst (snd (execute cb operation ''operation'' w))) calls"

text \<open>
  What holds of a breaker between calls that do not overlap: it is never left
  HALF_OPEN, and it is OPEN only with at least \<open>threshold\<close> failures counted.
\<close>

definition settled :: "CircuitBreaker \<Rightarrow> bool" where
  "settled cb = (0 \<le> failures cb \<and> state cb \<noteq> HALF_OPEN \<and>
                 (state cb \<noteq> OPEN \<or> threshold cb \<le> failures cb))"

section \<open>services/oauth.ts: access tokens\<close>

text \<open>
  \<open>getAccessToken\<close> is an \<open>async\<close> function whose callers overlap. JavaScript runs
  each of its segments (from the call to the first \<open>await\<close>, from a settlement to
  the next \<open>await\<close>, a timer callback) without interruption, so an execution is a
  sequence of such segments, each a function on the world. The instance fields
  \<open>accessToken\<close> and \<open>tokenExpiry\<close>, which are written and never read, are left out.
\<close>

record WorkdayEnvironment =
  name :: string
  tokenUrl :: string
  apiUrl :: string
  clientId :: string
  clientSecret :: string
  refreshToken :: string

record OAuthTokenResponse =
  access_token :: string
  token_type :: string
  expires_in :: int
  refresh_token :: "string option"
  scope :: string

text \<open>
  The remote endpoints: what the token endpoint and the SOAP endpoint answer to a
  request sent in a given world (a response, or the error that \<open>axios.post\<close>
  throws), and the time the exchange takes.
\<close>

record remote =
  tokenServer :: "world \<Rightarrow> WorkdayEnvironment \<Rightarrow> (js_error + OAuthTokenResponse) \<times> int"
  soapServer :: "world \<Rightarrow> string \<Rightarrow> string \<Rightarrow> string \<Rightarrow> (js_error + string) \<times> int"

text \<open>The operation that \<open>fetchNewToken\<close> passes to \<open>withRetry\<close>.\<close>

definition postTokenRequest ::
  "remote \<Rightarrow> WorkdayEnvironment \<Rightarrow> world \<Rightarrow> (js_error + OAuthTokenResponse) \<times> world" where
  "postTokenRequest server environment w =
     (case tokenServer server w environment of
        (reply, elapsed) \<Rightarrow>
          (reply, w\<lparr>now := now w + elapsed, tokenCalls := tokenCalls w + 1\<rparr>))"

definition oauthFailed :: js_error where
  "oauthFailed = JsError None None
     ''Error: OAuth authentication failed - check credentials and network connectivity''"

text \<open>
  \<open>fetchNewToken\<close>: every error inside the \<open>try\<close> block, the missing
  \<open>access_token\<close> included, is replaced by \<open>oauthFailed\<close>. The expiry is
  55 minutes from the moment the response is handled.
\<close>

definition fetchNewToken ::
  "remote \<Rightarrow> WorkdayEnvironment \<Rightarrow> world \<Rightarrow> (js_error + string) \<times> world" where
  "fetchNewToken server environment w =
     (case withRetry (postTokenRequest server environment)
             (noOptions\<lparr>p_maxAttempts := Some 3\<rparr>) w of
        (Inl error, w1, events) \<Rightarrow> (Inl oauthFailed, w1)
      | (Inr response, w1, events) \<Rightarrow>
          if access_token response = [] then (Inl oauthFailed, w1)
          else
            (let token = access_token response;
                 expiry = now w1 + 55 * 60 * 1000
             in (Inr token,
                 w1\<lparr>tokenCache := (tokenCache w1)(name environment \<mapsto> (token, expiry))\<rparr>)))"

definition doRefresh ::
  "remote \<Rightarrow> WorkdayEnvironment \<Rightarrow> world \<Rightarrow> (js_error + string) \<times> world" where
  "doRefresh server environment w =
     (if refreshToken environment = [] then
        (Inl (JsError None None
               (''Error: Refresh token not found for environment: '' @ name environment)), w)
      else fetchNewToken server environment w)"

text \<open>
  \<open>getAccessToken\<close> up to its first \<open>await\<close>. The caller returns the cached
  token, or awaits the refresh promise registered for its environment, or calls
  \<open>doRefresh\<close>, registers the new promise and awaits it.
\<close>

datatype acquisition = Cached string | Joined nat | Started nat

definition getAccessToken_enter :: "WorkdayEnvironment \<Rightarrow> world \<Rightarrow> acquisition \<times> world" where
  "getAccessToken_enter environment w =
     (let cacheKey = name environment in
      case (case tokenCache w cacheKey of
              Some (token, expiry) \<Rightarrow> if now w < expiry then Some token else None
            | None \<Rightarrow> None) of
        Some token \<Rightarrow> (Cached token, w)
      | None \<Rightarrow>
          (case refreshPromises w cacheKey of
             Some existingRefresh \<Rightarrow> (Joined existingRefresh, w)
           | None \<Rightarrow>
               (let refreshPromise = promiseCount w
                in (Started refreshPromise,
                    w\<lparr>promiseCount := promiseCount w + 1,
                       promises := (promises w)(refreshPromise := Pending),
                       refreshPromises :=
                         (refreshPromises w)(cacheKey \<mapsto> refreshPromise)\<rparr>))))"

text \<open>
  The refresh behind promise \<open>refreshPromise\<close> settles. What \<open>doRefresh\<close> does
  from the call on (the token requests with their retries, the update of the cache)
  is taken as one step, placed at the settlement: nothing that callers or timers do
  in between reads or writes what it touches, except the cache, which it writes at
  the settlement. The promise takes the outcome, and the \<open>finally\<close> block of the
  caller that started the refresh sets the timer that will delete the promise from
  \<open>refreshPromises\<close> 100 ms later.
\<close>

definition refresh_settle ::
  "remote \<Rightarrow> WorkdayEnvironment \<Rightarrow> nat \<Rightarrow> world \<Rightarrow> world" where
  "refresh_settle server environment refreshPromise w =
     (case doRefresh server environment w of
        (outcome, w1) \<Rightarrow>
          w1\<lparr>promises := (promises w1)(refreshPromise :=
                  (case outcome of Inr token \<Rightarrow> Fulfilled token | Inl error \<Rightarrow> Rejected error)),
             timers := timers w1 @ [(now w1 + 100, name environment)]\<rparr>)"

text \<open>
  The timers that are due fire: each callback is
  \<open>OAuthService.refreshPromises.delete(cacheKey)\<close>.
\<close>

definition timerCallback :: "(string \<rightharpoonup> nat) \<Rightarrow> int \<times> string \<Rightarrow> (string \<rightharpoonup> nat)" where
  "timerCallback handles timer = handles(snd timer := None)"

definition runTimers :: "world \<Rightarrow> world" where
  "runTimers w =
     w\<lparr>refreshPromises :=
          foldl timerCallback (refreshPromises w)
            (filter (\<lambda>timer. fst timer \<le> now w) (timers w)),
        timers := filter (\<lambda>timer. \<not> fst timer \<le> now w) (timers w)\<rparr>"



text \<open>A cached credential for the environment exists and has not expired at time \<open>t\<close>.\<close>

definition live :: "WorkdayEnvironment \<Rightarrow> world \<Rightarrow> int \<Rightarrow> bool" where
  "live environment w t =
     (case tokenCache w (name environment) of
        Some (token, expiry) \<Rightarrow> t < expiry | None \<Rightarrow> False)"




text \<open>The part of the world that only \<open>getAccessToken\<close> and the timers write.\<close>

definition oauthState :: "world \<Rightarrow> (string \<rightharpoonup> nat) \<times> (nat \<Rightarrow> promise) \<times> nat \<times> (int \<times> string) list" where
  "oauthState w = (refreshPromises w, promises w, promiseCount w, timers w)"

text \<open>
  The worlds that the process reaches from its start, where no refresh promise is
  registered and no timer is pending, by callers entering \<open>getAccessToken\<close>, pending
  refreshes settling, timers firing, and any step that leaves the promises and timers
  alone. \<open>OAuthService.clearCache\<close>, which nothing in the repository calls, is not
  among the steps.
\<close>

inductive oauth_reachable :: "remote \<Rightarrow> world \<Rightarrow> bool" for server :: remote where
  at_start: "refreshPromises w = Map.empty \<Longrightarrow> timers w = [] \<Longrightarrow> oauth_reachable server w"
| caller_enters:
    "oauth_reachable server w \<Longrightarrow>
     oauth_reachable server (snd (getAccessToken_enter env w))"
| refresh_settles:
    "oauth_reachable server w \<Longrightarrow> refreshPromises w (name env) = Some p \<Longrightarrow>
     promises w p = Pending \<Longrightarrow> oauth_reachable server (refresh_settle server env p w)"
| timers_fire: "oauth_reachable server w \<Longrightarrow> oauth_reachable server (runTimers w)"
| elsewhere: "oauth_reachable server w \<Longrightarrow> oauthState w' = oauthState w \<Longrightarrow>
     oauth_reachable server w'"



section \<open>Strings\<close>

text \<open>
  Strings are lists of 8-bit characters: the code units below 256. The helpers are
  the string operations and the regular expressions of the source, each written as
  the test it performs.
\<close>

text \<open>\<open>\d\<close>\<close>

definition isDigit :: "char \<Rightarrow> bool" where
  "isDigit c = (c \<in> set ''0123456789'')"

text \<open>\<open>[a-f0-9]\<close>\<close>

definition isLowerHex :: "char \<Rightarrow> bool" where
  "isLowerHex c = (c \<in> set ''abcdef0123456789'')"

text \<open>\<open>[a-zA-Z0-9]\<close>\<close>

definition isAlphaNumeric :: "char \<Rightarrow> bool" where
  "isAlphaNumeric c =
     (c \<in> set ''abcdefghijklmnopqrstuvwxyzABCDEFGHIJKLMNOPQRSTUVWXYZ0123456789'')"

text \<open>\<open>text.startsWith(pattern)\<close>\<close>

fun startsWith :: "string \<Rightarrow> string \<Rightarrow> bool" where
  "startsWith text [] = True"
| "startsWith [] (p # pattern) = False"
| "startsWith (c # text) (p # pattern) = (c = p \<and> startsWith text pattern)"

text \<open>\<open>text.includes(pattern)\<close>\<close>

fun stringIncludes :: "string \<Rightarrow> string \<Rightarrow> bool" where
  "stringIncludes [] pattern = (pattern = [])"
| "stringIncludes (c # text) pattern = (startsWith (c # text) pattern \<or> stringIncludes text pattern)"

text \<open>
  The leftmost position of \<open>text\<close> at which \<open>matchAt\<close> succeeds, as an unanchored
  regular expression search proceeds.
\<close>

fun firstMatch :: "(string \<Rightarrow> 'a option) \<Rightarrow> string \<Rightarrow> 'a option" where
  "firstMatch matchAt [] = matchAt []"
| "firstMatch matchAt (c # text) =
     (case matchAt (c # text) of Some m \<Rightarrow> Some m | None \<Rightarrow> firstMatch matchAt text)"

text \<open>
  \<open>path.basename\<close>: the last segment of a path, trailing separators ignored.
\<close>

definition basename :: "string \<Rightarrow> string" where
  "basename filePath =
     rev (takeWhile (\<lambda>c. c \<noteq> CHR ''/'') (dropWhile (\<lambda>c. c = CHR ''/'') (rev filePath)))"

text \<open>\<open>path.join(dir, file)\<close>, for segments that need no normalisation.\<close>

definition joinPath :: "string \<Rightarrow> string \<Rightarrow> string" where
  "joinPath dir file = dir @ ''/'' @ file"

section \<open>services/workday-api.ts\<close>

text \<open>
  A field name that several interfaces of the source share is prefixed here
  (\<open>doc_employeeId\<close>, \<open>pf_employeeId\<close>, \<open>ur_employeeId\<close>), and so is a name that
  Isabelle has taken (\<open>pf_size\<close>, \<open>validationError\<close> for \<open>error\<close>).
\<close>

record WorkerDocument =
  doc_employeeId :: string
  doc_filename :: string
  categoryWid :: string
  fileContent :: string
  mimeType :: string

record WorkerValidationResult =
  isValid :: bool
  workerWid :: "string option"
  validationError :: "string option"

text \<open>
  The service with what it is constructed from and what it calls: its environment;
  \<open>getAccessToken\<close> of the injected \<open>OAuthService\<close>, taken as a whole from the call
  to its settlement (it returns a token or throws); the two request builders, which
  throw when \<open>TemplateLoader\<close> does; and the remote endpoints.
\<close>

record WorkdayApiService =
  environment :: WorkdayEnvironment
  getAccessToken :: "world \<Rightarrow> (js_error + string) \<times> world"
  buildGetWorkersRequest :: "string \<Rightarrow> js_error + string"
  buildPutWorkerDocumentRequest :: "WorkerDocument \<Rightarrow> string \<Rightarrow> js_error + string"
  endpoints :: remote

text \<open>
  \<open>/^\d{3,12}$/.test(employeeId) && employeeId.length >= 3 && employeeId.length <= 12\<close>
\<close>

definition validateEmployeeId :: "string \<Rightarrow> bool" where
  "validateEmployeeId employeeId =
     ((list_all isDigit employeeId \<and> 3 \<le> length employeeId \<and> length employeeId \<le> 12)
      \<and> length employeeId \<ge> 3 \<and> length employeeId \<le> 12)"

text \<open>\<open>/^[a-f0-9]{32}$/.test(wid)\<close>\<close>

definition validateWid :: "string \<Rightarrow> bool" where
  "validateWid wid = (list_all isLowerHex wid \<and> length wid = 32)"

text \<open>
  A match of \<open>opening([^<]+)closing\<close> at the start of \<open>text\<close>; the result is the
  captured group.
\<close>

definition captureId :: "string \<Rightarrow> string \<Rightarrow> string \<Rightarrow> string option" where
  "captureId opening closing text =
     (if startsWith text opening then
        (let rest = drop (length opening) text;
             captured = takeWhile (\<lambda>c. c \<noteq> CHR ''<'') rest;
             after = dropWhile (\<lambda>c. c \<noteq> CHR ''<'') rest
         in if captured \<noteq> [] \<and> startsWith after closing then Some captured else None)
      else None)"

definition extractWorkerWid :: "string \<Rightarrow> string option" where
  \<open>extractWorkerWid soapResponse =
     (let bsvcMatch = firstMatch (captureId ''<bsvc:ID bsvc:type="WID">'' ''</bsvc:ID>'')
                        soapResponse;
          wdMatch = firstMatch (captureId ''<wd:ID wd:type="WID">'' ''</wd:ID>'') soapResponse
      in case bsvcMatch of Some wid \<Rightarrow> Some wid | None \<Rightarrow> wdMatch)\<close>

definition isUploadSuccessful :: "string \<Rightarrow> bool" where
  "isUploadSuccessful soapResponse =
     (\<not> stringIncludes soapResponse ''soap:Fault'' \<and>
      \<not> stringIncludes soapResponse ''bsvc:Validation_Error'' \<and>
      (stringIncludes soapResponse ''Put_Worker_Document_Response'' \<or>
       stringIncludes soapResponse ''bsvc:Worker_Document_Reference''))"

text \<open>
  \<open>makeSOAPRequest\<close> sends one request; it logs and rethrows what \<open>axios.post\<close>
  throws.
\<close>

definition makeSOAPRequest ::
  "WorkdayApiService \<Rightarrow> string \<Rightarrow> string \<Rightarrow> world \<Rightarrow> (js_error + string) \<times> world" where
  "makeSOAPRequest api soapEnvelope accessToken w =
     (case soapServer (endpoints api) w (apiUrl (environment api)) soapEnvelope accessToken of
        (reply, elapsed) \<Rightarrow>
          (reply, w\<lparr>now := now w + elapsed, soapCalls := soapCalls w + 1\<rparr>))"

text \<open>
  The \<open>try\<close> block of \<open>validateWorker\<close>: the remote call goes through \<open>withRetry\<close>
  with \<open>maxAttempts: 3\<close>.
\<close>

definition validateWorker_try ::
  "WorkdayApiService \<Rightarrow> string \<Rightarrow> world \<Rightarrow> (js_error + WorkerValidationResult) \<times> world" where
  "validateWorker_try api employeeId w =
     (case getAccessToken api w of
        (Inl err, w1) \<Rightarrow> (Inl err, w1)
      | (Inr accessToken, w1) \<Rightarrow>
          (case buildGetWorkersRequest api employeeId of
             Inl err \<Rightarrow> (Inl err, w1)
           | Inr soapEnvelope \<Rightarrow>
               (case withRetry (makeSOAPRequest api soapEnvelope accessToken)
                       (noOptions\<lparr>p_maxAttempts := Some 3\<rparr>) w1 of
                  (Inl err, w2, events) \<Rightarrow> (Inl err, w2)
                | (Inr response, w2, events) \<Rightarrow>
                    (case extractWorkerWid response of
                       Some wid \<Rightarrow>
                         if wid \<noteq> [] then
                           (Inr \<lparr> isValid = True, workerWid = Some wid,
                                  validationError = None \<rparr>, w2)
                         else
                           (Inr \<lparr> isValid = False, workerWid = None,
                                  validationError = Some ''Worker not found'' \<rparr>, w2)
                     | None \<Rightarrow>
                         (Inr \<lparr> isValid = False, workerWid = None,
                                validationError = Some ''Worker not found'' \<rparr>, w2)))))"

definition validateWorker ::
  "WorkdayApiService \<Rightarrow> string \<Rightarrow> world \<Rightarrow> (js_error + WorkerValidationResult) \<times> world" where
  "validateWorker api employeeId w =
     (if \<not> validateEmployeeId employeeId then
        (Inr \<lparr> isValid = False, workerWid = None,
               validationError = Some ''Invalid employee ID format. Must be 3-12 digits.'' \<rparr>, w)
      else
        (case validateWorker_try api employeeId w of
           (Inr result, w1) \<Rightarrow> (Inr result, w1)
         | (Inl err, w1) \<Rightarrow>
             (Inr \<lparr> isValid = False, workerWid = None,
                    validationError = Some (''Validation failed: '' @ errorText err) \<rparr>, w1)))"

text \<open>The \<open>try\<close> block of \<open>uploadDocument\<close>.\<close>

definition uploadDocument_try ::
  "WorkdayApiService \<Rightarrow> WorkerDocument \<Rightarrow> string \<Rightarrow> world \<Rightarrow> (js_error + bool) \<times> world" where
  "uploadDocument_try api document workerWidArg w =
     (case getAccessToken api w of
        (Inl err, w1) \<Rightarrow> (Inl err, w1)
      | (Inr accessToken, w1) \<Rightarrow>
          (case buildPutWorkerDocumentRequest api document workerWidArg of
             Inl err \<Rightarrow> (Inl err, w1)
           | Inr soapEnvelope \<Rightarrow>
               (case withRetry (makeSOAPRequest api soapEnvelope accessToken)
                       (noOptions\<lparr>p_maxAttempts := Some 3\<rparr>) w1 of
                  (Inl err, w2, events) \<Rightarrow> (Inl err, w2)
                | (Inr response, w2, events) \<Rightarrow>
                    if isUploadSuccessful response then (Inr True, w2) else (Inr False, w2))))"

definition uploadDocument ::
  "WorkdayApiService \<Rightarrow> WorkerDocument \<Rightarrow> string \<Rightarrow> world \<Rightarrow> (js_error + bool) \<times> world" where
  "uploadDocument api document workerWidArg w =
     (if \<not> validateEmployeeId (doc_employeeId document) then (Inr False, w)
      else if \<not> validateWid workerWidArg then (Inr False, w)
      else if \<not> validateWid (categoryWid document) then (Inr False, w)
      else
        (case uploadDocument_try api document workerWidArg w of
           (Inr uploaded, w1) \<Rightarrow> (Inr uploaded, w1)
         | (Inl err, w1) \<Rightarrow> (Inr False, w1)))"

section \<open>config/environment.ts and the file system\<close>

record AppConfig =
  maxConcurrentUploads :: int
  maxFileSizeMB :: int
  inputDir :: string
  processedDir :: string
  failedDir :: string
  logLevel :: string

text \<open>
  The file system operations that the code calls: each answers in a given world with
  a value, or with the error that the \<open>fs\<close> call throws.
  \<open>ensureDirectoryExists\<close> is the private method of \<open>FileProcessor\<close>, which throws
  what \<open>fs.mkdir\<close> throws.
\<close>

record disk =
  readdir :: "world \<Rightarrow> string \<Rightarrow> js_error + string list"
  stat :: "world \<Rightarrow> string \<Rightarrow> js_error + nat"
  readFile :: "world \<Rightarrow> string \<Rightarrow> js_error + string"
  ensureDirectoryExists :: "world \<Rightarrow> string \<Rightarrow> js_error option"
  rename :: "world \<Rightarrow> string \<Rightarrow> string \<Rightarrow> js_error option"
  writeFile :: "world \<Rightarrow> string \<Rightarrow> js_error option"

section \<open>services/file-processor.ts\<close>

record ProcessedFile =
  pf_employeeId :: string
  pf_filename :: string
  fullPath :: string
  pf_fileContent :: string
  pf_size :: nat
  pf_isValid :: bool
  pf_error :: "string option"

definition getFilesToProcess :: "AppConfig \<Rightarrow> disk \<Rightarrow> world \<Rightarrow> js_error + string list" where
  "getFilesToProcess cfg fs w =
     (case readdir fs w (inputDir cfg) of
        Inl err \<Rightarrow>
          Inl (JsError None None (''Error: Cannot read input directory. Check that the ''
                 @ ''directory exists and you have read permissions.''))
      | Inr files \<Rightarrow>
          Inr (map (joinPath (inputDir cfg))
                 (filter (\<lambda>file. \<not> startsWith file ''.'') files)))"

text \<open>
  \<open>FileProcessor.validateEmployeeId\<close>:
  \<open>/^\d{4,12}$/.test(employeeId) && employeeId.length >= 4 && employeeId.length <= 12\<close>
\<close>

definition FileProcessor_validateEmployeeId :: "string \<Rightarrow> bool" where
  "FileProcessor_validateEmployeeId employeeId =
     ((list_all isDigit employeeId \<and> 4 \<le> length employeeId \<and> length employeeId \<le> 12)
      \<and> length employeeId \<ge> 4 \<and> length employeeId \<le> 12)"

text \<open>The characters that \<open>.\<close> does not match.\<close>

definition isLineTerminator :: "char \<Rightarrow> bool" where
  "isLineTerminator c = (c = CHR 0x0A \<or> c = CHR 0x0D)"

text \<open>\<open>filename.match(/^(\d+)-.*\./)\<close>, then the check of the captured digits.\<close>

definition extractEmployeeId :: "string \<Rightarrow> string option" where
  "extractEmployeeId filename =
     (let digits = takeWhile isDigit filename;
          rest = dropWhile isDigit filename;
          matched = (digits \<noteq> [] \<and>
                     (case rest of
                        [] \<Rightarrow> False
                      | c # tail \<Rightarrow>
                          c = CHR ''-'' \<and>
                          CHR ''.'' \<in> set (takeWhile (\<lambda>c. \<not> isLineTerminator c) tail)))
      in if \<not> matched then None
         else if \<not> FileProcessor_validateEmployeeId digits then None
         else Some digits)"

text \<open>\<open>[<>:"|?*\x00-\x1f]\<close>\<close>

definition dangerousChar :: "char \<Rightarrow> bool" where
  \<open>dangerousChar c = (c \<in> set ''<>:"|?*'' \<or> (of_char c :: nat) < 32)\<close>

text \<open>
  \<open>/^\d+-[^-]+\.[a-zA-Z0-9]+$/\<close>: digits, a hyphen, a description without hyphen, the
  last dot, an alphanumeric extension.
\<close>

definition matchesFilenamePattern :: "string \<Rightarrow> bool" where
  "matchesFilenamePattern filename =
     (let digits = takeWhile isDigit filename;
          rest = dropWhile isDigit filename
      in digits \<noteq> [] \<and>
         (case rest of
            [] \<Rightarrow> False
          | c # tail \<Rightarrow>
              c = CHR ''-'' \<and> CHR ''.'' \<in> set tail \<and>
              (let extension = rev (takeWhile (\<lambda>c. c \<noteq> CHR ''.'') (rev tail));
                   description = take (length tail - length extension - 1) tail
               in description \<noteq> [] \<and> CHR ''-'' \<notin> set description \<and>
                  extension \<noteq> [] \<and> list_all isAlphaNumeric extension)))"

definition validateFilename :: "string \<Rightarrow> bool \<times> string option" where
  "validateFilename filename =
     (if filename = [] then (False, Some ''Filename is empty'')
      else if length filename > 255 then
        (False, Some ''Filename too long (max 255 characters)'')
      else if list_ex dangerousChar filename then
        (False, Some ''Filename contains invalid characters'')
      else if \<not> matchesFilenamePattern filename then
        (False, Some (''Filename must follow pattern: ''
                       @ ''{employeeId}-{description}.{extension}''))
      else (True, None))"

text \<open>
  \<open>text || fallback\<close> on an optional string: the fallback replaces \<open>undefined\<close> and
  the empty string.
\<close>

definition orElse :: "string option \<Rightarrow> string \<Rightarrow> string" where
  "orElse text fallback = (case text of None \<Rightarrow> fallback
                           | Some t \<Rightarrow> if t = [] then fallback else t)"

definition rejectedFile :: "string \<Rightarrow> string \<Rightarrow> string \<Rightarrow> ProcessedFile" where
  "rejectedFile filename filePath message =
     \<lparr> pf_employeeId = [], pf_filename = filename, fullPath = filePath,
       pf_fileContent = [], pf_size = 0, pf_isValid = False, pf_error = Some message \<rparr>"

text \<open>
  \<open>FileProcessor.processFile\<close>. Its \<open>catch\<close> turns every error of the file system
  into a rejected file. The two numbers in the message about the file size are left
  out.
\<close>

definition FileProcessor_processFile ::
  "AppConfig \<Rightarrow> disk \<Rightarrow> string \<Rightarrow> world \<Rightarrow> ProcessedFile" where
  "FileProcessor_processFile cfg fs filePath w =
     (let filename = basename filePath in
      case validateFilename filename of
        (False, message) \<Rightarrow>
          rejectedFile filename filePath (orElse message ''Invalid filename format'')
      | (True, message) \<Rightarrow>
          (case extractEmployeeId filename of
             None \<Rightarrow>
               rejectedFile filename filePath
                 ''Invalid employee ID format. Must be 4-12 digits''
           | Some employeeId \<Rightarrow>
               (case stat fs w filePath of
                  Inl err \<Rightarrow>
                    rejectedFile filename filePath
                      (''File processing error: '' @ errorText err)
                | Inr bytes \<Rightarrow>
                    if int bytes > maxFileSizeMB cfg * (1024 * 1024) then
                      \<lparr> pf_employeeId = employeeId, pf_filename = filename,
                        fullPath = filePath, pf_fileContent = [], pf_size = bytes,
                        pf_isValid = False,
                        pf_error = Some ''File size exceeds maximum allowed size'' \<rparr>
                    else
                      (case readFile fs w filePath of
                         Inl err \<Rightarrow>
                           rejectedFile filename filePath
                             (''File processing error: '' @ errorText err)
                       | Inr content \<Rightarrow>
                           \<lparr> pf_employeeId = employeeId, pf_filename = filename,
                             fullPath = filePath, pf_fileContent = content,
                             pf_size = bytes, pf_isValid = True, pf_error = None \<rparr>))))"

definition moveToProcessed ::
  "AppConfig \<Rightarrow> disk \<Rightarrow> string \<Rightarrow> world \<Rightarrow> (js_error + unit) \<times> world" where
  "moveToProcessed cfg fs filePath w =
     (let filename = basename filePath;
          destinationPath = joinPath (processedDir cfg) filename
      in case ensureDirectoryExists fs w (processedDir cfg) of
           Some err \<Rightarrow> (Inl err, w)
         | None \<Rightarrow>
             (case rename fs w filePath destinationPath of
                Some err \<Rightarrow> (Inl err, w)
              | None \<Rightarrow> (Inr (), w\<lparr>movedToProcessed := movedToProcessed w @ [filePath]\<rparr>)))"

definition moveToFailed ::
  "AppConfig \<Rightarrow> disk \<Rightarrow> string \<Rightarrow> string \<Rightarrow> world \<Rightarrow> (js_error + unit) \<times> world" where
  "moveToFailed cfg fs filePath reason w =
     (let filename = basename filePath;
          destinationPath = joinPath (failedDir cfg) filename
      in case ensureDirectoryExists fs w (failedDir cfg) of
           Some err \<Rightarrow> (Inl err, w)
         | None \<Rightarrow>
             (case rename fs w filePath destinationPath of
                Some err \<Rightarrow> (Inl err, w)
              | None \<Rightarrow>
                  (let w1 = w\<lparr>movedToFailed := movedToFailed w @ [(filePath, reason)]\<rparr>;
                       errorLogPath = joinPath (failedDir cfg) (filename @ ''.error.txt'')
                   in case writeFile fs w1 errorLogPath of
                        Some err \<Rightarrow> (Inl err, w1)
                      | None \<Rightarrow> (Inr (), w1))))"

section \<open>services/upload-orchestrator.ts\<close>

record UploadResult =
  ur_filename :: string
  ur_employeeId :: string
  success :: bool
  ur_error :: "string option"
  duration :: int

record UploadStats =
  totalFiles :: nat
  successful :: nat
  failed :: nat
  stats_duration :: int
  results :: "UploadResult list"

text \<open>
  The orchestrator with its collaborators (configuration, file system, API service,
  and \<open>promptConfirmation\<close>: the answer that the user gives to the prompt shown in
  a given world) and its three mutable fields.
\<close>

record UploadOrchestrator =
  config :: AppConfig
  fileSystem :: disk
  workdayApi :: WorkdayApiService
  promptConfirmation :: "world \<Rightarrow> bool"
  consecutiveFailures :: int
  shouldCheckForFailures :: bool
  workerCache :: "string \<rightharpoonup> string \<times> int"

definition WORKER_CACHE_TTL :: int where
  "WORKER_CACHE_TTL = 3600000"

text \<open>The fields as the class initialises them.\<close>

definition newUploadOrchestrator ::
  "AppConfig \<Rightarrow> disk \<Rightarrow> WorkdayApiService \<Rightarrow> (world \<Rightarrow> bool) \<Rightarrow> UploadOrchestrator" where
  "newUploadOrchestrator cfg fs api answers =
     \<lparr> config = cfg, fileSystem = fs, workdayApi = api, promptConfirmation = answers,
       consecutiveFailures = 0, shouldCheckForFailures = True, workerCache = Map.empty \<rparr>"

definition getFromWorkerCache ::
  "UploadOrchestrator \<Rightarrow> string \<Rightarrow> world \<Rightarrow> string option \<times> UploadOrchestrator" where
  "getFromWorkerCache orch employeeId w =
     (case workerCache orch employeeId of
        None \<Rightarrow> (None, orch)
      | Some (cachedWid, validatedAt) \<Rightarrow>
          (let age = now w - validatedAt in
           if age > WORKER_CACHE_TTL then
             (None, orch\<lparr>workerCache := (workerCache orch)(employeeId := None)\<rparr>)
           else (Some cachedWid, orch)))"

definition addToWorkerCache ::
  "UploadOrchestrator \<Rightarrow> string \<Rightarrow> string \<Rightarrow> world \<Rightarrow> UploadOrchestrator" where
  "addToWorkerCache orch employeeId wid w =
     orch\<lparr>workerCache := (workerCache orch)(employeeId \<mapsto> (wid, now w))\<rparr>"

text \<open>\<open>filePath.split('/').pop()\<close>\<close>

definition lastSegment :: "string \<Rightarrow> string" where
  "lastSegment filePath = rev (takeWhile (\<lambda>c. c \<noteq> CHR ''/'') (rev filePath))"

definition failedResult ::
  "string \<Rightarrow> string \<Rightarrow> string option \<Rightarrow> int \<Rightarrow> world \<Rightarrow> UploadResult" where
  "failedResult filename employeeId message startTime w =
     \<lparr> ur_filename = filename, ur_employeeId = employeeId, success = False,
       ur_error = message, duration = now w - startTime \<rparr>"

text \<open>\<open>filePath.split('/').pop() || 'unknown'\<close>\<close>

definition filenameOf :: "string \<Rightarrow> string" where
  "filenameOf filePath = orElse (Some (lastSegment filePath)) ''unknown''"

text \<open>
  \<open>processFile\<close> is \<open>async\<close>, and \<open>Promise.all(chunk.map(...))\<close> has the calls for all
  files of a chunk in flight at once, on the same orchestrator. JavaScript runs a call
  without interruption from one \<open>await\<close> to the next, so between two such segments a
  call is what it awaits together with the values it holds: the path, the start time
  and, once known, the processed file. The awaited calls are
  \<open>fileProcessor.processFile\<close>, \<open>workdayApi.validateWorker\<close>,
  \<open>workdayApi.uploadDocument\<close>, \<open>fileProcessor.moveToProcessed\<close>,
  \<open>fileProcessor.moveToFailed\<close> in a failing branch of the \<open>try\<close> block (with the
  employee id and the error of the result to come, and the reason to record), and
  \<open>fileProcessor.moveToFailed\<close> in the \<open>catch\<close> block (with the error caught).
\<close>

datatype file_task =
    Reading string int
  | Validating string int ProcessedFile
  | Uploading string int ProcessedFile string
  | Filing string int ProcessedFile
  | Failing string int string string "string option"
  | Recovering string int js_error
  | Finished UploadResult

text \<open>
  The awaited call of a task settles and the task runs up to its next \<open>await\<close>, or to
  its \<open>return\<close>. What the awaited call does from the call on is taken as one step,
  placed at its settlement. A failing branch increments \<open>consecutiveFailures\<close> after
  the move to the failed directory, and the successful branch sets it to 0 after the
  move to the processed directory; an error thrown by an awaited call leads to the
  \<open>catch\<close> block, which ignores what its own \<open>moveToFailed\<close> throws.
\<close>

fun resume ::
  "UploadOrchestrator \<Rightarrow> string \<Rightarrow> file_task \<Rightarrow> world
     \<Rightarrow> file_task \<times> UploadOrchestrator \<times> world" where
  "resume orch categoryWidArg (Reading filePath startTime) w =
     (let processedFile = FileProcessor_processFile (config orch) (fileSystem orch) filePath w
      in if \<not> pf_isValid processedFile then
           (Failing filePath startTime (pf_employeeId processedFile)
              (orElse (pf_error processedFile) ''Unknown error'') (pf_error processedFile),
            orch, w)
         else
           (case getFromWorkerCache orch (pf_employeeId processedFile) w of
              (Some cachedWid, orch1) \<Rightarrow>
                (Uploading filePath startTime processedFile cachedWid, orch1, w)
            | (None, orch1) \<Rightarrow> (Validating filePath startTime processedFile, orch1, w)))"
| "resume orch categoryWidArg (Validating filePath startTime processedFile) w =
     (case validateWorker (workdayApi orch) (pf_employeeId processedFile) w of
        (Inl err, w1) \<Rightarrow> (Recovering filePath startTime err, orch, w1)
      | (Inr workerValidation, w1) \<Rightarrow>
          if \<not> isValid workerValidation then
            (Failing filePath startTime (pf_employeeId processedFile)
               (orElse (validationError workerValidation) ''Worker validation failed'')
               (validationError workerValidation),
             orch, w1)
          else
            (let wid = (case workerWid workerValidation of
                          Some v \<Rightarrow> v | None \<Rightarrow> ''undefined'')
             in (Uploading filePath startTime processedFile wid,
                 addToWorkerCache orch (pf_employeeId processedFile) wid w1, w1)))"
| "resume orch categoryWidArg (Uploading filePath startTime processedFile wid) w =
     (let workerDocument =
            \<lparr> doc_employeeId = pf_employeeId processedFile,
              doc_filename = pf_filename processedFile, categoryWid = categoryWidArg,
              fileContent = pf_fileContent processedFile,
              mimeType = ''application/pdf'' \<rparr>
      in case uploadDocument (workdayApi orch) workerDocument wid w of
           (Inl err, w1) \<Rightarrow> (Recovering filePath startTime err, orch, w1)
         | (Inr uploadSuccess, w1) \<Rightarrow>
             if uploadSuccess then (Filing filePath startTime processedFile, orch, w1)
             else
               (Failing filePath startTime (pf_employeeId processedFile)
                  ''Document upload failed'' (Some ''Document upload failed''),
                orch, w1))"
| "resume orch categoryWidArg (Filing filePath startTime processedFile) w =
     (case moveToProcessed (config orch) (fileSystem orch) filePath w of
        (Inl err, w1) \<Rightarrow> (Recovering filePath startTime err, orch, w1)
      | (Inr u, w1) \<Rightarrow>
          (Finished \<lparr> ur_filename = filenameOf filePath,
                      ur_employeeId = pf_employeeId processedFile, success = True,
                      ur_error = None, duration = now w1 - startTime \<rparr>,
           orch\<lparr>consecutiveFailures := 0\<rparr>, w1))"
| "resume orch categoryWidArg (Failing filePath startTime employeeId reason message) w =
     (case moveToFailed (config orch) (fileSystem orch) filePath reason w of
        (Inl err, w1) \<Rightarrow> (Recovering filePath startTime err, orch, w1)
      | (Inr u, w1) \<Rightarrow>
          (Finished (failedResult (filenameOf filePath) employeeId message startTime w1),
           orch\<lparr>consecutiveFailures := consecutiveFailures orch + 1\<rparr>, w1))"
| "resume orch categoryWidArg (Recovering filePath startTime err) w =
     (let w1 = snd (moveToFailed (config orch) (fileSystem orch) filePath
                      (''Processing error: '' @ errorText err) w)
      in (Finished (failedResult (filenameOf filePath) []
                      (Some (''Processing error: '' @ errorText err)) startTime w1),
          orch\<lparr>consecutiveFailures := consecutiveFailures orch + 1\<rparr>, w1))"
| "resume orch categoryWidArg (Finished result) w = (Finished result, orch, w)"

text \<open>The number of awaited calls that a task has before it at most.\<close>

fun stagesLeft :: "file_task \<Rightarrow> nat" where
  "stagesLeft (Reading filePath startTime) = 6"
| "stagesLeft (Validating filePath startTime processedFile) = 5"
| "stagesLeft (Uploading filePath startTime processedFile wid) = 4"
| "stagesLeft (Filing filePath startTime processedFile) = 3"
| "stagesLeft (Failing filePath startTime employeeId reason message) = 2"
| "stagesLeft (Recovering filePath startTime err) = 1"
| "stagesLeft (Finished result) = 0"

text \<open>A task runs to its end with no segment of another task in between.\<close>

function finishTask ::
  "UploadOrchestrator \<Rightarrow> string \<Rightarrow> file_task \<Rightarrow> world
     \<Rightarrow> UploadResult \<times> UploadOrchestrator \<times> world" where
  "finishTask orch categoryWidArg task w =
     (case task of
        Finished result \<Rightarrow> (result, orch, w)
      | other \<Rightarrow>
          (case resume orch categoryWidArg task w of
             (task1, orch1, w1) \<Rightarrow> finishTask orch1 categoryWidArg task1 w1))"
  by pat_completeness auto
termination
  by (relation "measure (\<lambda>(orch, categoryWidArg, task, w). stagesLeft task)")
     (auto simp: Let_def split: if_splits prod.splits sum.splits option.splits)

declare finishTask.simps [simp del]

text \<open>
  A call of \<open>processFile\<close> during which no segment of another call runs.
\<close>

definition processFile ::
  "UploadOrchestrator \<Rightarrow> string \<Rightarrow> string \<Rightarrow> world
     \<Rightarrow> UploadResult \<times> UploadOrchestrator \<times> world" where
  "processFile orch filePath categoryWidArg w =
     finishTask orch categoryWidArg (Reading filePath (now w)) w"

text \<open>The file name that the result of a task carries.\<close>

fun reportedName :: "file_task \<Rightarrow> string" where
  "reportedName (Reading filePath startTime) = filenameOf filePath"
| "reportedName (Validating filePath startTime processedFile) = filenameOf filePath"
| "reportedName (Uploading filePath startTime processedFile wid) = filenameOf filePath"
| "reportedName (Filing filePath startTime processedFile) = filenameOf filePath"
| "reportedName (Failing filePath startTime employeeId reason message) = filenameOf filePath"
| "reportedName (Recovering filePath startTime err) = filenameOf filePath"
| "reportedName (Finished result) = ur_filename result"

text \<open>
  The calls of a chunk in flight: the awaited calls settle in some order, and each
  settlement resumes its task. A schedule lists, settlement by settlement, the index
  of the task whose awaited call settles; an index that names no task, or a task that
  has returned, changes nothing.
\<close>

fun runSchedule ::
  "UploadOrchestrator \<Rightarrow> string \<Rightarrow> file_task list \<Rightarrow> nat list \<Rightarrow> world
     \<Rightarrow> file_task list \<times> UploadOrchestrator \<times> world" where
  "runSchedule orch categoryWidArg tasks [] w = (tasks, orch, w)"
| "runSchedule orch categoryWidArg tasks (i # schedule) w =
     (if i < length tasks then
        (case resume orch categoryWidArg (tasks ! i) w of
           (task1, orch1, w1) \<Rightarrow>
             runSchedule orch1 categoryWidArg (tasks[i := task1]) schedule w1)
      else runSchedule orch categoryWidArg tasks schedule w)"

text \<open>The tasks that have not returned run to their end, one after the other.\<close>

fun finishAll ::
  "UploadOrchestrator \<Rightarrow> string \<Rightarrow> file_task list \<Rightarrow> world
     \<Rightarrow> UploadResult list \<times> UploadOrchestrator \<times> world" where
  "finishAll orch categoryWidArg [] w = ([], orch, w)"
| "finishAll orch categoryWidArg (task # tasks) w =
     (case finishTask orch categoryWidArg task w of
        (result, orch1, w1) \<Rightarrow>
          (case finishAll orch1 categoryWidArg tasks w1 of
             (chunkResults, orch2, w2) \<Rightarrow> (result # chunkResults, orch2, w2)))"

text \<open>
  \<open>Promise.all(chunk.map(filePath => this.processFile(...)))\<close>: every call is made,
  in the order of the chunk, before any awaited call settles; then the settlements
  come as the schedule has them, and what the schedule leaves unfinished is run to
  its end, so that every order of settlement is some schedule. The results are in the
  order of the chunk.
\<close>

definition processChunk ::
  "UploadOrchestrator \<Rightarrow> string list \<Rightarrow> string \<Rightarrow> nat list \<Rightarrow> world
     \<Rightarrow> UploadResult list \<times> UploadOrchestrator \<times> world" where
  "processChunk orch chunk categoryWidArg schedule w =
     (case runSchedule orch categoryWidArg (map (\<lambda>filePath. Reading filePath (now w)) chunk)
             schedule w of
        (tasks, orch1, w1) \<Rightarrow> finishAll orch1 categoryWidArg tasks w1)"

definition checkConsecutiveFailures ::
  "UploadOrchestrator \<Rightarrow> UploadResult list \<Rightarrow> nat \<Rightarrow> nat \<Rightarrow> world
     \<Rightarrow> bool \<times> UploadOrchestrator \<times> world" where
  "checkConsecutiveFailures orch chunkResults totalProcessed totalFilesArg w =
     (if totalProcessed \<ge> 10 \<and> consecutiveFailures orch \<ge> 10 then
        (let shouldContinue = promptConfirmation orch w;
             w1 = w\<lparr>prompts := prompts w + 1\<rparr>
         in if \<not> shouldContinue then (True, orch\<lparr>shouldCheckForFailures := False\<rparr>, w1)
            else (False, orch\<lparr>consecutiveFailures := 0\<rparr>, w1))
      else (False, orch, w))"

text \<open>
  The loop of \<open>chunkArray\<close> from index \<open>i\<close>, for a positive chunk size.
\<close>

function chunkArray_from :: "'a list \<Rightarrow> nat \<Rightarrow> nat \<Rightarrow> 'a list list" where
  "chunkArray_from array chunkSize i =
     (if 0 < chunkSize \<and> i < length array then
        take chunkSize (drop i array) # chunkArray_from array chunkSize (i + chunkSize)
      else [])"
  by pat_completeness auto
termination
  by (relation "measure (\<lambda>(array, chunkSize, i). length array - i)") auto

declare chunkArray_from.simps [simp del]

text \<open>
  \<open>chunkArray\<close>: with a chunk size of 0 or less the loop over a non-empty array never
  ends, which is the result \<open>None\<close>.
\<close>

definition chunkArray :: "'a list \<Rightarrow> int \<Rightarrow> 'a list list option" where
  "chunkArray array chunkSize =
     (if array = [] then Some []
      else if chunkSize \<le> 0 then None
      else Some (chunkArray_from array (nat chunkSize) 0))"

text \<open>
  The state of a run at the end of a batch: the results so far, the orchestrator and
  the world when \<open>Promise.all\<close> has resolved, and what the check of the consecutive
  failures made of them.
\<close>

record batch_boundary =
  resultsSoFar :: "UploadResult list"
  orchAfterBatch :: UploadOrchestrator
  worldAfterBatch :: world
  stopped :: bool
  orchAfterCheck :: UploadOrchestrator
  worldAfterCheck :: world

text \<open>
  What the check at the end of a batch comes to while the orchestrator still checks:
  with at least 10 results and at least 10 consecutive failures the user is asked
  once; on "no" the loop stops and the orchestrator checks no more; on "yes" the
  counter of consecutive failures is 0 again; otherwise nobody is asked and nothing
  changes.
\<close>

definition valve_applied :: "batch_boundary \<Rightarrow> bool" where
  "valve_applied b =
     (shouldCheckForFailures (orchAfterBatch b) \<and>
      (if 10 \<le> length (resultsSoFar b) \<and> 10 \<le> consecutiveFailures (orchAfterBatch b) then
         worldAfterCheck b = (worldAfterBatch b)\<lparr>prompts := prompts (worldAfterBatch b) + 1\<rparr> \<and>
         (if promptConfirmation (orchAfterBatch b) (worldAfterBatch b) then
            \<not> stopped b \<and> orchAfterCheck b = (orchAfterBatch b)\<lparr>consecutiveFailures := 0\<rparr>
          else
            stopped b \<and>
            orchAfterCheck b = (orchAfterBatch b)\<lparr>shouldCheckForFailures := False\<rparr>)
       else
         \<not> stopped b \<and> orchAfterCheck b = orchAfterBatch b \<and>
         worldAfterCheck b = worldAfterBatch b))"

text \<open>The schedule of the next batch; a batch without one has the empty schedule.\<close>

definition scheduleOf :: "nat list list \<Rightarrow> nat list" where
  "scheduleOf schedules = (case schedules of [] \<Rightarrow> [] | schedule # later \<Rightarrow> schedule)"

text \<open>
  The loop of \<open>uploadAllDocuments\<close> over the chunks, with the schedule of each batch.
  The result is the results, the orchestrator and the world at the end of the loop,
  and the boundaries of the batches that ran.
\<close>

fun uploadChunks ::
  "UploadOrchestrator \<Rightarrow> string list list \<Rightarrow> UploadResult list \<Rightarrow> string list \<Rightarrow> string
     \<Rightarrow> nat list list \<Rightarrow> world
     \<Rightarrow> UploadResult list \<times> UploadOrchestrator \<times> world \<times> batch_boundary list" where
  "uploadChunks orch [] results0 filePaths categoryWidArg schedules w = (results0, orch, w, [])"
| "uploadChunks orch (chunk # chunks) results0 filePaths categoryWidArg schedules w =
     (case processChunk orch chunk categoryWidArg (scheduleOf schedules) w of
        (chunkResults, orch1, w1) \<Rightarrow>
          (let results1 = results0 @ chunkResults in
           case (if shouldCheckForFailures orch1 then
                   checkConsecutiveFailures orch1 chunkResults (length results1)
                     (length filePaths) w1
                 else (False, orch1, w1)) of
             (stop, orch2, w2) \<Rightarrow>
               (let boundary = \<lparr> resultsSoFar = results1, orchAfterBatch = orch1,
                                  worldAfterBatch = w1, stopped = stop,
                                  orchAfterCheck = orch2, worldAfterCheck = w2 \<rparr>
                in if stop then (results1, orch2, w2, [boundary])
                   else
                     (case uploadChunks orch2 chunks results1 filePaths categoryWidArg
                             (tl schedules) w2 of
                        (allResults, orch3, w3, boundaries) \<Rightarrow>
                          (allResults, orch3, w3, boundary # boundaries)))))"

text \<open>
  \<open>uploadAllDocuments\<close>: \<open>None\<close> when it never returns, \<open>Inl\<close> when it throws.
\<close>

definition uploadAllDocuments ::
  "UploadOrchestrator \<Rightarrow> string \<Rightarrow> nat list list \<Rightarrow> world
     \<Rightarrow> ((js_error + UploadStats) \<times> UploadOrchestrator \<times> world \<times> batch_boundary list) option"
  where
  "uploadAllDocuments orch categoryWidArg schedules w =
     (let startTime = now w in
      case getAccessToken (workdayApi orch) w of
        (Inl err, w1) \<Rightarrow> Some (Inl err, orch, w1, [])
      | (Inr accessToken, w1) \<Rightarrow>
          (case getFilesToProcess (config orch) (fileSystem orch) w1 of
             Inl err \<Rightarrow> Some (Inl err, orch, w1, [])
           | Inr filePaths \<Rightarrow>
               if length filePaths = 0 then
                 Some (Inr \<lparr> totalFiles = 0, successful = 0, failed = 0,
                             stats_duration = now w1 - startTime, results = [] \<rparr>,
                       orch, w1, [])
               else
                 (case chunkArray filePaths (maxConcurrentUploads (config orch)) of
                    None \<Rightarrow> None
                  | Some chunks \<Rightarrow>
                      (case uploadChunks orch chunks [] filePaths categoryWidArg schedules
                              w1 of
                         (allResults, orch1, w2, boundaries) \<Rightarrow>
                           Some (Inr \<lparr> totalFiles = length filePaths,
                                       successful = length (filter success allResults),
                                       failed =
                                         length (filter (\<lambda>r. \<not> success r) allResults),
                                       stats_duration = now w2 - startTime,
                                       results = allResults \<rparr>,
                                 orch1, w2, boundaries)))))"

section \<open>The remote validation behind a circuit breaker\<close>

text \<open>
  What the specification describes for the remote validation of a subject: the call,
  retries included, run through a circuit breaker of its own. The source has no such
  function; it is here to be compared with \<open>validateWorker\<close>.
\<close>

definition validateSubject_guarded ::
  "CircuitBreaker \<Rightarrow> WorkdayApiService \<Rightarrow> string \<Rightarrow> world
     \<Rightarrow> (js_error + WorkerValidationResult) \<times> CircuitBreaker \<times> world" where
  "validateSubject_guarded breaker api employeeId w =
     execute breaker (validateWorker_try api employeeId) ''validate subject'' w"

text \<open>\<open>n\<close> calls of \<open>validateWorker\<close>, one after the other.\<close>

fun repeatValidation :: "nat \<Rightarrow> WorkdayApiService \<Rightarrow> string \<Rightarrow> world \<Rightarrow> world" where
  "repeatValidation 0 api employeeId w = w"
| "repeatValidation (Suc n) api employeeId w =
     repeatValidation n api employeeId (snd (validateWorker api employeeId w))"

text \<open>\<open>n\<close> guarded validations, one after the other.\<close>

fun repeatGuarded ::
  "nat \<Rightarrow> CircuitBreaker \<Rightarrow> WorkdayApiService \<Rightarrow> string \<Rightarrow> world \<Rightarrow> CircuitBreaker \<times> world" where
  "repeatGuarded 0 breaker api employeeId w = (breaker, w)"
| "repeatGuarded (Suc n) breaker api employeeId w =
     (case validateSubject_guarded breaker api employeeId w of
        (outcome, breaker1, w1) \<Rightarrow> repeatGuarded n breaker1 api employeeId w1)"

section \<open>Sample inputs\<close>

text \<open>
  The world at the start of the process, on a platform whose \<open>Math.pow\<close> returns
  the double nearest to the power.
\<close>

definition world0 :: world where
  "world0 = \<lparr> now = 0, soapCalls = 0, tokenCalls = 0, tokenCache = Map.empty,
              refreshPromises = Map.empty, promises = (\<lambda>p. Pending), promiseCount = 0,
              timers = [], movedToProcessed = [], movedToFailed = [], prompts = 0,
              mathPow = (\<lambda>x n. roundDouble (x ^ n)) \<rparr>"

definition connectionReset :: js_error where
  "connectionReset = JsError (Some ''ECONNRESET'') None ''Error: socket hang up''"

definition badRequest :: js_error where
  "badRequest = JsError None (Some 400) ''AxiosError: Request failed with status code 400''"

text \<open>An operation that always throws a transient network error.\<close>

definition alwaysReset :: "world \<Rightarrow> (js_error + unit) \<times> world" where
  "alwaysReset w = (Inl connectionReset, w\<lparr>soapCalls := soapCalls w + 1\<rparr>)"

text \<open>An operation that always throws an HTTP 400 error.\<close>

definition alwaysRejected :: "world \<Rightarrow> (js_error + unit) \<times> world" where
  "alwaysRejected w = (Inl badRequest, w\<lparr>soapCalls := soapCalls w + 1\<rparr>)"

text \<open>Invoking a remote operation sends one request.\<close>

definition sendRequest :: "world \<Rightarrow> world" where
  "sendRequest w = w\<lparr>soapCalls := soapCalls w + 1\<rparr>"

text \<open>An operation that returns.\<close>

definition alwaysOk :: "world \<Rightarrow> (js_error + unit) \<times> world" where
  "alwaysOk w = (Inr (), w\<lparr>soapCalls := soapCalls w + 1\<rparr>)"

text \<open>
  A breaker with the constructor's default arguments after five failed calls at
  time 0, and two calls that start one after the other, once the cool-down has
  elapsed, before either operation has settled.
\<close>

definition trippedBreaker :: CircuitBreaker where
  "trippedBreaker =
     executeSeq (newCircuitBreaker 5 60000) (replicate 5 (alwaysRejected, world0))"

definition firstTrial :: "(js_error + unit) \<times> CircuitBreaker \<times> world" where
  "firstTrial = execute_begin trippedBreaker sendRequest ''operation'' (world0\<lparr>now := 60000\<rparr>)"

definition secondTrial :: "(js_error + unit) \<times> CircuitBreaker \<times> world" where
  "secondTrial =
     execute_begin (fst (snd firstTrial)) sendRequest ''operation'' (snd (snd firstTrial))"

text \<open>
  An environment, endpoints that issue a token in 200 ms advertising a lifetime of
  60 s, three callers that enter \<open>getAccessToken\<close> before the refresh settles, and
  the world once it has settled.
\<close>

definition sampleEnvironment :: WorkdayEnvironment where
  "sampleEnvironment =
     \<lparr> name = ''sandbox'', tokenUrl = ''https://example.test/token'',
       apiUrl = ''https://example.test/soap'', clientId = ''client'',
       clientSecret = ''secret'', refreshToken = ''refresh'' \<rparr>"

definition tokenIssuer :: remote where
  "tokenIssuer =
     \<lparr> tokenServer = (\<lambda>w environment.
         (Inr \<lparr> access_token = ''token-1'', token_type = ''Bearer'', expires_in = 60,
                refresh_token = None, scope = ''staffing'' \<rparr>, 200)),
       soapServer = (\<lambda>w url envelope token. (Inl badRequest, 50)) \<rparr>"



text \<open>
  A token endpoint that refuses the refresh token with status 401 after 20 ms, the
  world once the refresh that a first caller started at time 0 has failed, and that
  world at time 70, when another caller enters \<open>getAccessToken\<close>.
\<close>

definition unauthorized :: js_error where
  "unauthorized = JsError None (Some 401) ''AxiosError: Request failed with status code 401''"

definition tokenRefuser :: remote where
  "tokenRefuser = tokenIssuer\<lparr>tokenServer := (\<lambda>w environment. (Inl unauthorized, 20))\<rparr>"

definition afterFailedRefresh :: world where
  "afterFailedRefresh =
     refresh_settle tokenRefuser sampleEnvironment 0
       (snd (getAccessToken_enter sampleEnvironment world0))"

definition lateCaller :: world where
  "lateCaller = afterFailedRefresh\<lparr>now := 70\<rparr>"

text \<open>
  An API service with a token at hand whose SOAP endpoint rejects every request with
  status 400, and a document.
\<close>

definition failingApi :: WorkdayApiService where
  "failingApi =
     \<lparr> environment = sampleEnvironment,
       getAccessToken = (\<lambda>w. (Inr ''token-1'', w)),
       buildGetWorkersRequest = (\<lambda>employeeId. Inr (''<Get_Workers_Request>'' @ employeeId)),
       buildPutWorkerDocumentRequest =
         (\<lambda>document wid. Inr (''<Put_Worker_Document_Request>'' @ wid)),
       endpoints = tokenIssuer \<rparr>"

definition sampleDocument :: WorkerDocument where
  "sampleDocument =
     \<lparr> doc_employeeId = ''12345'', doc_filename = ''12345-contract.pdf'',
       categoryWid = ''7166a581648910019e415635dd8e0000'', fileContent = ''JVBERi0='',
       mimeType = ''application/pdf'' \<rparr>"

text \<open>The same service with an endpoint that answers every request with status 503.\<close>

definition serviceUnavailable :: js_error where
  "serviceUnavailable =
     JsError None (Some 503) ''AxiosError: Request failed with status code 503''"

definition unavailableApi :: WorkdayApiService where
  "unavailableApi =
     failingApi\<lparr>endpoints :=
        tokenIssuer\<lparr>soapServer := (\<lambda>w url envelope token. (Inl serviceUnavailable, 50))\<rparr>\<rparr>"

text \<open>The world after five failed validations in a row.\<close>

definition afterFiveFailures :: world where
  "afterFiveFailures = repeatValidation 5 failingApi ''12345'' world0"

text \<open>
  A configuration with the default values, a directory of twelve files whose names
  do not follow the naming pattern, endpoints that find every worker and accept every
  document, and an orchestrator whose user declines.
\<close>

definition sampleConfig :: AppConfig where
  "sampleConfig =
     \<lparr> maxConcurrentUploads = 5, maxFileSizeMB = 25, inputDir = ''input'',
       processedDir = ''processed'', failedDir = ''failed'', logLevel = ''info'' \<rparr>"

definition sampleDisk :: disk where
  "sampleDisk =
     \<lparr> readdir = (\<lambda>w dir. Inr [''a'', ''b'', ''c'', ''d'', ''e'', ''f'', ''g'', ''h'',
                                 ''i'', ''j'', ''k'', ''l'']),
       stat = (\<lambda>w filePath. Inr 1024),
       readFile = (\<lambda>w filePath. Inr ''JVBERi0=''),
       ensureDirectoryExists = (\<lambda>w dir. None),
       rename = (\<lambda>w source destination. None),
       writeFile = (\<lambda>w filePath. None) \<rparr>"

definition workdayServer :: remote where
  \<open>workdayServer =
     tokenIssuer\<lparr>soapServer := (\<lambda>w url envelope token.
        (Inr (''<wd:ID wd:type="WID">81f5373f398e4550a111264703c3f689</wd:ID>''
                @ ''<Put_Worker_Document_Response/>''), 50))\<rparr>\<close>

definition workingApi :: WorkdayApiService where
  "workingApi = failingApi\<lparr>endpoints := workdayServer\<rparr>"

definition sampleOrchestrator :: UploadOrchestrator where
  "sampleOrchestrator = newUploadOrchestrator sampleConfig sampleDisk workingApi (\<lambda>w. False)"

text \<open>The orchestrator with a cache entry written at time 0.\<close>

definition cachedOrchestrator :: UploadOrchestrator where
  "cachedOrchestrator =
     addToWorkerCache sampleOrchestrator ''12345'' ''81f5373f398e4550a111264703c3f689''
       world0"

definition badPaths :: "string list" where
  "badPaths = map (joinPath ''input'')
     [''a'', ''b'', ''c'', ''d'', ''e'', ''f'', ''g'', ''h'', ''i'', ''j'', ''k'', ''l'']"

definition patternMessage :: string where
  "patternMessage = ''Filename must follow pattern: '' @ ''{employeeId}-{description}.{extension}''"

definition badResult :: "char \<Rightarrow> UploadResult" where
  "badResult c = \<lparr> ur_filename = [c], ur_employeeId = [], success = False,
                    ur_error = Some patternMessage, duration = 0 \<rparr>"

text \<open>
  The run over the twelve files, in batches of five. In the first batch the awaited
  calls settle task after task, in the second the moves to the failed directory
  settle in the reverse order; the third batch has no schedule.
\<close>

definition sampleSchedules :: "nat list list" where
  "sampleSchedules = [[0, 1, 2, 3, 4, 0, 1, 2, 3, 4], [0, 1, 2, 3, 4, 4, 3, 2, 1, 0]]"

definition firstBatch :: "UploadResult list \<times> UploadOrchestrator \<times> world" where
  "firstBatch = processChunk sampleOrchestrator (take 5 badPaths)
                  ''7166a581648910019e415635dd8e0000'' [0, 1, 2, 3, 4, 0, 1, 2, 3, 4] world0"

definition secondBatch :: "UploadResult list \<times> UploadOrchestrator \<times> world" where
  "secondBatch = processChunk (fst (snd firstBatch)) (take 5 (drop 5 badPaths))
                   ''7166a581648910019e415635dd8e0000'' [0, 1, 2, 3, 4, 4, 3, 2, 1, 0]
                   (snd (snd firstBatch))"

definition declinedRun ::
  "((js_error + UploadStats) \<times> UploadOrchestrator \<times> world \<times> batch_boundary list) option"
  where
  "declinedRun = uploadAllDocuments sampleOrchestrator ''7166a581648910019e415635dd8e0000''
                   sampleSchedules world0"

text \<open>Of a run that returned: total, successful, failed, number of results, prompts shown.\<close>

definition runSummary ::
  "((js_error + UploadStats) \<times> UploadOrchestrator \<times> world \<times> batch_boundary list) option
     \<Rightarrow> (nat \<times> nat \<times> nat \<times> nat \<times> nat) option" where
  "runSummary run =
     (case run of
        Some (Inr stats, orch, w, boundaries) \<Rightarrow>
          Some (totalFiles stats, successful stats, failed stats, length (results stats),
                prompts w)
      | Some (Inl err, orch, w, boundaries) \<Rightarrow> None
      | None \<Rightarrow> None)"

text \<open>
  A directory with one well-formed file and eleven others, read in batches of eleven
  by an orchestrator whose user declines, and two orders of settlement for the first
  batch: the upload of the well-formed file is done before the other files have
  failed, or after.
\<close>

definition mixedDisk :: disk where
  "mixedDisk =
     sampleDisk\<lparr>readdir := (\<lambda>w dir. Inr [''12345-contract.pdf'', ''a'', ''b'', ''c'', ''d'',
                                           ''e'', ''f'', ''g'', ''h'', ''i'', ''j'', ''k''])\<rparr>"

definition mixedOrchestrator :: UploadOrchestrator where
  "mixedOrchestrator =
     newUploadOrchestrator (sampleConfig\<lparr>maxConcurrentUploads := 11\<rparr>) mixedDisk workingApi
       (\<lambda>w. False)"

definition uploadFirst :: "nat list" where
  "uploadFirst = [0, 0, 0, 0, 1, 2, 3, 4, 5, 6, 7, 8, 9, 10, 1, 2, 3, 4, 5, 6, 7, 8, 9, 10]"

definition uploadLast :: "nat list" where
  "uploadLast = [1, 2, 3, 4, 5, 6, 7, 8, 9, 10, 1, 2, 3, 4, 5, 6, 7, 8, 9, 10, 0, 0, 0, 0]"

text \<open>
  What \<open>FileProcessor.processFile\<close> makes of a well-formed file of worker 12345
  under \<open>input/\<close>, and the result of its upload after a given time.
\<close>

definition sampleFile :: "string \<Rightarrow> ProcessedFile" where
  "sampleFile filePath =
     \<lparr> pf_employeeId = ''12345'', pf_filename = drop 6 filePath, fullPath = filePath,
       pf_fileContent = ''JVBERi0='', pf_size = 1024, pf_isValid = True, pf_error = None \<rparr>"

definition goodResult :: "string \<Rightarrow> int \<Rightarrow> UploadResult" where
  "goodResult filePath elapsed =
     \<lparr> ur_filename = drop 6 filePath, ur_employeeId = ''12345'', success = True,
       ur_error = None, duration = elapsed \<rparr>"

text \<open>
  A directory with two files of the same worker, and its orchestrator.
\<close>

definition pairDisk :: disk where
  "pairDisk =
     sampleDisk\<lparr>readdir := (\<lambda>w dir. Inr [''12345-contract.pdf'', ''12345-payslip.pdf''])\<rparr>"

definition pairOrchestrator :: UploadOrchestrator where
  "pairOrchestrator = newUploadOrchestrator sampleConfig pairDisk workingApi (\<lambda>w. False)"

text \<open>The boundaries and the results of the run that the user declined.\<close>

definition declinedBoundaries :: "batch_boundary list" where
  "declinedBoundaries =
     (case declinedRun of Some (outcome, orch, w, boundaries) \<Rightarrow> boundaries | None \<Rightarrow> [])"

definition declinedResults :: "UploadResult list" where
  "declinedResults =
     (case declinedRun of
        Some (Inr stats, orch, w, boundaries) \<Rightarrow> results stats
      | Some (Inl err, orch, w, boundaries) \<Rightarrow> []
      | None \<Rightarrow> [])"

section \<open>Properties of the numbers\<close>

lemma roundEven_int: "roundEven (of_int k) = k"
  by (simp add: roundEven_def)


lemma floor_log2_bound:
  assumes "1 \<le> x" and "x < 2 ^ n"
  shows "0 \<le> \<lfloor>log 2 x\<rfloor>" and "\<lfloor>log 2 x\<rfloor> < int n"
proof -
  from assms(1) have "0 \<le> log 2 x" by simp
  then show "0 \<le> \<lfloor>log 2 x\<rfloor>" by simp
  from assms have "log 2 x < log 2 (2 ^ n)" by (subst log_less_cancel_iff) simp_all
  then have "log 2 x < real n" by simp
  then show "\<lfloor>log 2 x\<rfloor> < int n" by (simp add: floor_less_iff)
qed

text \<open>An integer below \<open>2^53\<close> in absolute value is a double.\<close>

lemma roundDouble_int:
  assumes "\<bar>k\<bar> < 2 ^ 53"
  shows "roundDouble (of_int k) = Num (of_int k)"
proof (cases "k = 0")
  case True
  then show ?thesis by (simp add: roundDouble_def)
next
  case False
  define x :: real where "x = of_int k"
  define e where "e = max \<lfloor>log 2 \<bar>x\<bar>\<rfloor> (- 1022)"
  have x1: "1 \<le> \<bar>x\<bar>" using False by (simp add: x_def)
  have x2: "\<bar>x\<bar> < 2 ^ 53" using assms unfolding x_def
    by (metis of_int_abs of_int_less_numeral_power_cancel_iff)
  from floor_log2_bound [OF x1 x2] have e: "0 \<le> e" "e < 53" by (simp_all add: e_def)
  define j where "j = nat (52 - e)"
  have ulp: "(2::real) powr (of_int e - 52) = 1 / 2 ^ j"
  proof -
    have "of_int e - 52 = - real j" using e by (simp add: j_def)
    then show ?thesis by (simp add: powr_minus powr_realpow divide_inverse)
  qed
  have q: "x / (1 / 2 ^ j) = of_int (k * 2 ^ j)" by (simp add: x_def)
  have y: "of_int (roundEven (x / (1 / 2 ^ j))) * (1 / 2 ^ j) = x"
    unfolding q roundEven_int by (simp add: x_def)
  have small: "\<not> x \<ge> 2 ^ 1024" "\<not> x \<le> - (2 ^ 1024)"
  proof -
    have "(2::real) ^ 53 \<le> 2 ^ 1024" by (rule power_increasing) simp_all
    with x2 show "\<not> x \<ge> 2 ^ 1024" "\<not> x \<le> - (2 ^ 1024)" by linarith+
  qed
  have nz: "x \<noteq> 0" using False by (simp add: x_def)
  show ?thesis
    using nz small
    unfolding x_def [symmetric] roundDouble_def Let_def e_def [symmetric] ulp y
    by simp
qed

lemma roundDouble_numeral [simp]:
  "numeral n < (2::int) ^ 53 \<Longrightarrow> roundDouble (numeral n) = Num (numeral n)"
  using roundDouble_int [of "numeral n"] by simp



section \<open>Properties of the retry loop\<close>

lemma loop_over:
  "\<not> a \<le> maxAttempts opts \<Longrightarrow> withRetry_loop opts operation a le w = (Inl le, w, [])"
  by (subst withRetry_loop.simps) simp

lemma loop_success:
  "a \<le> maxAttempts opts \<Longrightarrow> operation w = (Inr v, w1) \<Longrightarrow>
   withRetry_loop opts operation a le w = (Inr v, w1, [Attempt a None])"
  by (subst withRetry_loop.simps) simp

lemma loop_stop:
  "a \<le> maxAttempts opts \<Longrightarrow> operation w = (Inl e, w1) \<Longrightarrow>
   a \<ge> maxAttempts opts \<or> nonRetryable opts e \<Longrightarrow>
   withRetry_loop opts operation a le w = (Inl e, w1, [Attempt a (Some e)])"
  by (subst withRetry_loop.simps) auto

lemma loop_retry:
  "a < maxAttempts opts \<Longrightarrow> operation w = (Inl e, w1) \<Longrightarrow> \<not> nonRetryable opts e \<Longrightarrow>
   withRetry_loop opts operation (a + 1) e (sleep (backoffDelay opts a w1) w1) = (r, w2, events) \<Longrightarrow>
   withRetry_loop opts operation a le w =
     (r, w2, Attempt a (Some e) # Sleep (timerDelay (backoffDelay opts a w1)) # events)"
  by (subst withRetry_loop.simps) (simp add: Let_def sleep_def)

lemma split_after_two:
  assumes "pre @ x # post = a # b # rest" and "x \<noteq> a" and "x \<noteq> b"
  shows "\<exists>pre2. rest = pre2 @ x # post"
proof (cases pre)
  case Nil
  with assms show ?thesis by simp
next
  case outer: (Cons p ps)
  show ?thesis
  proof (cases ps)
    case Nil
    with outer assms show ?thesis by simp
  next
    case (Cons q qs)
    with outer assms show ?thesis by auto
  qed
qed

lemma loop_fatal_is_last:
  "withRetry_loop opts operation a le w = (r, w', events) \<Longrightarrow>
   events = pre @ Attempt n (Some e) # post \<Longrightarrow> nonRetryable opts e \<Longrightarrow>
   post = [] \<and> r = Inl e"
proof (induction opts operation a le w arbitrary: r w' events pre
        rule: withRetry_loop.induct)
  case (1 opts operation attempt lastError w)
  note run = "1.prems"(1) and ev = "1.prems"(2) and fatal = "1.prems"(3)
  show ?case
  proof (cases "attempt \<le> maxAttempts opts")
    case False
    from run ev show ?thesis unfolding loop_over [OF False] by simp
  next
    case True
    obtain res w1 where op: "operation w = (res, w1)" by (cases "operation w")
    show ?thesis
    proof (cases res)
      case (Inr v)
      from run ev show ?thesis
        unfolding loop_success [where operation = operation and w = w, OF True op [unfolded Inr]]
        by (auto simp: Cons_eq_append_conv)
    next
      case (Inl error)
      show ?thesis
      proof (cases "attempt \<ge> maxAttempts opts \<or> nonRetryable opts error")
        case stop: True
        from run ev show ?thesis
          unfolding loop_stop [where operation = operation and w = w, OF True op [unfolded Inl] stop]
          by (auto simp: Cons_eq_append_conv)
      next
        case False
        then have lt: "attempt < maxAttempts opts" and retry: "\<not> nonRetryable opts error"
          by simp_all
        obtain r2 w2 ev2 where rec: "withRetry_loop opts operation (attempt + 1) error
               (sleep (backoffDelay opts attempt w1) w1) = (r2, w2, ev2)"
          using prod_cases3 by blast
        from run have res: "r = r2"
            "events = Attempt attempt (Some error) # Sleep (timerDelay (backoffDelay opts attempt w1)) # ev2"
          unfolding loop_retry [where operation = operation and w = w, OF lt op [unfolded Inl] retry rec] by simp_all
        from retry fatal have "Attempt n (Some e) \<noteq> Attempt attempt (Some error)"
          by auto
        with ev [unfolded res(2), symmetric]
        obtain pre2 where "ev2 = pre2 @ Attempt n (Some e) # post"
          using split_after_two [of pre "Attempt n (Some e)" post] by blast
        from "1.IH" [OF True op [symmetric] Inl _ _ refl refl rec this fatal] False res(1)
        show ?thesis by simp
      qed
    qed
  qed
qed

lemma loop_failure_cause:
  "withRetry_loop opts operation a le w = (r, w', events) \<Longrightarrow> a \<le> maxAttempts opts \<Longrightarrow>
   r = Inl e \<Longrightarrow>
   \<exists>k. events \<noteq> [] \<and> last events = Attempt k (Some e) \<and> a \<le> k \<and>
       (k = maxAttempts opts \<or> nonRetryable opts e)"
proof (induction opts operation a le w arbitrary: r w' events
        rule: withRetry_loop.induct)
  case (1 opts operation attempt lastError w)
  note run = "1.prems"(1) and le = "1.prems"(2) and fail = "1.prems"(3)
  obtain res w1 where op: "operation w = (res, w1)" by (cases "operation w")
  show ?case
  proof (cases res)
    case (Inr v)
    from run fail show ?thesis
      unfolding loop_success [where operation = operation and w = w, OF le op [unfolded Inr]] by simp
  next
    case (Inl error)
    show ?thesis
    proof (cases "attempt \<ge> maxAttempts opts \<or> nonRetryable opts error")
      case stop: True
      from run fail le stop show ?thesis
        unfolding loop_stop [where operation = operation and w = w, OF le op [unfolded Inl] stop] by auto
    next
      case False
      then have lt: "attempt < maxAttempts opts" and retry: "\<not> nonRetryable opts error"
        by simp_all
      obtain r2 w2 ev2 where rec: "withRetry_loop opts operation (attempt + 1) error
             (sleep (backoffDelay opts attempt w1) w1) = (r2, w2, ev2)"
        using prod_cases3 by blast
      from run have res: "r = r2"
          "events = Attempt attempt (Some error) # Sleep (timerDelay (backoffDelay opts attempt w1)) # ev2"
        unfolding loop_retry [where operation = operation and w = w, OF lt op [unfolded Inl] retry rec] by simp_all
      from lt have lt': "attempt + 1 \<le> maxAttempts opts" by simp
      from "1.IH" [OF le op [symmetric] Inl _ _ refl refl rec lt'] False res(1) fail
      obtain k where "ev2 \<noteq> []" "last ev2 = Attempt k (Some e)" "attempt + 1 \<le> k"
        "k = maxAttempts opts \<or> nonRetryable opts e" by auto
      with res(2) show ?thesis by auto
    qed
  qed
qed












text \<open>
  C5 as stated fails where the timer does not take the delay: with \<open>baseDelay\<close>
  3000000000 and \<open>maxDelay\<close> 4000000000 the delay before attempt 2 is
  \<open>min (3000000000 * 2 ^ 0) 4000000000 = 3000000000\<close>, which is above \<open>2^31 - 1\<close>, and
  the wait lasts 1 ms.
\<close>

theorem backoff_wait_clamped:
  "sleptDelays (snd (snd (withRetry alwaysReset
      (noOptions\<lparr>p_maxAttempts := Some 2, p_baseDelay := Some (Num 3000000000),
                 p_maxDelay := Some (Num 4000000000)\<rparr>) world0))) = [1]
   \<and> now (fst (snd (withRetry alwaysReset
      (noOptions\<lparr>p_maxAttempts := Some 2, p_baseDelay := Some (Num 3000000000),
                 p_maxDelay := Some (Num 4000000000)\<rparr>) world0))) = 1
   \<and> min (3000000000 * 2 ^ nat (1 - 1)) 4000000000 = (3000000000::real)"
  by (simp add: withRetry_def withRetry_loop.simps mergeOptions_def noOptions_def
        defaultRetryOptions_def alwaysReset_def nonRetryable_def defaultShouldRetry_def
        connectionReset_def backoffDelay_def Math_pow_def sleep_def timerDelay_def
        world0_def Let_def)

text \<open>
  C6. In every run of \<open>withRetry\<close>, an attempt that fails with an error the
  policy's \<open>shouldRetry\<close> classifies as non-retryable is the last event of the run:
  the operation is not invoked again, no backoff delay is slept (whatever is left of
  the attempt budget), and that error is what \<open>withRetry\<close> throws. When at least one
  attempt is allowed and \<open>withRetry\<close> throws, it throws the error of the last
  attempt, and that attempt was the last allowed one or its error was non-retryable.
\<close>

theorem withRetry_nonretryable_rethrown:
  assumes "withRetry operation options w = (r, w', events)"
  shows "(\<forall>pre n e post.
            events = pre @ Attempt n (Some e) # post \<and> nonRetryable (mergeOptions options) e
              \<longrightarrow> post = [] \<and> r = Inl e)
       \<and> (\<forall>e. 1 \<le> maxAttempts (mergeOptions options) \<and> r = Inl e \<longrightarrow>
            (\<exists>k. events \<noteq> [] \<and> last events = Attempt k (Some e) \<and>
                 (k = maxAttempts (mergeOptions options)
                    \<or> nonRetryable (mergeOptions options) e)))"
proof (intro conjI allI impI)
  fix pre n e post
  assume "events = pre @ Attempt n (Some e) # post \<and> nonRetryable (mergeOptions options) e"
  with assms show "post = []" and "r = Inl e"
    unfolding withRetry_def using loop_fatal_is_last by blast+
next
  fix e
  assume "1 \<le> maxAttempts (mergeOptions options) \<and> r = Inl e"
  with assms show "\<exists>k. events \<noteq> [] \<and> last events = Attempt k (Some e) \<and>
       (k = maxAttempts (mergeOptions options) \<or> nonRetryable (mergeOptions options) e)"
    unfolding withRetry_def using loop_failure_cause by blast
qed

theorem withRetry_nonretryable_rethrown_witness:
  "withRetry alwaysRejected noOptions world0
     = (Inl badRequest, world0\<lparr>soapCalls := 1\<rparr>, [Attempt 1 (Some badRequest)])
   \<and> nonRetryable (mergeOptions noOptions) badRequest
   \<and> 1 \<le> maxAttempts (mergeOptions noOptions)
   \<and> last [Attempt 1 (Some badRequest)] = Attempt 1 (Some badRequest)"
proof -
  have run: "withRetry alwaysRejected noOptions world0
     = (Inl badRequest, world0\<lparr>soapCalls := 1\<rparr>, [Attempt 1 (Some badRequest)])"
    by (simp add: withRetry_def withRetry_loop.simps mergeOptions_def noOptions_def
          defaultRetryOptions_def alwaysRejected_def nonRetryable_def defaultShouldRetry_def
          badRequest_def world0_def)
  have fatal: "nonRetryable (mergeOptions noOptions) badRequest"
    by (simp add: mergeOptions_def noOptions_def defaultRetryOptions_def nonRetryable_def
          defaultShouldRetry_def badRequest_def)
  have budget: "1 \<le> maxAttempts (mergeOptions noOptions)"
    by (simp add: mergeOptions_def noOptions_def defaultRetryOptions_def)
  from withRetry_nonretryable_rethrown [OF run] fatal budget run show ?thesis by simp
qed

section \<open>Properties of the circuit breaker\<close>

lemma settled_new: "settled (newCircuitBreaker T t)"
  by (simp add: settled_def newCircuitBreaker_def)

lemma execute_fields:
  "threshold (fst (snd (execute cb operation operationName w))) = threshold cb"
  "timeout (fst (snd (execute cb operation operationName w))) = timeout cb"
  by (auto simp: execute_def execute_enter_def execute_settle_def onSuccess_def onFailure_def
        Let_def split: prod.splits sum.splits)

lemma settled_execute: "settled cb \<Longrightarrow> settled (fst (snd (execute cb operation operationName w)))"
  by (auto simp: settled_def execute_def execute_enter_def execute_settle_def onSuccess_def
        onFailure_def Let_def split: prod.splits sum.splits)

lemma settled_executeSeq: "settled cb \<Longrightarrow> settled (executeSeq cb calls)"
  by (induction calls arbitrary: cb) (auto simp: settled_execute)

lemma threshold_executeSeq: "threshold (executeSeq cb calls) = threshold cb"
  by (induction calls arbitrary: cb) (auto simp: execute_fields)

lemma execute_failing_open:
  "settled cb \<Longrightarrow> state cb = OPEN \<Longrightarrow> isl (fst (operation w)) \<Longrightarrow>
   state (fst (snd (execute cb operation operationName w))) = OPEN"
  by (auto simp: settled_def execute_def execute_enter_def execute_settle_def onSuccess_def
        onFailure_def Let_def isl_def split: prod.splits sum.splits)

lemma execute_failing_closed:
  "settled cb \<Longrightarrow> state cb = CLOSED \<Longrightarrow> isl (fst (operation w)) \<Longrightarrow>
   failures (fst (snd (execute cb operation operationName w))) = failures cb + 1 \<and>
   state (fst (snd (execute cb operation operationName w))) =
     (if threshold cb \<le> failures cb + 1 then OPEN else CLOSED)"
  by (auto simp: settled_def execute_def execute_enter_def execute_settle_def onSuccess_def
        onFailure_def Let_def isl_def split: prod.splits sum.splits)

lemma failing_seq:
  "settled cb \<Longrightarrow> \<forall>(operation, w) \<in> set calls. isl (fst (operation w)) \<Longrightarrow>
   state (executeSeq cb calls) = OPEN \<or>
   (state (executeSeq cb calls) = CLOSED \<and> state cb = CLOSED \<and>
    failures (executeSeq cb calls) = failures cb + int (length calls) \<and>
    (calls \<noteq> [] \<longrightarrow> failures (executeSeq cb calls) < threshold cb))"
proof (induction calls arbitrary: cb)
  case Nil
  then show ?case by (cases "state cb") (auto simp: settled_def)
next
  case (Cons c calls)
  obtain operation w where c: "c = (operation, w)" by (cases c)
  let ?cb1 = "fst (snd (execute cb operation ''operation'' w))"
  have s1: "settled ?cb1" using Cons.prems(1) by (rule settled_execute)
  have f: "isl (fst (operation w))" using Cons.prems(2) c by simp
  have rest: "\<forall>(operation, w) \<in> set calls. isl (fst (operation w))" using Cons.prems(2) by simp
  note ih = Cons.IH [OF s1 rest]
  show ?case
  proof (cases "state cb = OPEN")
    case True
    then have "state ?cb1 = OPEN" using execute_failing_open [where operation = operation and w = w, OF Cons.prems(1) True f] by simp
    with ih show ?thesis by (simp add: c)
  next
    case False
    with Cons.prems(1) have closed: "state cb = CLOSED"
      by (cases "state cb") (auto simp: settled_def)
    note step = execute_failing_closed [where operation = operation and w = w
        and operationName = "''operation''", OF Cons.prems(1) closed f]
    from ih step closed show ?thesis
      by (auto simp: c execute_fields split: if_splits)
  qed
qed


lemma failing_seq_open:
  assumes "settled cb" and "calls \<noteq> []" and "threshold cb \<le> int (length calls)"
    and "\<forall>(operation, w) \<in> set calls. isl (fst (operation w))"
  shows "state (executeSeq cb calls) = OPEN"
  using failing_seq [OF assms(1) assms(4)] assms(1-3) by (auto simp: settled_def)


lemma execute_open_rejects:
  "state cb = OPEN \<Longrightarrow> now w - lastFailureTime cb < timeout cb \<Longrightarrow>
   execute cb operation operationName w = (Inl (circuitOpenError operationName), cb, w)"
  by (simp add: execute_def execute_enter_def)

lemma execute_trial_success:
  "state cb = OPEN \<Longrightarrow> \<not> now w - lastFailureTime cb < timeout cb \<Longrightarrow>
   operation w = (Inr v, w1) \<Longrightarrow>
   execute cb operation operationName w = (Inr v, cb\<lparr>failures := 0, state := CLOSED\<rparr>, w1)"
  by (simp add: execute_def execute_enter_def execute_settle_def onSuccess_def)

lemma execute_trial_failure:
  "state cb = OPEN \<Longrightarrow> threshold cb \<le> failures cb \<Longrightarrow>
   \<not> now w - lastFailureTime cb < timeout cb \<Longrightarrow> operation w = (Inl e, w1) \<Longrightarrow>
   execute cb operation operationName w =
     (Inl e, cb\<lparr>failures := failures cb + 1, lastFailureTime := now w1, state := OPEN\<rparr>, w1)"
  by (simp add: execute_def execute_enter_def execute_settle_def onFailure_def)

lemma timeout_executeSeq: "timeout (executeSeq cb calls) = timeout cb"
  by (induction calls arbitrary: cb) (auto simp: execute_fields)

lemma tripped: "trippedBreaker = \<lparr> failures = 5, lastFailureTime = 0, state = OPEN,
       threshold = 5, timeout = 60000 \<rparr>"
  by (simp add: trippedBreaker_def newCircuitBreaker_def execute_def execute_enter_def
        execute_settle_def onFailure_def alwaysRejected_def world0_def numeral_eq_Suc)

text \<open>
  C4, as the code has it. Let \<open>cb\<close> be a breaker with threshold \<open>T\<close> and cool-down
  \<open>t\<close> after any history of calls that did not overlap. After any further
  non-empty sequence of at least \<open>T\<close> calls whose operation fails, the breaker is
  OPEN. While it is OPEN and less than \<open>t\<close> has elapsed since the last failure,
  \<open>execute\<close> throws and leaves the world as it is, whatever the operation. Once at
  least \<open>t\<close> has elapsed, the call moves the breaker to HALF_OPEN and runs the
  operation: its success resets the failure counter and closes the breaker, its
  failure returns the breaker to OPEN with the new failure time. A call that does
  not overlap another never leaves the breaker HALF_OPEN, so that trial is the only
  one.
\<close>

theorem breaker_without_overlap:
  assumes cb: "cb = executeSeq (newCircuitBreaker T t) history"
  shows "(calls \<noteq> [] \<and> T \<le> int (length calls) \<and>
            (\<forall>(operation, w) \<in> set calls. isl (fst (operation w)))
          \<longrightarrow> state (executeSeq cb calls) = OPEN)
       \<and> (state cb = OPEN \<and> now w - lastFailureTime cb < t
          \<longrightarrow> execute cb operation operationName w = (Inl (circuitOpenError operationName), cb, w))
       \<and> (state cb = OPEN \<and> t \<le> now w - lastFailureTime cb
          \<longrightarrow> execute_enter cb operationName w = (Inr (), cb\<lparr>state := HALF_OPEN\<rparr>)
            \<and> (\<forall>v w1. operation w = (Inr v, w1) \<longrightarrow>
                  execute cb operation operationName w
                    = (Inr v, cb\<lparr>failures := 0, state := CLOSED\<rparr>, w1))
            \<and> (\<forall>e w1. operation w = (Inl e, w1) \<longrightarrow>
                  execute cb operation operationName w
                    = (Inl e, cb\<lparr>failures := failures cb + 1, lastFailureTime := now w1,
                                  state := OPEN\<rparr>, w1)))
       \<and> state (fst (snd (execute cb operation operationName w))) \<noteq> HALF_OPEN"
proof -
  have inv: "settled cb" unfolding cb by (rule settled_executeSeq) (rule settled_new)
  have T: "threshold cb = T" unfolding cb by (simp add: threshold_executeSeq newCircuitBreaker_def)
  have t: "timeout cb = t" unfolding cb by (simp add: timeout_executeSeq newCircuitBreaker_def)
  have a: "calls \<noteq> [] \<and> T \<le> int (length calls) \<and>
            (\<forall>(operation, w) \<in> set calls. isl (fst (operation w)))
          \<longrightarrow> state (executeSeq cb calls) = OPEN"
    using failing_seq_open [OF inv] T by blast
  have b: "state cb = OPEN \<and> now w - lastFailureTime cb < t
          \<longrightarrow> execute cb operation operationName w = (Inl (circuitOpenError operationName), cb, w)"
    using t by (auto simp: execute_open_rejects)
  have c1: "state cb = OPEN \<and> t \<le> now w - lastFailureTime cb
          \<longrightarrow> execute_enter cb operationName w = (Inr (), cb\<lparr>state := HALF_OPEN\<rparr>)"
    using t by (simp add: execute_enter_def)
  have c2: "state cb = OPEN \<and> t \<le> now w - lastFailureTime cb
          \<longrightarrow> (\<forall>v w1. operation w = (Inr v, w1) \<longrightarrow>
                  execute cb operation operationName w
                    = (Inr v, cb\<lparr>failures := 0, state := CLOSED\<rparr>, w1))"
    using t by (auto simp: execute_trial_success)
  have c3: "state cb = OPEN \<and> t \<le> now w - lastFailureTime cb
          \<longrightarrow> (\<forall>e w1. operation w = (Inl e, w1) \<longrightarrow>
                  execute cb operation operationName w
                    = (Inl e, cb\<lparr>failures := failures cb + 1, lastFailureTime := now w1,
                                  state := OPEN\<rparr>, w1))"
    using t inv by (auto simp: execute_trial_failure settled_def)
  have d: "state (fst (snd (execute cb operation operationName w))) \<noteq> HALF_OPEN"
    using settled_execute [OF inv, of operation operationName w] by (simp add: settled_def)
  from a b c1 c2 c3 d show ?thesis by blast
qed

theorem breaker_without_overlap_witness:
  "state (executeSeq (newCircuitBreaker 5 60000) (replicate 5 (alwaysRejected, world0))) = OPEN
   \<and> execute trippedBreaker alwaysOk ''operation'' (world0\<lparr>now := 59999\<rparr>)
        = (Inl (circuitOpenError ''operation''), trippedBreaker, world0\<lparr>now := 59999\<rparr>)
   \<and> execute trippedBreaker alwaysOk ''operation'' (world0\<lparr>now := 60000\<rparr>)
        = (Inr (), trippedBreaker\<lparr>failures := 0, state := CLOSED\<rparr>,
           world0\<lparr>now := 60000, soapCalls := 1\<rparr>)
   \<and> execute trippedBreaker alwaysRejected ''operation'' (world0\<lparr>now := 60000\<rparr>)
        = (Inl badRequest,
           trippedBreaker\<lparr>failures := 6, lastFailureTime := 60000, state := OPEN\<rparr>,
           world0\<lparr>now := 60000, soapCalls := 1\<rparr>)"
proof -
  have fresh: "executeSeq (newCircuitBreaker 5 60000) [] = newCircuitBreaker 5 60000"
    by simp
  note a = breaker_without_overlap [OF fresh [symmetric],
      where calls = "replicate 5 (alwaysRejected, world0)" and w = world0
        and operation = alwaysOk and operationName = "''operation''"]
  note b = breaker_without_overlap [OF trippedBreaker_def,
      where w = "world0\<lparr>now := 59999\<rparr>" and operation = alwaysOk and operationName = "''operation''"
        and calls = "[]"]
  note c = breaker_without_overlap [OF trippedBreaker_def,
      where w = "world0\<lparr>now := 60000\<rparr>" and operation = alwaysOk and operationName = "''operation''"
        and calls = "[]"]
  note d = breaker_without_overlap [OF trippedBreaker_def,
      where w = "world0\<lparr>now := 60000\<rparr>" and operation = alwaysRejected
        and operationName = "''operation''" and calls = "[]"]
  have 1: "state (executeSeq (newCircuitBreaker 5 60000) (replicate 5 (alwaysRejected, world0)))
             = OPEN"
    using a by (simp add: alwaysRejected_def)
  have 2: "execute trippedBreaker alwaysOk ''operation'' (world0\<lparr>now := 59999\<rparr>)
        = (Inl (circuitOpenError ''operation''), trippedBreaker, world0\<lparr>now := 59999\<rparr>)"
    using b by (simp add: tripped)
  have 3: "execute trippedBreaker alwaysOk ''operation'' (world0\<lparr>now := 60000\<rparr>)
        = (Inr (), trippedBreaker\<lparr>failures := 0, state := CLOSED\<rparr>,
           world0\<lparr>now := 60000, soapCalls := 1\<rparr>)"
    using c by (simp add: tripped alwaysOk_def world0_def)
  have 4: "execute trippedBreaker alwaysRejected ''operation'' (world0\<lparr>now := 60000\<rparr>)
        = (Inl badRequest,
           trippedBreaker\<lparr>failures := 6, lastFailureTime := 60000, state := OPEN\<rparr>,
           world0\<lparr>now := 60000, soapCalls := 1\<rparr>)"
    using d by (simp add: tripped alwaysRejected_def world0_def)
  from 1 2 3 4 show ?thesis by simp
qed

text \<open>
  C4 as stated fails where it says that HALF_OPEN allows exactly one trial
  execution: a call that starts while the trial of an earlier call is still pending
  finds the state HALF_OPEN, which \<open>execute\<close> does not check, and invokes the
  operation as well. Here two calls start after the cool-down and both send their
  request.
\<close>

theorem half_open_admits_second_trial:
  "state trippedBreaker = OPEN \<and> fst firstTrial = Inr () \<and>
   state (fst (snd firstTrial)) = HALF_OPEN \<and>
   fst secondTrial = Inr () \<and> soapCalls (snd (snd secondTrial)) = 2"
  by (simp add: secondTrial_def firstTrial_def tripped execute_begin_def execute_enter_def
        sendRequest_def world0_def)

section \<open>Properties of the credential manager\<close>


lemma enter_cached_world:
  "getAccessToken_enter env w = (Cached token, w') \<Longrightarrow> w' = w"
  by (auto simp: getAccessToken_enter_def Let_def split: option.splits prod.splits if_splits)

















lemma enter_not_live:
  "\<not> live env w (now w) \<Longrightarrow>
   (\<exists>p. getAccessToken_enter env w = (Joined p, w)
        \<and> refreshPromises w (name env) = Some p)
   \<or> (fst (getAccessToken_enter env w) = Started (promiseCount w)
        \<and> refreshPromises w (name env) = None
        \<and> promiseCount (snd (getAccessToken_enter env w)) = promiseCount w + 1)"
  by (auto simp: getAccessToken_enter_def live_def Let_def split: option.splits)


























lemma failed_refresh:
  "afterFailedRefresh
     = world0\<lparr>now := 20, tokenCalls := 1, promiseCount := 1,
              promises := (\<lambda>p. Pending)(0 := Rejected oauthFailed),
              refreshPromises := [''sandbox'' \<mapsto> 0], timers := [(120, ''sandbox'')]\<rparr>"
  by (simp add: afterFailedRefresh_def refresh_settle_def doRefresh_def fetchNewToken_def
        withRetry_def withRetry_loop.simps mergeOptions_def noOptions_def
        defaultRetryOptions_def nonRetryable_def defaultShouldRetry_def postTokenRequest_def
        tokenRefuser_def tokenIssuer_def unauthorized_def getAccessToken_enter_def
        sampleEnvironment_def world0_def Let_def)

lemma late_caller_reachable: "oauth_reachable tokenRefuser lateCaller"
proof -
  let ?entered = "snd (getAccessToken_enter sampleEnvironment world0)"
  have "oauth_reachable tokenRefuser world0"
    by (rule at_start) (simp_all add: world0_def)
  then have entered: "oauth_reachable tokenRefuser ?entered" by (rule caller_enters)
  have "refreshPromises ?entered (name sampleEnvironment) = Some 0"
    and "promises ?entered 0 = Pending"
    by (simp_all add: getAccessToken_enter_def sampleEnvironment_def world0_def)
  with entered have "oauth_reachable tokenRefuser afterFailedRefresh"
    unfolding afterFailedRefresh_def by (rule refresh_settles)
  moreover have "oauthState lateCaller = oauthState afterFailedRefresh"
    by (simp add: lateCaller_def oauthState_def)
  ultimately show ?thesis by (rule elsewhere)
qed



text \<open>
  C8 as stated fails where the registered promise has already been rejected: 50 ms
  after a refresh failed, no credential is cached, no timer is due, and a caller
  joins the rejected promise, which has been registered since the first caller
  started it. The caller fails with the error of that refresh; no refresh is
  performed for it, and the token endpoint has still received one request only.
\<close>

theorem joined_refresh_already_failed:
  "oauth_reachable tokenRefuser lateCaller
   \<and> now afterFailedRefresh = 20 \<and> now lateCaller = 70
   \<and> tokenCache lateCaller ''sandbox'' = None
   \<and> \<not> live sampleEnvironment lateCaller (now lateCaller)
   \<and> runTimers lateCaller = lateCaller
   \<and> getAccessToken_enter sampleEnvironment lateCaller = (Joined 0, lateCaller)
   \<and> promises lateCaller 0 = Rejected oauthFailed
   \<and> tokenCalls lateCaller = 1"
  using late_caller_reachable
  by (simp add: lateCaller_def failed_refresh live_def getAccessToken_enter_def runTimers_def
        sampleEnvironment_def world0_def Let_def)

section \<open>Properties of the API service\<close>

lemma loop_requests:
  "a \<le> maxAttempts opts \<Longrightarrow>
   soapCalls w < soapCalls (fst (snd (withRetry_loop opts (makeSOAPRequest api envelope token) a le w)))
   \<and> int (soapCalls (fst (snd (withRetry_loop opts (makeSOAPRequest api envelope token) a le w))))
        \<le> int (soapCalls w) + (maxAttempts opts - a + 1)"
proof (induction opts "makeSOAPRequest api envelope token" a le w rule: withRetry_loop.induct)
  case (1 opts attempt lastError w)
  let ?op = "makeSOAPRequest api envelope token"
  note le = "1.prems"
  obtain res w1 where o: "?op w = (res, w1)" by (cases "?op w")
  then have w1: "soapCalls w1 = soapCalls w + 1"
    by (auto simp: makeSOAPRequest_def split: prod.splits)
  show ?case
  proof (cases res)
    case (Inr v)
    with le o w1 show ?thesis
      by (simp add: loop_success [where operation = ?op and w = w])
  next
    case (Inl err)
    show ?thesis
    proof (cases "attempt \<ge> maxAttempts opts \<or> nonRetryable opts err")
      case stop: True
      with le o Inl w1 show ?thesis
        by (simp add: loop_stop [where operation = ?op and w = w])
    next
      case False
      then have lt: "attempt < maxAttempts opts" and retry: "\<not> nonRetryable opts err"
        by simp_all
      obtain r2 w2 ev2 where rec: "withRetry_loop opts ?op (attempt + 1) err
           (sleep (backoffDelay opts attempt w1) w1) = (r2, w2, ev2)"
        using prod_cases3 by blast
      from lt have lt': "attempt + 1 \<le> maxAttempts opts" by simp
      have "soapCalls (sleep (backoffDelay opts attempt w1) w1) < soapCalls w2
            \<and> int (soapCalls w2) \<le> int (soapCalls (sleep (backoffDelay opts attempt w1) w1))
                 + (maxAttempts opts - (attempt + 1) + 1)"
        using "1.hyps" [OF le o [symmetric] Inl _ _ refl refl lt'] False rec by simp
      with w1 show ?thesis
        by (simp add: loop_retry [where operation = ?op and w = w,
              OF lt o [unfolded Inl] retry rec] sleep_def)
    qed
  qed
qed

lemma request_count:
  "soapCalls w < soapCalls (fst (snd (withRetry (makeSOAPRequest api envelope token)
                                        (noOptions\<lparr>p_maxAttempts := Some 3\<rparr>) w)))
   \<and> soapCalls (fst (snd (withRetry (makeSOAPRequest api envelope token)
                                        (noOptions\<lparr>p_maxAttempts := Some 3\<rparr>) w)))
        \<le> soapCalls w + 3"
  using loop_requests [of 1 "mergeOptions (noOptions\<lparr>p_maxAttempts := Some 3\<rparr>)" w api envelope
      token JsUndefined]
  by (simp add: withRetry_def mergeOptions_def noOptions_def)

lemma loop_attempts_counted:
  "soapCalls (fst (snd (withRetry_loop opts (makeSOAPRequest api envelope token) a le w)))
     = soapCalls w
       + attemptCount (snd (snd (withRetry_loop opts (makeSOAPRequest api envelope token) a le w)))"
proof (induction opts "makeSOAPRequest api envelope token" a le w rule: withRetry_loop.induct)
  case (1 opts attempt lastError w)
  let ?op = "makeSOAPRequest api envelope token"
  show ?case
  proof (cases "attempt \<le> maxAttempts opts")
    case False
    then show ?thesis by (simp add: loop_over)
  next
    case le: True
    obtain res w1 where o: "?op w = (res, w1)" by (cases "?op w")
    then have w1: "soapCalls w1 = soapCalls w + 1"
      by (auto simp: makeSOAPRequest_def split: prod.splits)
    show ?thesis
    proof (cases res)
      case (Inr v)
      with le o w1 show ?thesis
        by (simp add: loop_success [where operation = ?op and w = w])
    next
      case (Inl err)
      show ?thesis
      proof (cases "attempt \<ge> maxAttempts opts \<or> nonRetryable opts err")
        case stop: True
        with le o Inl w1 show ?thesis
          by (simp add: loop_stop [where operation = ?op and w = w])
      next
        case False
        then have lt: "attempt < maxAttempts opts" and retry: "\<not> nonRetryable opts err"
          by simp_all
        obtain r2 w2 ev2 where rec: "withRetry_loop opts ?op (attempt + 1) err
             (sleep (backoffDelay opts attempt w1) w1) = (r2, w2, ev2)"
          using prod_cases3 by blast
        have "soapCalls w2 = soapCalls (sleep (backoffDelay opts attempt w1) w1)
                 + attemptCount ev2"
          using "1.hyps" [OF le o [symmetric] Inl _ _ refl refl] False rec by simp
        with w1 show ?thesis
          by (simp add: loop_retry [where operation = ?op and w = w,
                OF lt o [unfolded Inl] retry rec] sleep_def)
      qed
    qed
  qed
qed

lemma loop_all_retryable:
  "a \<le> maxAttempts opts \<Longrightarrow>
   (\<And>v. \<exists>e t. soapServer (endpoints api) v (apiUrl (environment api))
                               envelope token = (Inl e, t) \<and> \<not> nonRetryable opts e) \<Longrightarrow>
         int (attemptCount (snd (snd (withRetry_loop opts (makeSOAPRequest api envelope token)
                                        a le w))))
           = maxAttempts opts - a + 1"
proof (induction opts "makeSOAPRequest api envelope token" a le w rule: withRetry_loop.induct)
  case (1 opts attempt lastError w)
  let ?op = "makeSOAPRequest api envelope token"
  note le = "1.prems"(1)
  from "1.prems"(2) [of w] obtain err t where
    reply: "soapServer (endpoints api) w (apiUrl (environment api)) envelope token = (Inl err, t)"
    and retry: "\<not> nonRetryable opts err" by blast
  obtain w1 where o: "?op w = (Inl err, w1)"
    using reply by (simp add: makeSOAPRequest_def)
  show ?case
  proof (cases "attempt \<ge> maxAttempts opts")
    case True
    with le o show ?thesis
      by (simp add: loop_stop [where operation = ?op and w = w])
  next
    case False
    then have lt: "attempt < maxAttempts opts" by simp
    then have lt': "attempt + 1 \<le> maxAttempts opts" by simp
    obtain r2 w2 ev2 where rec: "withRetry_loop opts ?op (attempt + 1) err
         (sleep (backoffDelay opts attempt w1) w1) = (r2, w2, ev2)"
      using prod_cases3 by blast
    have "int (attemptCount ev2) = maxAttempts opts - (attempt + 1) + 1"
      using "1.hyps" [OF le o [symmetric] refl _ _ refl refl lt' "1.prems"(2)] False retry rec
      by simp
    then show ?thesis
      by (simp add: loop_retry [where operation = ?op and w = w, OF lt o retry rec])
  qed
qed

lemma retryable_by_default:
  "nonRetryable (mergeOptions (noOptions\<lparr>p_maxAttempts := Some 3\<rparr>)) e
     = (\<not> defaultShouldRetry e)"
  by (simp add: nonRetryable_def mergeOptions_def noOptions_def defaultRetryOptions_def)

lemma soap_attempts:
  fixes api envelope token w1
  defines "run \<equiv> withRetry (makeSOAPRequest api envelope token)
                    (noOptions\<lparr>p_maxAttempts := Some 3\<rparr>) w1"
  shows "soapCalls (fst (snd run)) = soapCalls w1 + attemptCount (snd (snd run))"
    and "(\<forall>v. \<exists>e t. soapServer (endpoints api) v (apiUrl (environment api)) envelope token
                      = (Inl e, t) \<and> defaultShouldRetry e)
         \<Longrightarrow> attemptCount (snd (snd run)) = 3"
    and "(\<exists>e t. soapServer (endpoints api) w1 (apiUrl (environment api)) envelope token
                      = (Inl e, t) \<and> \<not> defaultShouldRetry e)
         \<Longrightarrow> attemptCount (snd (snd run)) = 1"
    and "(\<exists>reply t. soapServer (endpoints api) w1 (apiUrl (environment api)) envelope token
                      = (Inr reply, t))
         \<Longrightarrow> attemptCount (snd (snd run)) = 1"
proof -
  let ?opts = "mergeOptions (noOptions\<lparr>p_maxAttempts := Some 3\<rparr>)"
  let ?op = "makeSOAPRequest api envelope token"
  have three: "maxAttempts ?opts = 3" by (simp add: mergeOptions_def noOptions_def)
  show "soapCalls (fst (snd run)) = soapCalls w1 + attemptCount (snd (snd run))"
    unfolding run_def withRetry_def by (rule loop_attempts_counted)
  {
    assume "\<forall>v. \<exists>e t. soapServer (endpoints api) v (apiUrl (environment api)) envelope token
                      = (Inl e, t) \<and> defaultShouldRetry e"
    then have "\<And>v. \<exists>e t. soapServer (endpoints api) v (apiUrl (environment api)) envelope
                      token = (Inl e, t) \<and> \<not> nonRetryable ?opts e"
      by (simp add: retryable_by_default)
    from loop_all_retryable [of 1 ?opts api envelope token JsUndefined w1, OF _ this]
    show "attemptCount (snd (snd run)) = 3"
      unfolding run_def withRetry_def by (simp add: three)
  }
  {
    assume "\<exists>e t. soapServer (endpoints api) w1 (apiUrl (environment api)) envelope token
                      = (Inl e, t) \<and> \<not> defaultShouldRetry e"
    then obtain e t where
      "soapServer (endpoints api) w1 (apiUrl (environment api)) envelope token = (Inl e, t)"
      and fatal: "nonRetryable ?opts e"
      by (auto simp: retryable_by_default)
    then obtain w2 where "?op w1 = (Inl e, w2)" by (simp add: makeSOAPRequest_def)
    from loop_stop [where operation = ?op and w = w1 and opts = ?opts and a = 1
        and le = JsUndefined, OF _ this] fatal
    show "attemptCount (snd (snd run)) = 1"
      unfolding run_def withRetry_def by (simp add: three)
  }
  {
    assume "\<exists>reply t. soapServer (endpoints api) w1 (apiUrl (environment api)) envelope token
                      = (Inr reply, t)"
    then obtain reply w2 where "?op w1 = (Inr reply, w2)"
      by (auto simp: makeSOAPRequest_def)
    from loop_success [where operation = ?op and w = w1 and opts = ?opts and a = 1
        and le = JsUndefined, OF _ this]
    show "attemptCount (snd (snd run)) = 1"
      unfolding run_def withRetry_def by (simp add: three)
  }
qed

lemma validateWorker_world:
  assumes "validateEmployeeId employeeId" and "getAccessToken api w = (Inr accessToken, w1)"
    and "buildGetWorkersRequest api employeeId = Inr soapEnvelope"
  shows "snd (validateWorker api employeeId w)
           = fst (snd (withRetry (makeSOAPRequest api soapEnvelope accessToken)
                         (noOptions\<lparr>p_maxAttempts := Some 3\<rparr>) w1))"
  using assms
  by (auto simp: validateWorker_def validateWorker_try_def split: sum.splits option.splits
        prod.splits)

lemma uploadDocument_world:
  assumes "validateEmployeeId (doc_employeeId document)" and "validateWid workerWidArg"
    and "validateWid (categoryWid document)"
    and "getAccessToken api w = (Inr accessToken, w1)"
    and "buildPutWorkerDocumentRequest api document workerWidArg = Inr soapEnvelope"
  shows "snd (uploadDocument api document workerWidArg w)
           = fst (snd (withRetry (makeSOAPRequest api soapEnvelope accessToken)
                         (noOptions\<lparr>p_maxAttempts := Some 3\<rparr>) w1))"
  using assms
  by (auto simp: uploadDocument_def uploadDocument_try_def split: sum.splits prod.splits)

lemma validateWorker_requests:
  assumes "validateEmployeeId employeeId" and "getAccessToken api w = (Inr accessToken, w1)"
    and "buildGetWorkersRequest api employeeId = Inr soapEnvelope"
  shows "soapCalls w1 < soapCalls (snd (validateWorker api employeeId w))
       \<and> soapCalls (snd (validateWorker api employeeId w)) \<le> soapCalls w1 + 3"
proof -
  obtain r w2 ev where run: "withRetry (makeSOAPRequest api soapEnvelope accessToken)
                               (noOptions\<lparr>p_maxAttempts := Some 3\<rparr>) w1 = (r, w2, ev)"
    using prod_cases3 by blast
  with request_count [of w1 api soapEnvelope accessToken]
  have n: "soapCalls w1 < soapCalls w2 \<and> soapCalls w2 \<le> soapCalls w1 + 3" by simp
  have "snd (validateWorker api employeeId w) = w2"
    using assms run
    by (auto simp: validateWorker_def validateWorker_try_def split: sum.splits option.splits)
  with n show ?thesis by simp
qed

lemma uploadDocument_requests:
  assumes "validateEmployeeId (doc_employeeId document)" and "validateWid workerWidArg"
    and "validateWid (categoryWid document)"
    and "getAccessToken api w = (Inr accessToken, w1)"
    and "buildPutWorkerDocumentRequest api document workerWidArg = Inr soapEnvelope"
  shows "soapCalls w1 < soapCalls (snd (uploadDocument api document workerWidArg w))
       \<and> soapCalls (snd (uploadDocument api document workerWidArg w)) \<le> soapCalls w1 + 3"
proof -
  obtain r w2 ev where run: "withRetry (makeSOAPRequest api soapEnvelope accessToken)
                               (noOptions\<lparr>p_maxAttempts := Some 3\<rparr>) w1 = (r, w2, ev)"
    using prod_cases3 by blast
  with request_count [of w1 api soapEnvelope accessToken]
  have n: "soapCalls w1 < soapCalls w2 \<and> soapCalls w2 \<le> soapCalls w1 + 3" by simp
  have "snd (uploadDocument api document workerWidArg w) = w2"
    using assms run
    by (auto simp: uploadDocument_def uploadDocument_try_def split: sum.splits)
  with n show ?thesis by simp
qed

lemma one_failed_validation:
  "validateWorker failingApi ''12345'' w
     = (Inr \<lparr> isValid = False, workerWid = None,
              validationError = Some (''Validation failed: '' @ errorText badRequest) \<rparr>,
        w\<lparr>now := now w + 50, soapCalls := soapCalls w + 1\<rparr>)"
  by (simp add: validateWorker_def validateWorker_try_def validateEmployeeId_def isDigit_def
        failingApi_def withRetry_def withRetry_loop.simps mergeOptions_def noOptions_def
        defaultRetryOptions_def makeSOAPRequest_def tokenIssuer_def nonRetryable_def
        defaultShouldRetry_def badRequest_def)

lemma one_failed_try:
  "validateWorker_try failingApi ''12345'' w
     = (Inl badRequest, w\<lparr>now := now w + 50, soapCalls := soapCalls w + 1\<rparr>)"
  by (simp add: validateWorker_try_def
        failingApi_def withRetry_def withRetry_loop.simps mergeOptions_def noOptions_def
        defaultRetryOptions_def makeSOAPRequest_def tokenIssuer_def nonRetryable_def
        defaultShouldRetry_def badRequest_def)

lemma after_five: "afterFiveFailures = world0\<lparr>now := 250, soapCalls := 5\<rparr>"
  by (simp add: afterFiveFailures_def numeral_eq_Suc one_failed_validation world0_def)

lemma retried:
  assumes "w2 = fst (snd (withRetry (makeSOAPRequest api envelope token)
                            (noOptions\<lparr>p_maxAttempts := Some 3\<rparr>) w1))"
  shows "soapCalls w1 < soapCalls w2 \<and> soapCalls w2 \<le> soapCalls w1 + 3
       \<and> soapCalls w2
           = soapCalls w1
             + attemptCount (snd (snd (withRetry (makeSOAPRequest api envelope token)
                                         (noOptions\<lparr>p_maxAttempts := Some 3\<rparr>) w1)))
       \<and> ((\<forall>v. \<exists>e t. soapServer (endpoints api) v (apiUrl (environment api)) envelope token
                        = (Inl e, t) \<and> defaultShouldRetry e)
            \<longrightarrow> soapCalls w2 = soapCalls w1 + 3)
       \<and> ((\<exists>e t. soapServer (endpoints api) w1 (apiUrl (environment api)) envelope token
                        = (Inl e, t) \<and> \<not> defaultShouldRetry e)
            \<or> (\<exists>reply t. soapServer (endpoints api) w1 (apiUrl (environment api)) envelope
                        token = (Inr reply, t))
            \<longrightarrow> soapCalls w2 = soapCalls w1 + 1)"
proof -
  note n = soap_attempts [where api = api and envelope = envelope and token = token and ?w1.0 = w1]
  from request_count [of w1 api envelope token] assms
  have bounds: "soapCalls w1 < soapCalls w2" "soapCalls w2 \<le> soapCalls w1 + 3" by simp_all
  from n(1) assms have count: "soapCalls w2 = soapCalls w1
      + attemptCount (snd (snd (withRetry (makeSOAPRequest api envelope token)
                                  (noOptions\<lparr>p_maxAttempts := Some 3\<rparr>) w1)))" by simp
  from n(2) count have all: "(\<forall>v. \<exists>e t. soapServer (endpoints api) v (apiUrl (environment api))
      envelope token = (Inl e, t) \<and> defaultShouldRetry e) \<longrightarrow> soapCalls w2 = soapCalls w1 + 3"
    by simp
  from n(3,4) count have once: "(\<exists>e t. soapServer (endpoints api) w1 (apiUrl (environment api))
      envelope token = (Inl e, t) \<and> \<not> defaultShouldRetry e)
     \<or> (\<exists>reply t. soapServer (endpoints api) w1 (apiUrl (environment api)) envelope
            token = (Inr reply, t)) \<longrightarrow> soapCalls w2 = soapCalls w1 + 1"
    by auto
  from bounds count all once show ?thesis by (intro conjI)
qed

text \<open>
  C1, as the code has it. The remote validation and the remote submission go through
  the retry layer and nothing else. Whenever the identifiers pass the format checks,
  the token is obtained and the request is built, what \<open>validateWorker\<close> and
  \<open>uploadDocument\<close> do to the world is what \<open>withRetry\<close> does with \<open>maxAttempts: 3\<close>
  around \<open>makeSOAPRequest\<close>: one request per attempt, at least one and at most three,
  in every world, whatever happened before (no state makes them fail fast); three
  requests when every reply is an error that the default policy retries; one request
  when the first reply is a response or an error that the policy does not retry.
\<close>

theorem remote_calls_use_retry_only:
  "(validateEmployeeId employeeId \<and> getAccessToken api w = (Inr accessToken, w1)
      \<and> buildGetWorkersRequest api employeeId = Inr soapEnvelope
     \<longrightarrow> snd (validateWorker api employeeId w)
           = fst (snd (withRetry (makeSOAPRequest api soapEnvelope accessToken)
                         (noOptions\<lparr>p_maxAttempts := Some 3\<rparr>) w1))
        \<and> soapCalls w1 < soapCalls (snd (validateWorker api employeeId w))
        \<and> soapCalls (snd (validateWorker api employeeId w)) \<le> soapCalls w1 + 3
        \<and> soapCalls (snd (validateWorker api employeeId w))
            = soapCalls w1
              + attemptCount (snd (snd (withRetry (makeSOAPRequest api soapEnvelope accessToken)
                                          (noOptions\<lparr>p_maxAttempts := Some 3\<rparr>) w1)))
        \<and> ((\<forall>v. \<exists>e t. soapServer (endpoints api) v (apiUrl (environment api)) soapEnvelope
                         accessToken = (Inl e, t) \<and> defaultShouldRetry e)
             \<longrightarrow> soapCalls (snd (validateWorker api employeeId w)) = soapCalls w1 + 3)
        \<and> ((\<exists>e t. soapServer (endpoints api) w1 (apiUrl (environment api)) soapEnvelope
                         accessToken = (Inl e, t) \<and> \<not> defaultShouldRetry e)
             \<or> (\<exists>reply t. soapServer (endpoints api) w1 (apiUrl (environment api)) soapEnvelope
                         accessToken = (Inr reply, t))
             \<longrightarrow> soapCalls (snd (validateWorker api employeeId w)) = soapCalls w1 + 1))
   \<and> (validateEmployeeId (doc_employeeId document) \<and> validateWid workerWidArg
      \<and> validateWid (categoryWid document) \<and> getAccessToken api w = (Inr accessToken, w1)
      \<and> buildPutWorkerDocumentRequest api document workerWidArg = Inr putEnvelope
     \<longrightarrow> snd (uploadDocument api document workerWidArg w)
           = fst (snd (withRetry (makeSOAPRequest api putEnvelope accessToken)
                         (noOptions\<lparr>p_maxAttempts := Some 3\<rparr>) w1))
        \<and> soapCalls w1 < soapCalls (snd (uploadDocument api document workerWidArg w))
        \<and> soapCalls (snd (uploadDocument api document workerWidArg w)) \<le> soapCalls w1 + 3
        \<and> soapCalls (snd (uploadDocument api document workerWidArg w))
            = soapCalls w1
              + attemptCount (snd (snd (withRetry (makeSOAPRequest api putEnvelope accessToken)
                                          (noOptions\<lparr>p_maxAttempts := Some 3\<rparr>) w1)))
        \<and> ((\<forall>v. \<exists>e t. soapServer (endpoints api) v (apiUrl (environment api)) putEnvelope
                         accessToken = (Inl e, t) \<and> defaultShouldRetry e)
             \<longrightarrow> soapCalls (snd (uploadDocument api document workerWidArg w))
                   = soapCalls w1 + 3)
        \<and> ((\<exists>e t. soapServer (endpoints api) w1 (apiUrl (environment api)) putEnvelope
                         accessToken = (Inl e, t) \<and> \<not> defaultShouldRetry e)
             \<or> (\<exists>reply t. soapServer (endpoints api) w1 (apiUrl (environment api)) putEnvelope
                         accessToken = (Inr reply, t))
             \<longrightarrow> soapCalls (snd (uploadDocument api document workerWidArg w))
                   = soapCalls w1 + 1))"
  (is "(?H1 \<longrightarrow> ?C1) \<and> (?H2 \<longrightarrow> ?C2)")
proof (rule conjI)
  show "?H1 \<longrightarrow> ?C1"
  proof (rule impI)
    assume ?H1
    then have world: "snd (validateWorker api employeeId w)
             = fst (snd (withRetry (makeSOAPRequest api soapEnvelope accessToken)
                           (noOptions\<lparr>p_maxAttempts := Some 3\<rparr>) w1))"
      using validateWorker_world by blast
    from world retried [OF world] show ?C1 by blast
  qed
  show "?H2 \<longrightarrow> ?C2"
  proof (rule impI)
    assume ?H2
    then have world: "snd (uploadDocument api document workerWidArg w)
             = fst (snd (withRetry (makeSOAPRequest api putEnvelope accessToken)
                           (noOptions\<lparr>p_maxAttempts := Some 3\<rparr>) w1))"
      using uploadDocument_world by blast
    from world retried [OF world] show ?C2 by blast
  qed
qed

theorem remote_calls_use_retry_only_witness:
  "validateEmployeeId ''12345''
   \<and> getAccessToken failingApi afterFiveFailures = (Inr ''token-1'', afterFiveFailures)
   \<and> soapCalls afterFiveFailures = 5
   \<and> \<not> defaultShouldRetry badRequest
   \<and> soapCalls (snd (validateWorker failingApi ''12345'' afterFiveFailures)) = 6
   \<and> defaultShouldRetry serviceUnavailable
   \<and> soapCalls (snd (validateWorker unavailableApi ''12345'' afterFiveFailures)) = 8
   \<and> now (snd (validateWorker unavailableApi ''12345'' afterFiveFailures)) = 3400
   \<and> validateEmployeeId (doc_employeeId sampleDocument)
   \<and> validateWid ''81f5373f398e4550a111264703c3f689''
   \<and> validateWid (categoryWid sampleDocument)
   \<and> soapCalls (snd (uploadDocument failingApi sampleDocument
                        ''81f5373f398e4550a111264703c3f689'' afterFiveFailures)) = 6
   \<and> soapCalls (snd (uploadDocument unavailableApi sampleDocument
                        ''81f5373f398e4550a111264703c3f689'' afterFiveFailures)) = 8"
proof -
  let ?wid = "''81f5373f398e4550a111264703c3f689''"
  let ?get = "''<Get_Workers_Request>12345''"
  let ?put = "''<Put_Worker_Document_Request>81f5373f398e4550a111264703c3f689''"
  have id: "validateEmployeeId ''12345''"
    by (simp add: validateEmployeeId_def isDigit_def)
  have id': "validateEmployeeId (doc_employeeId sampleDocument)"
    by (simp add: validateEmployeeId_def isDigit_def sampleDocument_def)
  have wid: "validateWid ?wid"
    by (simp add: validateWid_def isLowerHex_def)
  have cat: "validateWid (categoryWid sampleDocument)"
    by (simp add: validateWid_def isLowerHex_def sampleDocument_def)
  have five: "soapCalls afterFiveFailures = 5" by (simp add: after_five)
  have fatal: "\<not> defaultShouldRetry badRequest"
    by (simp add: defaultShouldRetry_def badRequest_def)
  have transient: "defaultShouldRetry serviceUnavailable"
    by (simp add: defaultShouldRetry_def serviceUnavailable_def)
  have tok: "getAccessToken failingApi afterFiveFailures = (Inr ''token-1'', afterFiveFailures)"
    "getAccessToken unavailableApi afterFiveFailures = (Inr ''token-1'', afterFiveFailures)"
    by (simp_all add: failingApi_def unavailableApi_def)
  have get: "buildGetWorkersRequest failingApi ''12345'' = Inr ?get"
    "buildGetWorkersRequest unavailableApi ''12345'' = Inr ?get"
    by (simp_all add: failingApi_def unavailableApi_def)
  have put: "buildPutWorkerDocumentRequest failingApi sampleDocument ?wid = Inr ?put"
    "buildPutWorkerDocumentRequest unavailableApi sampleDocument ?wid = Inr ?put"
    by (simp_all add: failingApi_def unavailableApi_def)
  have rejected: "\<exists>e t. soapServer (endpoints failingApi) afterFiveFailures
                     (apiUrl (environment failingApi)) envelope ''token-1'' = (Inl e, t)
                   \<and> \<not> defaultShouldRetry e" for envelope
    using fatal by (simp add: failingApi_def tokenIssuer_def)
  have down: "\<forall>v. \<exists>e t. soapServer (endpoints unavailableApi) v
                     (apiUrl (environment unavailableApi)) envelope ''token-1'' = (Inl e, t)
                   \<and> defaultShouldRetry e" for envelope
    using transient by (simp add: unavailableApi_def failingApi_def)
  note failing = remote_calls_use_retry_only [of "''12345''" failingApi afterFiveFailures
      "''token-1''" afterFiveFailures ?get sampleDocument ?wid ?put]
  note unavailable = remote_calls_use_retry_only [of "''12345''" unavailableApi
      afterFiveFailures "''token-1''" afterFiveFailures ?get sampleDocument ?wid ?put]
  have "soapCalls (snd (validateWorker failingApi ''12345'' afterFiveFailures))
          = soapCalls afterFiveFailures + 1"
    using failing id tok(1) get(1) rejected [of ?get] by blast
  then have v6: "soapCalls (snd (validateWorker failingApi ''12345'' afterFiveFailures)) = 6"
    by (simp add: five)
  have "soapCalls (snd (uploadDocument failingApi sampleDocument ?wid afterFiveFailures))
          = soapCalls afterFiveFailures + 1"
    using failing id' wid cat tok(1) put(1) rejected [of ?put] by blast
  then have u6: "soapCalls (snd (uploadDocument failingApi sampleDocument ?wid
                              afterFiveFailures)) = 6"
    by (simp add: five)
  have "soapCalls (snd (validateWorker unavailableApi ''12345'' afterFiveFailures))
          = soapCalls afterFiveFailures + 3"
    using unavailable id tok(2) get(2) down [of ?get] by blast
  then have v8: "soapCalls (snd (validateWorker unavailableApi ''12345''
                                   afterFiveFailures)) = 8"
    by (simp add: five)
  have "soapCalls (snd (uploadDocument unavailableApi sampleDocument ?wid afterFiveFailures))
          = soapCalls afterFiveFailures + 3"
    using unavailable id' wid cat tok(2) put(2) down [of ?put] by blast
  then have u8: "soapCalls (snd (uploadDocument unavailableApi sampleDocument ?wid
                              afterFiveFailures)) = 8"
    by (simp add: five)
  have clock: "now (snd (validateWorker unavailableApi ''12345'' afterFiveFailures)) = 3400"
    by (simp add: validateWorker_def validateWorker_try_def validateEmployeeId_def isDigit_def
          unavailableApi_def failingApi_def withRetry_def withRetry_loop.simps
          mergeOptions_def noOptions_def defaultRetryOptions_def makeSOAPRequest_def
          tokenIssuer_def nonRetryable_def defaultShouldRetry_def serviceUnavailable_def
          backoffDelay_def Math_pow_def sleep_def timerDelay_def after_five world0_def Let_def)
  from id tok(1) five fatal v6 transient v8 clock id' wid cat u6 u8
  show ?thesis by (intro conjI)
qed

text \<open>
  C1 as stated fails: no circuit breaker stands between the pipeline and the remote
  operation. After five validations that failed within 250 ms, a breaker with the
  default threshold 5 and cool-down 60000 ms is OPEN and would reject the sixth call
  without a request (five requests in all); the sixth call of \<open>validateWorker\<close> sends
  the sixth request.
\<close>

theorem validation_calls_bypass_breaker:
  "soapCalls (repeatValidation 6 failingApi ''12345'' world0) = 6
   \<and> now (repeatValidation 6 failingApi ''12345'' world0) = 300
   \<and> state (fst (repeatGuarded 5 (newCircuitBreaker 5 60000) failingApi ''12345'' world0)) = OPEN
   \<and> soapCalls (snd (repeatGuarded 6 (newCircuitBreaker 5 60000) failingApi ''12345'' world0)) = 5"
  by (simp add: numeral_eq_Suc one_failed_validation one_failed_try validateSubject_guarded_def
        execute_def execute_enter_def execute_settle_def onFailure_def newCircuitBreaker_def
        world0_def)

lemma validateWid_iff:
  "validateWid wid \<longleftrightarrow> length wid = 32 \<and> set wid \<subseteq> set ''abcdef0123456789''"
  unfolding validateWid_def isLowerHex_def list_all_iff by blast

lemma uppercase_wid: "\<not> validateWid ''81F5373F398E4550A111264703C3F689''"
  by (simp add: validateWid_def isLowerHex_def)

lemma dashed_wid: "\<not> validateWid ''81f5373f-398e-4550-a111-264703c3f689''"
  by (simp add: validateWid_def)

lemma uploadDocument_resolves:
  "\<exists>uploaded w'. uploadDocument api document workerWidArg w = (Inr uploaded, w')"
  by (auto simp: uploadDocument_def split: prod.splits sum.splits)

text \<open>
  C10. Whenever \<open>workerWid\<close> or the category WID of the document is not made of
  exactly 32 characters among \<open>a-f\<close> and \<open>0-9\<close>, \<open>uploadDocument\<close> returns
  \<open>false\<close> and leaves the world as it is, whatever the token service and the
  endpoints would do: no call is made. Upper-case and dash-separated forms are
  rejected. \<open>uploadDocument\<close> never throws: it always returns a boolean.
\<close>

theorem uploadDocument_rejects_malformed_wid:
  "(\<not> validateWid workerWidArg \<or> \<not> validateWid (categoryWid document)
      \<longrightarrow> uploadDocument api document workerWidArg w = (Inr False, w))
   \<and> (validateWid wid \<longleftrightarrow> length wid = 32 \<and> set wid \<subseteq> set ''abcdef0123456789'')
   \<and> \<not> validateWid ''81F5373F398E4550A111264703C3F689''
   \<and> \<not> validateWid ''81f5373f-398e-4550-a111-264703c3f689''
   \<and> (\<exists>uploaded w'. uploadDocument api document workerWidArg w = (Inr uploaded, w'))"
proof -
  have "\<not> validateWid workerWidArg \<or> \<not> validateWid (categoryWid document)
      \<longrightarrow> uploadDocument api document workerWidArg w = (Inr False, w)"
    by (simp add: uploadDocument_def)
  with validateWid_iff [of wid] uppercase_wid dashed_wid
    uploadDocument_resolves [of api document workerWidArg w]
  show ?thesis by blast
qed

theorem uploadDocument_rejects_malformed_wid_witness:
  "\<not> validateWid ''81F5373F398E4550A111264703C3F689''
   \<and> uploadDocument failingApi sampleDocument ''81F5373F398E4550A111264703C3F689'' world0
       = (Inr False, world0)
   \<and> \<not> validateWid (categoryWid (sampleDocument\<lparr>categoryWid := ''7166A581-6489''\<rparr>))
   \<and> uploadDocument failingApi (sampleDocument\<lparr>categoryWid := ''7166A581-6489''\<rparr>)
         ''81f5373f398e4550a111264703c3f689'' world0
       = (Inr False, world0)"
proof -
  have 1: "\<not> validateWid ''81F5373F398E4550A111264703C3F689''"
    by (simp add: validateWid_def isLowerHex_def)
  have 2: "\<not> validateWid (categoryWid (sampleDocument\<lparr>categoryWid := ''7166A581-6489''\<rparr>))"
    by (simp add: validateWid_def)
  from uploadDocument_rejects_malformed_wid
         [of "''81F5373F398E4550A111264703C3F689''" sampleDocument failingApi world0]
       uploadDocument_rejects_malformed_wid
         [of "''81f5373f398e4550a111264703c3f689''"
             "sampleDocument\<lparr>categoryWid := ''7166A581-6489''\<rparr>" failingApi world0]
       1 2
  show ?thesis by simp
qed

section \<open>Properties of the file processor\<close>

lemma fp_accepts_api_accepts:
  "FileProcessor_validateEmployeeId employeeId \<Longrightarrow> validateEmployeeId employeeId"
  by (simp add: FileProcessor_validateEmployeeId_def validateEmployeeId_def)

lemma extract_accepted:
  "extractEmployeeId filename = Some employeeId \<Longrightarrow> FileProcessor_validateEmployeeId employeeId"
  by (auto simp: extractEmployeeId_def Let_def split: if_splits)

lemma processed_accepted:
  "pf_isValid (FileProcessor_processFile cfg fs filePath w) \<Longrightarrow>
   FileProcessor_validateEmployeeId (pf_employeeId (FileProcessor_processFile cfg fs filePath w))"
  by (auto simp: FileProcessor_processFile_def Let_def rejectedFile_def extract_accepted
        split: prod.splits option.splits sum.splits if_splits bool.splits)

lemma validateWorker_remote:
  "validateEmployeeId employeeId \<Longrightarrow>
   validateWorker api employeeId w =
     (case validateWorker_try api employeeId w of
        (Inr result, w1) \<Rightarrow> (Inr result, w1)
      | (Inl err, w1) \<Rightarrow>
          (Inr \<lparr> isValid = False, workerWid = None,
                 validationError = Some (''Validation failed: '' @ errorText err) \<rparr>, w1))"
  by (simp add: validateWorker_def)

lemma validateWorker_try_errors:
  "validateWorker_try api employeeId w = (Inr result, w1) \<Longrightarrow>
   validationError result = None \<or> validationError result = Some ''Worker not found''"
  by (auto simp: validateWorker_try_def split: prod.splits sum.splits option.splits if_splits)

lemma validateWorker_not_format_error:
  assumes "validateEmployeeId employeeId"
    and "validateWorker api employeeId w = (Inr result, w1)"
  shows "validationError result \<noteq> Some ''Invalid employee ID format. Must be 3-12 digits.''"
proof (cases "validateWorker_try api employeeId w")
  case (Pair r w')
  show ?thesis
  proof (cases r)
    case (Inl err)
    with Pair assms show ?thesis by (auto simp: validateWorker_remote)
  next
    case (Inr res)
    with Pair assms have "result = res" by (simp add: validateWorker_remote)
    with validateWorker_try_errors [of api employeeId w res w'] Pair Inr
    show ?thesis by auto
  qed
qed

lemma sample_file:
  "FileProcessor_processFile sampleConfig sampleDisk ''input/12345-contract.pdf'' w
     = \<lparr> pf_employeeId = ''12345'', pf_filename = ''12345-contract.pdf'',
         fullPath = ''input/12345-contract.pdf'', pf_fileContent = ''JVBERi0='',
         pf_size = 1024, pf_isValid = True, pf_error = None \<rparr>"
  by (simp add: FileProcessor_processFile_def basename_def validateFilename_def
        dangerousChar_def matchesFilenamePattern_def isDigit_def isAlphaNumeric_def
        extractEmployeeId_def FileProcessor_validateEmployeeId_def isLineTerminator_def
        sampleDisk_def sampleConfig_def Let_def)

lemma sample_validation:
  "validateWorker workingApi ''12345'' w
     = (Inr \<lparr> isValid = True, workerWid = Some ''81f5373f398e4550a111264703c3f689'',
              validationError = None \<rparr>,
        w\<lparr>now := now w + 50, soapCalls := soapCalls w + 1\<rparr>)"
  by (simp add: validateWorker_def validateWorker_try_def validateEmployeeId_def isDigit_def
        workingApi_def workdayServer_def
        failingApi_def withRetry_def withRetry_loop.simps mergeOptions_def noOptions_def
        defaultRetryOptions_def makeSOAPRequest_def tokenIssuer_def
        extractWorkerWid_def captureId_def Let_def)

text \<open>
  C9. An employee id that \<open>FileProcessor.validateEmployeeId\<close> accepts (4 to 12
  digits) passes the check of the API service (3 to 12 digits); so does every id that
  \<open>extractEmployeeId\<close> returns and the id of every file that
  \<open>FileProcessor.processFile\<close> reports valid. For such a file \<open>validateWorker\<close> is its
  \<open>try\<close> block: it never returns the error
  \<open>Invalid employee ID format. Must be 3-12 digits.\<close>
\<close>

theorem local_validation_implies_api_format:
  "(FileProcessor_validateEmployeeId employeeId \<longrightarrow> validateEmployeeId employeeId)
   \<and> (extractEmployeeId filename = Some employeeId \<longrightarrow> validateEmployeeId employeeId)
   \<and> (pf_isValid (FileProcessor_processFile cfg fs filePath w) \<longrightarrow>
        validateEmployeeId (pf_employeeId (FileProcessor_processFile cfg fs filePath w))
        \<and> validateWorker api (pf_employeeId (FileProcessor_processFile cfg fs filePath w)) w'
            = (case validateWorker_try api
                      (pf_employeeId (FileProcessor_processFile cfg fs filePath w)) w' of
                 (Inr result, w1) \<Rightarrow> (Inr result, w1)
               | (Inl err, w1) \<Rightarrow>
                   (Inr \<lparr> isValid = False, workerWid = None,
                          validationError = Some (''Validation failed: '' @ errorText err) \<rparr>,
                    w1))
        \<and> (\<forall>result w1.
              validateWorker api (pf_employeeId (FileProcessor_processFile cfg fs filePath w)) w'
                = (Inr result, w1)
              \<longrightarrow> validationError result
                    \<noteq> Some ''Invalid employee ID format. Must be 3-12 digits.''))"
  using fp_accepts_api_accepts extract_accepted processed_accepted [of cfg fs filePath w]
    validateWorker_remote validateWorker_not_format_error
  by blast

theorem local_validation_implies_api_format_witness:
  "FileProcessor_validateEmployeeId ''12345''
   \<and> extractEmployeeId ''12345-contract.pdf'' = Some ''12345''
   \<and> pf_isValid (FileProcessor_processFile sampleConfig sampleDisk
                    ''input/12345-contract.pdf'' world0)
   \<and> validateEmployeeId ''12345''
   \<and> fst (validateWorker workingApi ''12345'' world0)
       = Inr \<lparr> isValid = True, workerWid = Some ''81f5373f398e4550a111264703c3f689'',
               validationError = None \<rparr>"
proof -
  have 1: "FileProcessor_validateEmployeeId ''12345''"
    by (simp add: FileProcessor_validateEmployeeId_def isDigit_def)
  have 2: "extractEmployeeId ''12345-contract.pdf'' = Some ''12345''"
    by (simp add: extractEmployeeId_def FileProcessor_validateEmployeeId_def isDigit_def
          isLineTerminator_def Let_def)
  have 3: "pf_isValid (FileProcessor_processFile sampleConfig sampleDisk
                    ''input/12345-contract.pdf'' world0)"
    by (simp add: sample_file)
  have 4: "fst (validateWorker workingApi ''12345'' world0)
       = Inr \<lparr> isValid = True, workerWid = Some ''81f5373f398e4550a111264703c3f689'',
               validationError = None \<rparr>"
    by (simp add: sample_validation)
  from local_validation_implies_api_format [of "''12345''" "''12345-contract.pdf''"
         sampleConfig sampleDisk "''input/12345-contract.pdf''" world0 workingApi world0]
       1 2
  have "validateEmployeeId ''12345''" by simp
  with 1 2 3 4 show ?thesis by simp
qed

section \<open>Properties of the orchestrator\<close>

lemma finishTask_Finished [simp]:
  "finishTask orch categoryWidArg (Finished result) w = (result, orch, w)"
  by (simp add: finishTask.simps)

lemma finishTask_step:
  "stagesLeft task \<noteq> 0 \<Longrightarrow>
   finishTask orch categoryWidArg task w =
     (case resume orch categoryWidArg task w of
        (task1, orch1, w1) \<Rightarrow> finishTask orch1 categoryWidArg task1 w1)"
  by (subst finishTask.simps) (cases task; simp)

lemma lookup_frame:
  "shouldCheckForFailures (snd (getFromWorkerCache orch employeeId w))
     = shouldCheckForFailures orch"
  "workdayApi (snd (getFromWorkerCache orch employeeId w)) = workdayApi orch"
  "config (snd (getFromWorkerCache orch employeeId w)) = config orch"
  "fileSystem (snd (getFromWorkerCache orch employeeId w)) = fileSystem orch"
  "promptConfirmation (snd (getFromWorkerCache orch employeeId w)) = promptConfirmation orch"
  by (auto simp: getFromWorkerCache_def Let_def split: option.splits prod.splits)

lemma resume_frame:
  assumes "resume orch categoryWidArg task w = (task1, orch1, w1)"
  shows "shouldCheckForFailures orch1 = shouldCheckForFailures orch"
    and "config orch1 = config orch" and "fileSystem orch1 = fileSystem orch"
    and "workdayApi orch1 = workdayApi orch"
    and "promptConfirmation orch1 = promptConfirmation orch"
proof -
  have "shouldCheckForFailures orch1 = shouldCheckForFailures orch
      \<and> config orch1 = config orch \<and> fileSystem orch1 = fileSystem orch
      \<and> workdayApi orch1 = workdayApi orch
      \<and> promptConfirmation orch1 = promptConfirmation orch"
  proof (cases task)
    case (Reading filePath startTime)
    let ?pf = "FileProcessor_processFile (config orch) (fileSystem orch) filePath w"
    obtain cached orchL where lk: "getFromWorkerCache orch (pf_employeeId ?pf) w = (cached, orchL)"
      by (cases "getFromWorkerCache orch (pf_employeeId ?pf) w")
    from lookup_frame [of orch "pf_employeeId ?pf" w] lk
    have "shouldCheckForFailures orchL = shouldCheckForFailures orch"
      "workdayApi orchL = workdayApi orch" "config orchL = config orch"
      "fileSystem orchL = fileSystem orch" "promptConfirmation orchL = promptConfirmation orch"
      by simp_all
    with assms Reading lk show ?thesis
      by (auto simp: Let_def split: if_splits option.splits)
  next
    case (Validating filePath startTime processedFile)
    with assms show ?thesis
      by (auto simp: Let_def addToWorkerCache_def split: if_splits prod.splits sum.splits)
  next
    case (Uploading filePath startTime processedFile wid)
    with assms show ?thesis
      by (auto simp: Let_def split: if_splits prod.splits sum.splits)
  next
    case (Filing filePath startTime processedFile)
    with assms show ?thesis by (auto split: prod.splits sum.splits)
  next
    case (Failing filePath startTime employeeId reason message)
    with assms show ?thesis by (auto split: prod.splits sum.splits)
  next
    case (Recovering filePath startTime err)
    with assms show ?thesis by (auto simp: Let_def)
  next
    case (Finished result)
    with assms show ?thesis by simp
  qed
  then show "shouldCheckForFailures orch1 = shouldCheckForFailures orch"
    and "config orch1 = config orch" and "fileSystem orch1 = fileSystem orch"
    and "workdayApi orch1 = workdayApi orch"
    and "promptConfirmation orch1 = promptConfirmation orch"
    by simp_all
qed

lemma resume_name:
  "resume orch categoryWidArg task w = (task1, orch1, w1) \<Longrightarrow>
   reportedName task1 = reportedName task"
  by (cases task)
     (auto simp: Let_def failedResult_def split: if_splits prod.splits sum.splits option.splits)

lemma finishTask_facts:
  "finishTask orch categoryWidArg task w = (result, orch1, w1) \<Longrightarrow>
   ur_filename result = reportedName task
   \<and> shouldCheckForFailures orch1 = shouldCheckForFailures orch"
proof (induction orch categoryWidArg task w arbitrary: result orch1 w1 rule: finishTask.induct)
  case (1 orch categoryWidArg task w)
  show ?case
  proof (cases "stagesLeft task = 0")
    case True
    then obtain r where "task = Finished r" by (cases task) simp_all
    with "1.prems" show ?thesis by simp
  next
    case False
    obtain t oa wa where step: "resume orch categoryWidArg task w = (t, oa, wa)"
      using prod_cases3 by blast
    from "1.prems" have fin: "finishTask oa categoryWidArg t wa = (result, orch1, w1)"
      by (simp add: finishTask_step [OF False] step)
    from False have other: "\<And>r. task \<noteq> Finished r" by auto
    have "ur_filename result = reportedName t
          \<and> shouldCheckForFailures orch1 = shouldCheckForFailures oa"
      using "1.IH" [OF _ step [symmetric] refl fin] other by (cases task) auto
    with resume_name [OF step] resume_frame(1) [OF step] show ?thesis by simp
  qed
qed

lemma runSchedule_facts:
  "runSchedule orch categoryWidArg tasks schedule w = (tasks1, orch1, w1) \<Longrightarrow>
   map reportedName tasks1 = map reportedName tasks
   \<and> shouldCheckForFailures orch1 = shouldCheckForFailures orch"
proof (induction schedule arbitrary: orch tasks w)
  case Nil
  then show ?case by simp
next
  case (Cons i schedule)
  show ?case
  proof (cases "i < length tasks")
    case False
    with Cons.prems have "runSchedule orch categoryWidArg tasks schedule w = (tasks1, orch1, w1)"
      by simp
    from Cons.IH [OF this] show ?thesis .
  next
    case True
    obtain t oa wa where step: "resume orch categoryWidArg (tasks ! i) w = (t, oa, wa)"
      using prod_cases3 by blast
    with Cons.prems True
    have rest: "runSchedule oa categoryWidArg (tasks[i := t]) schedule wa = (tasks1, orch1, w1)"
      by simp
    have "map reportedName (tasks[i := t]) = map reportedName tasks"
      using resume_name [OF step] True by (simp add: map_update list_update_same_conv)
    with Cons.IH [OF rest] resume_frame(1) [OF step] show ?thesis by simp
  qed
qed

lemma finishAll_facts:
  "finishAll orch categoryWidArg tasks w = (chunkResults, orch1, w1) \<Longrightarrow>
   map ur_filename chunkResults = map reportedName tasks
   \<and> shouldCheckForFailures orch1 = shouldCheckForFailures orch"
proof (induction tasks arbitrary: orch w chunkResults orch1 w1)
  case Nil
  then show ?case by simp
next
  case (Cons task tasks)
  obtain r oa wa where one: "finishTask orch categoryWidArg task w = (r, oa, wa)"
    using prod_cases3 by blast
  obtain rs ob wb where rest: "finishAll oa categoryWidArg tasks wa = (rs, ob, wb)"
    using prod_cases3 by blast
  from Cons.prems one rest have eq: "chunkResults = r # rs" "orch1 = ob" by simp_all
  from finishTask_facts [OF one] Cons.IH [OF rest] eq show ?case by simp
qed

lemma processChunk_facts:
  assumes "processChunk orch chunk categoryWidArg schedule w = (chunkResults, orch1, w1)"
  shows "map ur_filename chunkResults = map filenameOf chunk"
    and "length chunkResults = length chunk"
    and "shouldCheckForFailures orch1 = shouldCheckForFailures orch"
proof -
  let ?tasks = "map (\<lambda>filePath. Reading filePath (now w)) chunk"
  obtain ts oa wa where run: "runSchedule orch categoryWidArg ?tasks schedule w = (ts, oa, wa)"
    using prod_cases3 by blast
  with assms have fin: "finishAll oa categoryWidArg ts wa = (chunkResults, orch1, w1)"
    by (simp add: processChunk_def)
  from runSchedule_facts [OF run] finishAll_facts [OF fin]
  have names: "map ur_filename chunkResults = map reportedName ?tasks"
    and armed: "shouldCheckForFailures orch1 = shouldCheckForFailures orch" by simp_all
  from names show n: "map ur_filename chunkResults = map filenameOf chunk"
    by (simp add: comp_def)
  from n show "length chunkResults = length chunk" by (rule map_eq_imp_length_eq)
  from armed show "shouldCheckForFailures orch1 = shouldCheckForFailures orch" .
qed

lemma check_applied:
  assumes "shouldCheckForFailures orch1"
    and "checkConsecutiveFailures orch1 chunkResults (length results1) n w1 = (stop, orch2, w2)"
  shows "valve_applied \<lparr> resultsSoFar = results1, orchAfterBatch = orch1,
                          worldAfterBatch = w1, stopped = stop,
                          orchAfterCheck = orch2, worldAfterCheck = w2 \<rparr>"
    and "\<not> stop \<Longrightarrow> shouldCheckForFailures orch2"
  using assms
  by (auto simp: valve_applied_def checkConsecutiveFailures_def Let_def split: if_splits)

lemma uploadChunks_run:
  assumes "shouldCheckForFailures orch"
    and "uploadChunks orch chunks results0 filePaths categoryWidArg schedules w
           = (allResults, orch', w', bs)"
  shows "length bs \<le> length chunks
       \<and> (\<forall>i<length bs. valve_applied (bs ! i))
       \<and> (\<forall>i<length bs. map ur_filename (resultsSoFar (bs ! i))
              = map ur_filename results0 @ map filenameOf (concat (take (Suc i) chunks)))
       \<and> (\<forall>i<length bs. stopped (bs ! i) \<longrightarrow> Suc i = length bs)
       \<and> (length bs = length chunks \<or> (bs \<noteq> [] \<and> stopped (last bs)))
       \<and> (allResults, orch', w')
            = (if bs = [] then (results0, orch, w)
               else (resultsSoFar (last bs), orchAfterCheck (last bs),
                     worldAfterCheck (last bs)))
       \<and> (bs \<noteq> [] \<longrightarrow>
            (resultsSoFar (hd bs), orchAfterBatch (hd bs), worldAfterBatch (hd bs))
              = (case processChunk orch (hd chunks) categoryWidArg (scheduleOf schedules) w of
                   (chunkResults, orch1, w1) \<Rightarrow> (results0 @ chunkResults, orch1, w1)))
       \<and> (\<forall>i. Suc i < length bs \<longrightarrow>
            (resultsSoFar (bs ! Suc i), orchAfterBatch (bs ! Suc i),
             worldAfterBatch (bs ! Suc i))
              = (case processChunk (orchAfterCheck (bs ! i)) (chunks ! Suc i) categoryWidArg
                        (scheduleOf (drop (Suc i) schedules)) (worldAfterCheck (bs ! i)) of
                   (chunkResults, orch1, w1) \<Rightarrow>
                     (resultsSoFar (bs ! i) @ chunkResults, orch1, w1)))"
  using assms
proof (induction chunks arbitrary: orch results0 schedules w allResults orch' w' bs)
  case Nil
  then show ?case by simp
next
  case (Cons chunk chunks)
  note armed = Cons.prems(1) and run = Cons.prems(2)
  obtain rs o1 w1 where batch:
    "processChunk orch chunk categoryWidArg (scheduleOf schedules) w = (rs, o1, w1)"
    using prod_cases3 by blast
  note pc = processChunk_facts [OF batch]
  from pc(3) armed have armed1: "shouldCheckForFailures o1" by simp
  let ?results1 = "results0 @ rs"
  obtain stop o2 w2 where chk:
    "checkConsecutiveFailures o1 rs (length ?results1) (length filePaths) w1 = (stop, o2, w2)"
    using prod_cases3 by blast
  let ?b = "\<lparr> resultsSoFar = ?results1, orchAfterBatch = o1, worldAfterBatch = w1,
              stopped = stop, orchAfterCheck = o2, worldAfterCheck = w2 \<rparr>"
  note ca = check_applied [OF armed1 chk]
  have names0: "map ur_filename ?results1 = map ur_filename results0 @ map filenameOf chunk"
    using pc(1) by simp
  show ?case
  proof (cases stop)
    case True
    with run batch chk armed1
    have res: "allResults = ?results1" "orch' = o2" "w' = w2" "bs = [?b]"
      by (auto simp: Let_def)
    from ca(1) names0 True show ?thesis
      unfolding res by (simp add: batch)
  next
    case False
    obtain bs' where rec: "uploadChunks o2 chunks ?results1 filePaths categoryWidArg
                             (tl schedules) w2 = (allResults, orch', w', bs')"
      and bs: "bs = ?b # bs'"
      using run batch chk armed1 False by (auto simp: Let_def split: prod.splits)
    note ih = Cons.IH [OF ca(2) [OF False] rec]
    from ih have len: "length bs' \<le> length chunks" by blast
    from ih have valve: "\<forall>i<length bs'. valve_applied (bs' ! i)" by blast
    from ih have names: "\<forall>i<length bs'. map ur_filename (resultsSoFar (bs' ! i))
              = map ur_filename ?results1 @ map filenameOf (concat (take (Suc i) chunks))"
      by blast
    from ih have stops: "\<forall>i<length bs'. stopped (bs' ! i) \<longrightarrow> Suc i = length bs'" by blast
    from ih have full: "length bs' = length chunks \<or> (bs' \<noteq> [] \<and> stopped (last bs'))"
      by blast
    from ih have final: "(allResults, orch', w')
            = (if bs' = [] then (?results1, o2, w2)
               else (resultsSoFar (last bs'), orchAfterCheck (last bs'),
                     worldAfterCheck (last bs')))" by blast
    from ih have first: "bs' \<noteq> [] \<longrightarrow>
            (resultsSoFar (hd bs'), orchAfterBatch (hd bs'), worldAfterBatch (hd bs'))
              = (case processChunk o2 (hd chunks) categoryWidArg (scheduleOf (tl schedules)) w2 of
                   (chunkResults, orch1, w1) \<Rightarrow> (?results1 @ chunkResults, orch1, w1))"
      by blast
    from ih have later: "\<forall>i. Suc i < length bs' \<longrightarrow>
            (resultsSoFar (bs' ! Suc i), orchAfterBatch (bs' ! Suc i),
             worldAfterBatch (bs' ! Suc i))
              = (case processChunk (orchAfterCheck (bs' ! i)) (chunks ! Suc i) categoryWidArg
                        (scheduleOf (drop (Suc i) (tl schedules))) (worldAfterCheck (bs' ! i)) of
                   (chunkResults, orch1, w1) \<Rightarrow>
                     (resultsSoFar (bs' ! i) @ chunkResults, orch1, w1))"
      by blast
    have 1: "length bs \<le> length (chunk # chunks)" using len bs by simp
    have 2: "\<forall>i<length bs. valve_applied (bs ! i)"
      using valve ca(1) bs by (auto simp: nth_Cons split: nat.splits)
    have 3: "\<forall>i<length bs. map ur_filename (resultsSoFar (bs ! i))
              = map ur_filename results0
                @ map filenameOf (concat (take (Suc i) (chunk # chunks)))"
      using names names0 bs by (auto simp: nth_Cons split: nat.splits)
    have 4: "\<forall>i<length bs. stopped (bs ! i) \<longrightarrow> Suc i = length bs"
      using stops False bs by (auto simp: nth_Cons split: nat.splits)
    have 5: "length bs = length (chunk # chunks) \<or> (bs \<noteq> [] \<and> stopped (last bs))"
      using full bs by auto
    have 6: "(allResults, orch', w')
            = (if bs = [] then (results0, orch, w)
               else (resultsSoFar (last bs), orchAfterCheck (last bs),
                     worldAfterCheck (last bs)))"
      using final bs by simp
    have 7: "bs \<noteq> [] \<longrightarrow>
            (resultsSoFar (hd bs), orchAfterBatch (hd bs), worldAfterBatch (hd bs))
              = (case processChunk orch (hd (chunk # chunks)) categoryWidArg
                        (scheduleOf schedules) w of
                   (chunkResults, orch1, w1) \<Rightarrow> (results0 @ chunkResults, orch1, w1))"
      using bs by (simp add: batch)
    have 8: "\<forall>i. Suc i < length bs \<longrightarrow>
            (resultsSoFar (bs ! Suc i), orchAfterBatch (bs ! Suc i),
             worldAfterBatch (bs ! Suc i))
              = (case processChunk (orchAfterCheck (bs ! i)) ((chunk # chunks) ! Suc i)
                        categoryWidArg (scheduleOf (drop (Suc i) schedules))
                        (worldAfterCheck (bs ! i)) of
                   (chunkResults, orch1, w1) \<Rightarrow>
                     (resultsSoFar (bs ! i) @ chunkResults, orch1, w1))"
    proof (intro allI impI)
      fix i
      assume i: "Suc i < length bs"
      show "(resultsSoFar (bs ! Suc i), orchAfterBatch (bs ! Suc i),
             worldAfterBatch (bs ! Suc i))
              = (case processChunk (orchAfterCheck (bs ! i)) ((chunk # chunks) ! Suc i)
                        categoryWidArg (scheduleOf (drop (Suc i) schedules))
                        (worldAfterCheck (bs ! i)) of
                   (chunkResults, orch1, w1) \<Rightarrow>
                     (resultsSoFar (bs ! i) @ chunkResults, orch1, w1))"
      proof (cases i)
        case 0
        with i bs have ne: "bs' \<noteq> []" by auto
        with len have "chunks \<noteq> []" by auto
        then have hd: "chunks ! 0 = hd chunks" by (simp add: hd_conv_nth)
        from ne have hd': "bs' ! 0 = hd bs'" by (simp add: hd_conv_nth)
        from first ne 0 show ?thesis
          unfolding bs by (simp add: hd hd' drop_Suc)
      next
        case (Suc j)
        with i bs have "Suc j < length bs'" by simp
        with later have "(resultsSoFar (bs' ! Suc j), orchAfterBatch (bs' ! Suc j),
             worldAfterBatch (bs' ! Suc j))
              = (case processChunk (orchAfterCheck (bs' ! j)) (chunks ! Suc j) categoryWidArg
                        (scheduleOf (drop (Suc j) (tl schedules))) (worldAfterCheck (bs' ! j)) of
                   (chunkResults, orch1, w1) \<Rightarrow>
                     (resultsSoFar (bs' ! j) @ chunkResults, orch1, w1))" by blast
        then show ?thesis unfolding bs Suc by (simp add: drop_Suc)
      qed
    qed
    from 1 2 3 4 5 6 7 8 show ?thesis by (intro conjI)
  qed
qed

lemma concat_chunks:
  "0 < chunkSize \<Longrightarrow> concat (chunkArray_from array chunkSize i) = drop i array"
proof (induction array chunkSize i rule: chunkArray_from.induct)
  case (1 array chunkSize i)
  show ?case
  proof (cases "i < length array")
    case True
    with 1 have "concat (chunkArray_from array chunkSize (i + chunkSize))
                   = drop (i + chunkSize) array" by simp
    with True "1.prems" show ?thesis
      by (subst chunkArray_from.simps) (simp add: add.commute drop_drop [symmetric]
            del: drop_drop)
  next
    case False
    then show ?thesis by (subst chunkArray_from.simps) simp
  qed
qed

lemma chunkArray_total:
  "0 < chunkSize \<Longrightarrow>
   \<exists>chunks. chunkArray array chunkSize = Some chunks \<and> concat chunks = array"
  by (auto simp: chunkArray_def concat_chunks)

lemma names_prefix:
  assumes "map ur_filename rs = map filenameOf (concat (take k chunks))"
  shows "map ur_filename rs = map filenameOf (take (length rs) (concat chunks))"
proof -
  have "concat chunks = concat (take k chunks) @ concat (drop k chunks)"
    by (metis append_take_drop_id concat_append)
  moreover have "length rs = length (concat (take k chunks))"
    using assms by (metis length_map)
  ultimately show ?thesis using assms by simp
qed

text \<open>
  C2. Take an orchestrator that still checks for failures (as every orchestrator does
  from its construction until a user declines), whose token and file list are
  obtained and whose batch size is positive, and any order in which the awaited
  calls of each batch settle. Then \<open>uploadAllDocuments\<close> returns its statistics, and
  at the end of every batch that ran (\<open>valve_applied\<close>): if the results so far are at
  least 10 and the consecutive failures at least 10, the user is asked once; on "no"
  the run stops there, and on "yes" the counter is 0 again and the run goes on;
  otherwise nobody is asked and the run goes on. The results at the end of batch
  \<open>i\<close> are those of the files of the batches up to \<open>i\<close>, one per file and in
  order; each batch after the first starts from the orchestrator and the world that
  the check before it left. A batch at which the run stops is the last one, and
  unless it stops the run has a boundary for every batch. The results of the run
  are those at its last boundary, the successful and the failed counts are the
  numbers of its successful and failed results, and the files after the last batch
  that ran have no result at all: they are in neither count.
\<close>

theorem safety_valve_after_each_batch:
  assumes armed: "shouldCheckForFailures orch"
    and token: "getAccessToken (workdayApi orch) w = (Inr accessToken, w0)"
    and files: "getFilesToProcess (config orch) (fileSystem orch) w0 = Inr filePaths"
    and size: "0 < maxConcurrentUploads (config orch)"
  shows "\<exists>stats orch' w' boundaries chunks.
           uploadAllDocuments orch categoryWidArg schedules w
             = Some (Inr stats, orch', w', boundaries)
         \<and> chunkArray filePaths (maxConcurrentUploads (config orch)) = Some chunks
         \<and> concat chunks = filePaths
         \<and> totalFiles stats = length filePaths
         \<and> successful stats = length (filter success (results stats))
         \<and> failed stats = length (filter (\<lambda>r. \<not> success r) (results stats))
         \<and> map ur_filename (results stats)
             = map filenameOf (take (length (results stats)) filePaths)
         \<and> length boundaries \<le> length chunks
         \<and> (\<forall>i<length boundaries. valve_applied (boundaries ! i))
         \<and> (\<forall>i<length boundaries. map ur_filename (resultsSoFar (boundaries ! i))
                = map filenameOf (concat (take (Suc i) chunks)))
         \<and> (\<forall>i<length boundaries. stopped (boundaries ! i) \<longrightarrow> Suc i = length boundaries)
         \<and> (length boundaries = length chunks
              \<or> (boundaries \<noteq> [] \<and> stopped (last boundaries)))
         \<and> (results stats, orch', w')
              = (if boundaries = [] then ([], orch, w0)
                 else (resultsSoFar (last boundaries), orchAfterCheck (last boundaries),
                       worldAfterCheck (last boundaries)))
         \<and> (boundaries \<noteq> [] \<longrightarrow>
              (resultsSoFar (hd boundaries), orchAfterBatch (hd boundaries),
               worldAfterBatch (hd boundaries))
                = processChunk orch (hd chunks) categoryWidArg (scheduleOf schedules) w0)
         \<and> (\<forall>i. Suc i < length boundaries \<longrightarrow>
              (resultsSoFar (boundaries ! Suc i), orchAfterBatch (boundaries ! Suc i),
               worldAfterBatch (boundaries ! Suc i))
                = (case processChunk (orchAfterCheck (boundaries ! i)) (chunks ! Suc i)
                          categoryWidArg (scheduleOf (drop (Suc i) schedules))
                          (worldAfterCheck (boundaries ! i)) of
                     (chunkResults, orch1, w1) \<Rightarrow>
                       (resultsSoFar (boundaries ! i) @ chunkResults, orch1, w1)))"
proof -
  from chunkArray_total [OF size, of filePaths] obtain chunks where
    chunks: "chunkArray filePaths (maxConcurrentUploads (config orch)) = Some chunks"
    and whole: "concat chunks = filePaths" by blast
  obtain allResults orch' w' bs where loop:
    "uploadChunks orch chunks [] filePaths categoryWidArg schedules w0
       = (allResults, orch', w', bs)"
    using prod_cases4 by blast
  note facts = uploadChunks_run [OF armed loop]
  from facts have len: "length bs \<le> length chunks" by blast
  from facts have valve: "\<forall>i<length bs. valve_applied (bs ! i)" by blast
  from facts have names: "\<forall>i<length bs. map ur_filename (resultsSoFar (bs ! i))
                = map filenameOf (concat (take (Suc i) chunks))" by simp
  from facts have stops: "\<forall>i<length bs. stopped (bs ! i) \<longrightarrow> Suc i = length bs" by blast
  from facts have full: "length bs = length chunks \<or> (bs \<noteq> [] \<and> stopped (last bs))" by blast
  from facts have final: "(allResults, orch', w')
              = (if bs = [] then ([], orch, w0)
                 else (resultsSoFar (last bs), orchAfterCheck (last bs),
                       worldAfterCheck (last bs)))" by blast
  from facts have "bs \<noteq> [] \<longrightarrow>
            (resultsSoFar (hd bs), orchAfterBatch (hd bs), worldAfterBatch (hd bs))
              = (case processChunk orch (hd chunks) categoryWidArg (scheduleOf schedules) w0 of
                   (chunkResults, orch1, w1) \<Rightarrow> ([] @ chunkResults, orch1, w1))" by blast
  then have first: "bs \<noteq> [] \<longrightarrow>
            (resultsSoFar (hd bs), orchAfterBatch (hd bs), worldAfterBatch (hd bs))
              = processChunk orch (hd chunks) categoryWidArg (scheduleOf schedules) w0"
    by (simp split: prod.splits)
  from facts have later: "\<forall>i. Suc i < length bs \<longrightarrow>
              (resultsSoFar (bs ! Suc i), orchAfterBatch (bs ! Suc i),
               worldAfterBatch (bs ! Suc i))
                = (case processChunk (orchAfterCheck (bs ! i)) (chunks ! Suc i)
                          categoryWidArg (scheduleOf (drop (Suc i) schedules))
                          (worldAfterCheck (bs ! i)) of
                     (chunkResults, orch1, w1) \<Rightarrow>
                       (resultsSoFar (bs ! i) @ chunkResults, orch1, w1))" by blast
  have prefix: "map ur_filename allResults = map filenameOf (take (length allResults) filePaths)"
  proof (cases "bs = []")
    case True
    with final show ?thesis by simp
  next
    case False
    then have "length bs - 1 < length bs" by simp
    with names have "map ur_filename (resultsSoFar (bs ! (length bs - 1)))
                = map filenameOf (concat (take (Suc (length bs - 1)) chunks))" by blast
    moreover from False final have "allResults = resultsSoFar (bs ! (length bs - 1))"
      by (simp add: last_conv_nth)
    ultimately show ?thesis using names_prefix whole by metis
  qed
  let ?stats = "\<lparr> totalFiles = length filePaths,
                   successful = length (filter success allResults),
                   failed = length (filter (\<lambda>r. \<not> success r) allResults),
                   stats_duration = now w' - now w, results = allResults \<rparr>"
  have run: "uploadAllDocuments orch categoryWidArg schedules w
               = Some (Inr ?stats, orch', w', bs)"
  proof (cases "filePaths = []")
    case True
    with chunks have "chunks = []" by (simp add: chunkArray_def)
    with loop have "allResults = []" "orch' = orch" "w' = w0" "bs = []" by simp_all
    with True token files show ?thesis by (simp add: uploadAllDocuments_def Let_def)
  next
    case False
    with token files chunks loop show ?thesis
      by (simp add: uploadAllDocuments_def Let_def)
  qed
  from final have final': "(results ?stats, orch', w')
              = (if bs = [] then ([], orch, w0)
                 else (resultsSoFar (last bs), orchAfterCheck (last bs),
                       worldAfterCheck (last bs)))" by simp
  from prefix have prefix': "map ur_filename (results ?stats)
             = map filenameOf (take (length (results ?stats)) filePaths)" by simp
  have counts: "totalFiles ?stats = length filePaths"
    "successful ?stats = length (filter success (results ?stats))"
    "failed ?stats = length (filter (\<lambda>r. \<not> success r) (results ?stats))" by simp_all
  from run chunks whole counts prefix' len valve names stops full final' first later
  show ?thesis by blast
qed

lemma late_stage:
  assumes "stagesLeft task \<le> 4" and "resume orch categoryWidArg task w = (task1, orch1, w1)"
  shows "stagesLeft task1 \<le> 4" and "workerCache orch1 = workerCache orch"
  using assms
  by (cases task; auto simp: Let_def split: if_splits prod.splits sum.splits)+

lemma finishTask_cache:
  "stagesLeft task \<le> 4 \<Longrightarrow>
   workerCache (fst (snd (finishTask orch categoryWidArg task w))) = workerCache orch"
proof (induction orch categoryWidArg task w rule: finishTask.induct)
  case (1 orch categoryWidArg task w)
  show ?case
  proof (cases "stagesLeft task = 0")
    case True
    then obtain r where "task = Finished r" by (cases task) simp_all
    then show ?thesis by simp
  next
    case False
    obtain t oa wa where step: "resume orch categoryWidArg task w = (t, oa, wa)"
      using prod_cases3 by blast
    note late = late_stage [OF "1.prems" step]
    from False have other: "\<And>r. task \<noteq> Finished r" by auto
    have "workerCache (fst (snd (finishTask oa categoryWidArg t wa))) = workerCache oa"
      using "1.IH" [OF _ step [symmetric] refl late(1)] other by (cases task) auto
    with late(2) show ?thesis by (simp add: finishTask_step [OF False] step)
  qed
qed

lemma lookup_cases:
  "(workerCache orch employeeId = None \<longrightarrow>
      getFromWorkerCache orch employeeId w = (None, orch))
   \<and> (\<forall>wid validatedAt. workerCache orch employeeId = Some (wid, validatedAt) \<longrightarrow>
        (now w - validatedAt \<le> 3600000 \<longrightarrow>
           getFromWorkerCache orch employeeId w = (Some wid, orch))
      \<and> (now w - validatedAt > 3600000 \<longrightarrow>
           getFromWorkerCache orch employeeId w
             = (None, orch\<lparr>workerCache := (workerCache orch)(employeeId := None)\<rparr>)))"
  by (auto simp: getFromWorkerCache_def WORKER_CACHE_TTL_def Let_def)

lemma miss_revalidates:
  assumes valid: "pf_isValid (FileProcessor_processFile (config orch) (fileSystem orch) filePath w)"
    and emp: "employeeId
               = pf_employeeId (FileProcessor_processFile (config orch) (fileSystem orch)
                   filePath w)"
    and miss: "fst (getFromWorkerCache orch employeeId w) = None"
    and remote: "validateWorker (workdayApi orch) employeeId w = (Inr validation, w1)"
    and okay: "isValid validation" and wid: "workerWid validation = Some wid"
  shows "workerCache (fst (snd (processFile orch filePath categoryWidArg w))) employeeId
           = Some (wid, now w1)"
proof -
  let ?pf = "FileProcessor_processFile (config orch) (fileSystem orch) filePath w"
  obtain orch1 where lk: "getFromWorkerCache orch (pf_employeeId ?pf) w = (None, orch1)"
    using miss emp by (cases "getFromWorkerCache orch (pf_employeeId ?pf) w") auto
  have api: "workdayApi orch1 = workdayApi orch"
    using lookup_frame(2) [of orch "pf_employeeId ?pf" w] lk by simp
  let ?orch2 = "addToWorkerCache orch1 employeeId wid w1"
  have read: "resume orch categoryWidArg (Reading filePath (now w)) w
                = (Validating filePath (now w) ?pf, orch1, w)"
    using valid lk by (simp add: Let_def)
  have validate: "resume orch1 categoryWidArg (Validating filePath (now w) ?pf) w
                = (Uploading filePath (now w) ?pf wid, ?orch2, w1)"
    using remote okay wid emp by (simp add: api Let_def)
  have s1: "finishTask orch categoryWidArg (Reading filePath (now w)) w
              = finishTask orch1 categoryWidArg (Validating filePath (now w) ?pf) w"
    by (subst finishTask_step, simp, simp only: read prod.case)
  have s2: "finishTask orch1 categoryWidArg (Validating filePath (now w) ?pf) w
              = finishTask ?orch2 categoryWidArg (Uploading filePath (now w) ?pf wid) w1"
    by (subst finishTask_step, simp, simp only: validate prod.case)
  have "processFile orch filePath categoryWidArg w
          = finishTask ?orch2 categoryWidArg (Uploading filePath (now w) ?pf wid) w1"
    unfolding processFile_def s1 s2 ..
  then have "workerCache (fst (snd (processFile orch filePath categoryWidArg w)))
               = workerCache ?orch2"
    by (simp add: finishTask_cache)
  then show ?thesis by (simp add: addToWorkerCache_def)
qed

lemma sample_fields:
  "config cachedOrchestrator = sampleConfig" "fileSystem cachedOrchestrator = sampleDisk"
  "workdayApi cachedOrchestrator = workingApi"
  "workerCache cachedOrchestrator = [''12345'' \<mapsto> (''81f5373f398e4550a111264703c3f689'', 0)]"
  by (simp_all add: cachedOrchestrator_def sampleOrchestrator_def newUploadOrchestrator_def
        addToWorkerCache_def world0_def)

text \<open>
  C7, as the code has it. A lookup in the validation cache returns the cached id
  exactly when an entry exists and \<open>now - validatedAt \<le> 3600000\<close>; the entry is
  evicted, and the lookup empty, only when \<open>now - validatedAt > 3600000\<close>. After an
  empty lookup for a valid file the pipeline calls \<open>validateWorker\<close>, and when that
  finds the worker the cache holds the id with the time of that validation.
\<close>

theorem worker_cache_ttl:
  "(workerCache orch employeeId = None \<longrightarrow>
      getFromWorkerCache orch employeeId w = (None, orch))
   \<and> (\<forall>wid validatedAt. workerCache orch employeeId = Some (wid, validatedAt) \<longrightarrow>
        (now w - validatedAt \<le> 3600000 \<longrightarrow>
           getFromWorkerCache orch employeeId w = (Some wid, orch))
      \<and> (now w - validatedAt > 3600000 \<longrightarrow>
           getFromWorkerCache orch employeeId w
             = (None, orch\<lparr>workerCache := (workerCache orch)(employeeId := None)\<rparr>)))
   \<and> (\<forall>validation w1 wid.
         pf_isValid (FileProcessor_processFile (config orch) (fileSystem orch) filePath w)
         \<and> employeeId
             = pf_employeeId (FileProcessor_processFile (config orch) (fileSystem orch)
                 filePath w)
         \<and> fst (getFromWorkerCache orch employeeId w) = None
         \<and> validateWorker (workdayApi orch) employeeId w = (Inr validation, w1)
         \<and> isValid validation \<and> workerWid validation = Some wid
         \<longrightarrow> workerCache (fst (snd (processFile orch filePath categoryWidArg w))) employeeId
               = Some (wid, now w1))"
  using lookup_cases [of orch employeeId w] miss_revalidates [of orch filePath w employeeId]
  by blast

theorem worker_cache_ttl_witness:
  "getFromWorkerCache cachedOrchestrator ''12345'' (world0\<lparr>now := 3600000\<rparr>)
     = (Some ''81f5373f398e4550a111264703c3f689'', cachedOrchestrator)
   \<and> fst (getFromWorkerCache cachedOrchestrator ''12345'' (world0\<lparr>now := 3600001\<rparr>)) = None
   \<and> workerCache (snd (getFromWorkerCache cachedOrchestrator ''12345''
                          (world0\<lparr>now := 3600001\<rparr>))) ''12345'' = None
   \<and> workerCache (fst (snd (processFile cachedOrchestrator ''input/12345-contract.pdf''
                               ''7166a581648910019e415635dd8e0000''
                               (world0\<lparr>now := 3600001\<rparr>)))) ''12345''
       = Some (''81f5373f398e4550a111264703c3f689'', 3600051)"
proof -
  note a = worker_cache_ttl [of cachedOrchestrator "''12345''" "world0\<lparr>now := 3600000\<rparr>"
      "''input/12345-contract.pdf''" "''7166a581648910019e415635dd8e0000''"]
  note b = worker_cache_ttl [of cachedOrchestrator "''12345''" "world0\<lparr>now := 3600001\<rparr>"
      "''input/12345-contract.pdf''" "''7166a581648910019e415635dd8e0000''"]
  have 1: "getFromWorkerCache cachedOrchestrator ''12345'' (world0\<lparr>now := 3600000\<rparr>)
     = (Some ''81f5373f398e4550a111264703c3f689'', cachedOrchestrator)"
    using a by (simp add: sample_fields)
  have 2: "getFromWorkerCache cachedOrchestrator ''12345'' (world0\<lparr>now := 3600001\<rparr>)
     = (None, cachedOrchestrator\<lparr>workerCache :=
                (workerCache cachedOrchestrator)(''12345'' := None)\<rparr>)"
    using b by (simp add: sample_fields)
  have 3: "workerCache (fst (snd (processFile cachedOrchestrator ''input/12345-contract.pdf''
                               ''7166a581648910019e415635dd8e0000''
                               (world0\<lparr>now := 3600001\<rparr>)))) ''12345''
       = Some (''81f5373f398e4550a111264703c3f689'', 3600051)"
    using b 2 by (simp add: sample_fields sample_file sample_validation)
  from 1 2 3 show ?thesis by simp
qed

text \<open>
  C7 as stated fails at the boundary: when \<open>now - validatedAt\<close> equals the TTL the
  entry is neither evicted nor the lookup empty, since \<open>getFromWorkerCache\<close> evicts
  on \<open>age > TTL\<close>.
\<close>

theorem worker_cache_entry_kept_at_ttl:
  "workerCache cachedOrchestrator ''12345'' = Some (''81f5373f398e4550a111264703c3f689'', 0)
   \<and> now (world0\<lparr>now := 3600000\<rparr>) - 0 = WORKER_CACHE_TTL
   \<and> fst (getFromWorkerCache cachedOrchestrator ''12345'' (world0\<lparr>now := 3600000\<rparr>))
       = Some ''81f5373f398e4550a111264703c3f689''
   \<and> workerCache (snd (getFromWorkerCache cachedOrchestrator ''12345''
                          (world0\<lparr>now := 3600000\<rparr>))) ''12345''
       = Some (''81f5373f398e4550a111264703c3f689'', 0)"
  by (simp add: cachedOrchestrator_def addToWorkerCache_def getFromWorkerCache_def
        WORKER_CACHE_TTL_def world0_def)

lemma bad_file:
  "c \<in> set ''abcdefghijkl'' \<Longrightarrow>
   FileProcessor_processFile cfg fs (joinPath ''input'' [c]) w
     = rejectedFile [c] (joinPath ''input'' [c]) patternMessage"
  by (auto simp: FileProcessor_processFile_def basename_def validateFilename_def
        dangerousChar_def matchesFilenamePattern_def isDigit_def joinPath_def orElse_def
        patternMessage_def Let_def)

lemma bad_name: "c \<in> set ''abcdefghijkl'' \<Longrightarrow> filenameOf (joinPath ''input'' [c]) = [c]"
  by (auto simp: filenameOf_def orElse_def lastSegment_def joinPath_def)

lemma bad_reading:
  "c \<in> set ''abcdefghijkl'' \<Longrightarrow>
   resume orch categoryWidArg (Reading (joinPath ''input'' [c]) startTime) w
     = (Failing (joinPath ''input'' [c]) startTime [] patternMessage (Some patternMessage),
        orch, w)"
  by (simp add: bad_file rejectedFile_def orElse_def patternMessage_def Let_def)

lemma quiet_move:
  "ensureDirectoryExists fs = (\<lambda>w dir. None) \<Longrightarrow> rename fs = (\<lambda>w source destination. None) \<Longrightarrow>
   writeFile fs = (\<lambda>w filePath. None) \<Longrightarrow>
   moveToFailed cfg fs filePath reason w
     = (Inr (), w\<lparr>movedToFailed := movedToFailed w @ [(filePath, reason)]\<rparr>)"
  by (simp add: moveToFailed_def Let_def)

lemma bad_failing:
  assumes "c \<in> set ''abcdefghijkl''"
    and "ensureDirectoryExists (fileSystem orch) = (\<lambda>w dir. None)"
    and "rename (fileSystem orch) = (\<lambda>w source destination. None)"
    and "writeFile (fileSystem orch) = (\<lambda>w filePath. None)"
  shows "resume orch categoryWidArg
           (Failing (joinPath ''input'' [c]) startTime [] patternMessage (Some patternMessage)) w
     = (Finished \<lparr> ur_filename = [c], ur_employeeId = [], success = False,
                   ur_error = Some patternMessage, duration = now w - startTime \<rparr>,
        orch\<lparr>consecutiveFailures := consecutiveFailures orch + 1\<rparr>,
        w\<lparr>movedToFailed := movedToFailed w @ [(joinPath ''input'' [c], patternMessage)]\<rparr>)"
  by (simp add: quiet_move [OF assms(2-4)] bad_name [OF assms(1)] failedResult_def)

lemma sample_orch_fields:
  "config sampleOrchestrator = sampleConfig" "fileSystem sampleOrchestrator = sampleDisk"
  "consecutiveFailures sampleOrchestrator = 0" "shouldCheckForFailures sampleOrchestrator"
  "workdayApi sampleOrchestrator = workingApi"
  "promptConfirmation sampleOrchestrator = (\<lambda>w. False)"
  by (simp_all add: sampleOrchestrator_def newUploadOrchestrator_def)

lemma sample_disk_quiet:
  "ensureDirectoryExists sampleDisk = (\<lambda>w dir. None)"
  "rename sampleDisk = (\<lambda>w source destination. None)"
  "writeFile sampleDisk = (\<lambda>w filePath. None)"
  by (simp_all add: sampleDisk_def)

declare resume.simps [simp del]

lemma bad_paths: "badPaths = map (\<lambda>c. joinPath ''input'' [c]) ''abcdefghijkl''"
  by (simp add: badPaths_def)

lemma first_batch:
  "firstBatch = (map badResult ''abcde'',
                 sampleOrchestrator\<lparr>consecutiveFailures := 5\<rparr>,
                 world0\<lparr>movedToFailed :=
                    map (\<lambda>c. (joinPath ''input'' [c], patternMessage)) ''abcde''\<rparr>)"
  by (simp add: firstBatch_def processChunk_def bad_paths bad_reading bad_failing
        sample_orch_fields sample_disk_quiet badResult_def world0_def)

lemma second_batch:
  "secondBatch = (map badResult ''fghij'',
                 sampleOrchestrator\<lparr>consecutiveFailures := 10\<rparr>,
                 world0\<lparr>movedToFailed :=
                    map (\<lambda>c. (joinPath ''input'' [c], patternMessage)) ''abcdejihgf''\<rparr>)"
  by (simp add: secondBatch_def first_batch processChunk_def bad_paths bad_reading bad_failing
        sample_orch_fields sample_disk_quiet badResult_def world0_def)

lemma sample_chunks:
  "chunkArray badPaths (maxConcurrentUploads sampleConfig)
     = Some [take 5 badPaths, take 5 (drop 5 badPaths), drop 10 badPaths]"
  by (simp add: chunkArray_def sampleConfig_def bad_paths chunkArray_from.simps)

lemma uploadChunks_stop:
  assumes "processChunk orch chunk categoryWidArg (scheduleOf schedules) w = (rs, o1, w1)"
    and "shouldCheckForFailures o1"
    and "checkConsecutiveFailures o1 rs (length (results0 @ rs)) (length filePaths) w1
           = (True, o2, w2)"
  shows "uploadChunks orch (chunk # chunks) results0 filePaths categoryWidArg schedules w
           = (results0 @ rs, o2, w2,
              [\<lparr> resultsSoFar = results0 @ rs, orchAfterBatch = o1, worldAfterBatch = w1,
                  stopped = True, orchAfterCheck = o2, worldAfterCheck = w2 \<rparr>])"
  using assms by (simp add: Let_def)

lemma uploadChunks_continue:
  assumes "processChunk orch chunk categoryWidArg (scheduleOf schedules) w = (rs, o1, w1)"
    and "shouldCheckForFailures o1"
    and "checkConsecutiveFailures o1 rs (length (results0 @ rs)) (length filePaths) w1
           = (False, o2, w2)"
    and "uploadChunks o2 chunks (results0 @ rs) filePaths categoryWidArg (tl schedules) w2
           = (allResults, o3, w3, bs)"
  shows "uploadChunks orch (chunk # chunks) results0 filePaths categoryWidArg schedules w
           = (allResults, o3, w3,
              \<lparr> resultsSoFar = results0 @ rs, orchAfterBatch = o1, worldAfterBatch = w1,
                 stopped = False, orchAfterCheck = o2, worldAfterCheck = w2 \<rparr> # bs)"
  using assms by (simp add: Let_def)

lemma declined_run:
  "declinedRun
     = Some (Inr \<lparr> totalFiles = 12, successful = 0, failed = 10, stats_duration = 0,
                   results = map badResult ''abcdefghij'' \<rparr>,
             sampleOrchestrator\<lparr>consecutiveFailures := 10, shouldCheckForFailures := False\<rparr>,
             snd (snd secondBatch)\<lparr>prompts := 1\<rparr>,
             [\<lparr> resultsSoFar = map badResult ''abcde'',
                 orchAfterBatch = sampleOrchestrator\<lparr>consecutiveFailures := 5\<rparr>,
                 worldAfterBatch = snd (snd firstBatch), stopped = False,
                 orchAfterCheck = sampleOrchestrator\<lparr>consecutiveFailures := 5\<rparr>,
                 worldAfterCheck = snd (snd firstBatch) \<rparr>,
              \<lparr> resultsSoFar = map badResult ''abcdefghij'',
                 orchAfterBatch = sampleOrchestrator\<lparr>consecutiveFailures := 10\<rparr>,
                 worldAfterBatch = snd (snd secondBatch), stopped = True,
                 orchAfterCheck = sampleOrchestrator\<lparr>consecutiveFailures := 10,
                                    shouldCheckForFailures := False\<rparr>,
                 worldAfterCheck = snd (snd secondBatch)\<lparr>prompts := 1\<rparr> \<rparr>])"
proof -
  let ?cat = "''7166a581648910019e415635dd8e0000''"
  let ?o1 = "sampleOrchestrator\<lparr>consecutiveFailures := 5\<rparr>"
  let ?o2 = "sampleOrchestrator\<lparr>consecutiveFailures := 10\<rparr>"
  let ?w1 = "snd (snd firstBatch)" and ?w2 = "snd (snd secondBatch)"
  have files: "getFilesToProcess sampleConfig sampleDisk world0 = Inr badPaths"
    by (simp add: getFilesToProcess_def sampleDisk_def sampleConfig_def badPaths_def)
  have token: "getAccessToken workingApi world0 = (Inr ''token-1'', world0)"
    by (simp add: workingApi_def failingApi_def)
  have nonempty: "length badPaths \<noteq> 0" and twelve: "length badPaths = 12"
    by (simp_all add: badPaths_def)
  have one: "processChunk sampleOrchestrator (take 5 badPaths) ?cat
               (scheduleOf sampleSchedules) world0
             = (map badResult ''abcde'', ?o1, ?w1)"
    using first_batch by (simp add: firstBatch_def scheduleOf_def sampleSchedules_def)
  have two: "processChunk ?o1 (take 5 (drop 5 badPaths)) ?cat
               (scheduleOf (tl sampleSchedules)) ?w1
             = (map badResult ''fghij'', ?o2, ?w2)"
    using second_batch
    by (simp add: secondBatch_def first_batch scheduleOf_def sampleSchedules_def)
  have armed: "shouldCheckForFailures ?o1" "shouldCheckForFailures ?o2"
    by (simp_all add: sample_orch_fields)
  have chk1: "checkConsecutiveFailures ?o1 (map badResult ''abcde'')
                (length ([] @ map badResult ''abcde'')) (length badPaths) ?w1
              = (False, ?o1, ?w1)"
    by (simp add: checkConsecutiveFailures_def)
  have chk2: "checkConsecutiveFailures ?o2 (map badResult ''fghij'')
                (length (([] @ map badResult ''abcde'') @ map badResult ''fghij''))
                (length badPaths) ?w2
              = (True, ?o2\<lparr>shouldCheckForFailures := False\<rparr>, ?w2\<lparr>prompts := 1\<rparr>)"
    by (simp add: checkConsecutiveFailures_def sample_orch_fields second_batch world0_def
          Let_def)
  note last = uploadChunks_stop [OF two armed(2) chk2, where chunks = "[drop 10 badPaths]"]
  note loop = uploadChunks_continue [OF one armed(1) chk1 last]
  show ?thesis
    unfolding declinedRun_def uploadAllDocuments_def Let_def sample_orch_fields token
      prod.case sum.case files sample_chunks option.case loop
    using nonempty twelve by (simp add: second_batch badResult_def world0_def)
qed

theorem safety_valve_after_each_batch_witness:
  "shouldCheckForFailures sampleOrchestrator
   \<and> getAccessToken (workdayApi sampleOrchestrator) world0 = (Inr ''token-1'', world0)
   \<and> getFilesToProcess (config sampleOrchestrator) (fileSystem sampleOrchestrator) world0
       = Inr badPaths
   \<and> 0 < maxConcurrentUploads (config sampleOrchestrator)
   \<and> runSummary declinedRun = Some (12, 0, 10, 10, 1)
   \<and> map (\<lambda>b. (length (resultsSoFar b), consecutiveFailures (orchAfterBatch b),
                prompts (worldAfterBatch b), stopped b, prompts (worldAfterCheck b),
                shouldCheckForFailures (orchAfterCheck b))) declinedBoundaries
       = [(5, 5, 0, False, 0, True), (10, 10, 0, True, 1, False)]
   \<and> map ur_filename declinedResults = map filenameOf (take 10 badPaths)
   \<and> length declinedResults = 10"
proof -
  have armed: "shouldCheckForFailures sampleOrchestrator" by (rule sample_orch_fields(4))
  have token: "getAccessToken (workdayApi sampleOrchestrator) world0 = (Inr ''token-1'', world0)"
    by (simp add: sample_orch_fields workingApi_def failingApi_def)
  have files: "getFilesToProcess (config sampleOrchestrator) (fileSystem sampleOrchestrator)
                 world0 = Inr badPaths"
    by (simp add: sample_orch_fields getFilesToProcess_def sampleDisk_def sampleConfig_def
          badPaths_def)
  have size: "0 < maxConcurrentUploads (config sampleOrchestrator)"
    by (simp add: sample_orch_fields sampleConfig_def)
  from safety_valve_after_each_batch [OF armed token files size,
      of "''7166a581648910019e415635dd8e0000''" sampleSchedules]
  obtain stats orch' w' boundaries where
    run: "declinedRun = Some (Inr stats, orch', w', boundaries)"
    and names: "map ur_filename (results stats)
                  = map filenameOf (take (length (results stats)) badPaths)"
    unfolding declinedRun_def by blast
  have res: "declinedResults = results stats" unfolding declinedResults_def run by simp
  have ten: "length declinedResults = 10"
    by (simp add: declinedResults_def declined_run)
  from names res ten have prefix: "map ur_filename declinedResults
                                     = map filenameOf (take 10 badPaths)" by simp
  have summary: "runSummary declinedRun = Some (12, 0, 10, 10, 1)"
    by (simp add: declined_run runSummary_def second_batch)
  have bounds: "map (\<lambda>b. (length (resultsSoFar b), consecutiveFailures (orchAfterBatch b),
                prompts (worldAfterBatch b), stopped b, prompts (worldAfterCheck b),
                shouldCheckForFailures (orchAfterCheck b))) declinedBoundaries
       = [(5, 5, 0, False, 0, True), (10, 10, 0, True, 1, False)]"
    by (simp add: declinedBoundaries_def declined_run first_batch second_batch
          sample_orch_fields world0_def)
  from armed token files size summary bounds prefix ten show ?thesis by (intro conjI)
qed

lemma good_file:
  "filePath \<in> {''input/12345-contract.pdf'', ''input/12345-payslip.pdf''} \<Longrightarrow>
   maxFileSizeMB cfg = 25 \<Longrightarrow> stat fs = (\<lambda>w filePath. Inr 1024) \<Longrightarrow>
   readFile fs = (\<lambda>w filePath. Inr ''JVBERi0='') \<Longrightarrow>
   FileProcessor_processFile cfg fs filePath w = sampleFile filePath"
  by (auto simp: FileProcessor_processFile_def basename_def validateFilename_def
        dangerousChar_def matchesFilenamePattern_def isDigit_def isAlphaNumeric_def
        extractEmployeeId_def FileProcessor_validateEmployeeId_def isLineTerminator_def
        sampleFile_def Let_def)

lemma good_reading:
  assumes "filePath \<in> {''input/12345-contract.pdf'', ''input/12345-payslip.pdf''}"
    and "maxFileSizeMB (config orch) = 25"
    and "stat (fileSystem orch) = (\<lambda>w filePath. Inr 1024)"
    and "readFile (fileSystem orch) = (\<lambda>w filePath. Inr ''JVBERi0='')"
    and "workerCache orch ''12345'' = None"
  shows "resume orch categoryWidArg (Reading filePath startTime) w
     = (Validating filePath startTime (sampleFile filePath), orch, w)"
  using assms(5)
  by (simp add: resume.simps good_file [OF assms(1-4)] sampleFile_def getFromWorkerCache_def)

lemma good_reading_cached:
  assumes "filePath \<in> {''input/12345-contract.pdf'', ''input/12345-payslip.pdf''}"
    and "maxFileSizeMB (config orch) = 25"
    and "stat (fileSystem orch) = (\<lambda>w filePath. Inr 1024)"
    and "readFile (fileSystem orch) = (\<lambda>w filePath. Inr ''JVBERi0='')"
    and "workerCache orch ''12345'' = Some (wid, validatedAt)"
    and "now w - validatedAt \<le> 3600000"
  shows "resume orch categoryWidArg (Reading filePath startTime) w
     = (Uploading filePath startTime (sampleFile filePath) wid, orch, w)"
  using assms(5,6)
  by (simp add: resume.simps good_file [OF assms(1-4)] sampleFile_def getFromWorkerCache_def
        WORKER_CACHE_TTL_def)

lemma good_validating:
  assumes "workdayApi orch = workingApi"
  shows "resume orch categoryWidArg (Validating filePath startTime (sampleFile filePath)) w
     = (Uploading filePath startTime (sampleFile filePath)
          ''81f5373f398e4550a111264703c3f689'',
        orch\<lparr>workerCache := (workerCache orch)
                 (''12345'' \<mapsto> (''81f5373f398e4550a111264703c3f689'', now w + 50))\<rparr>,
        w\<lparr>now := now w + 50, soapCalls := soapCalls w + 1\<rparr>)"
  by (simp add: resume.simps assms sampleFile_def sample_validation addToWorkerCache_def
        Let_def)

lemma sample_upload:
  "uploadDocument workingApi
      \<lparr> doc_employeeId = ''12345'', doc_filename = filename,
        categoryWid = ''7166a581648910019e415635dd8e0000'', fileContent = ''JVBERi0='',
        mimeType = ''application/pdf'' \<rparr>
      ''81f5373f398e4550a111264703c3f689'' w
     = (Inr True, w\<lparr>now := now w + 50, soapCalls := soapCalls w + 1\<rparr>)"
  by (simp add: uploadDocument_def uploadDocument_try_def validateEmployeeId_def isDigit_def
        validateWid_def isLowerHex_def workingApi_def workdayServer_def
        failingApi_def withRetry_def withRetry_loop.simps mergeOptions_def noOptions_def
        defaultRetryOptions_def makeSOAPRequest_def tokenIssuer_def
        isUploadSuccessful_def Let_def)

lemma good_uploading:
  assumes "workdayApi orch = workingApi"
  shows "resume orch ''7166a581648910019e415635dd8e0000''
           (Uploading filePath startTime (sampleFile filePath)
              ''81f5373f398e4550a111264703c3f689'') w
     = (Filing filePath startTime (sampleFile filePath), orch,
        w\<lparr>now := now w + 50, soapCalls := soapCalls w + 1\<rparr>)"
  by (simp add: resume.simps assms sampleFile_def sample_upload Let_def)

lemma good_filing:
  assumes "filePath \<in> {''input/12345-contract.pdf'', ''input/12345-payslip.pdf''}"
    and "ensureDirectoryExists (fileSystem orch) = (\<lambda>w dir. None)"
    and "rename (fileSystem orch) = (\<lambda>w source destination. None)"
  shows "resume orch categoryWidArg (Filing filePath startTime (sampleFile filePath)) w
     = (Finished (goodResult filePath (now w - startTime)),
        orch\<lparr>consecutiveFailures := 0\<rparr>,
        w\<lparr>movedToProcessed := movedToProcessed w @ [filePath]\<rparr>)"
  using assms(1)
  by (auto simp: resume.simps assms(2,3) sampleFile_def moveToProcessed_def filenameOf_def
        lastSegment_def orElse_def goodResult_def Let_def)

lemma mixed_fields:
  "maxFileSizeMB (config mixedOrchestrator) = 25"
  "maxConcurrentUploads (config mixedOrchestrator) = 11"
  "stat (fileSystem mixedOrchestrator) = (\<lambda>w filePath. Inr 1024)"
  "readFile (fileSystem mixedOrchestrator) = (\<lambda>w filePath. Inr ''JVBERi0='')"
  "ensureDirectoryExists (fileSystem mixedOrchestrator) = (\<lambda>w dir. None)"
  "rename (fileSystem mixedOrchestrator) = (\<lambda>w source destination. None)"
  "writeFile (fileSystem mixedOrchestrator) = (\<lambda>w filePath. None)"
  "workdayApi mixedOrchestrator = workingApi"
  "workerCache mixedOrchestrator = Map.empty"
  "consecutiveFailures mixedOrchestrator = 0" "shouldCheckForFailures mixedOrchestrator"
  "promptConfirmation mixedOrchestrator = (\<lambda>w. False)"
  by (simp_all add: mixedOrchestrator_def newUploadOrchestrator_def sampleConfig_def
        mixedDisk_def sampleDisk_def)

lemma upload_first:
  "processChunk mixedOrchestrator
     (''input/12345-contract.pdf'' # map (\<lambda>c. joinPath ''input'' [c]) ''abcdefghij'')
     ''7166a581648910019e415635dd8e0000'' uploadFirst world0
   = (goodResult ''input/12345-contract.pdf'' 100 # map (\<lambda>c. (badResult c)\<lparr>duration := 100\<rparr>) ''abcdefghij'',
      mixedOrchestrator\<lparr>consecutiveFailures := 10,
         workerCache := [''12345'' \<mapsto> (''81f5373f398e4550a111264703c3f689'', 50)]\<rparr>,
      world0\<lparr>now := 100, soapCalls := 2,
             movedToProcessed := [''input/12345-contract.pdf''],
             movedToFailed := map (\<lambda>c. (joinPath ''input'' [c], patternMessage))
                                ''abcdefghij''\<rparr>)"
  by (simp add: processChunk_def uploadFirst_def good_reading good_validating good_uploading
        good_filing bad_reading bad_failing mixed_fields world0_def goodResult_def
        badResult_def)

lemma upload_last:
  "processChunk mixedOrchestrator
     (''input/12345-contract.pdf'' # map (\<lambda>c. joinPath ''input'' [c]) ''abcdefghij'')
     ''7166a581648910019e415635dd8e0000'' uploadLast world0
   = (goodResult ''input/12345-contract.pdf'' 100 # map badResult ''abcdefghij'',
      mixedOrchestrator\<lparr>consecutiveFailures := 0,
         workerCache := [''12345'' \<mapsto> (''81f5373f398e4550a111264703c3f689'', 50)]\<rparr>,
      world0\<lparr>now := 100, soapCalls := 2,
             movedToProcessed := [''input/12345-contract.pdf''],
             movedToFailed := map (\<lambda>c. (joinPath ''input'' [c], patternMessage))
                                ''abcdefghij''\<rparr>)"
  by (simp add: processChunk_def uploadLast_def good_reading good_validating good_uploading
        good_filing bad_reading bad_failing mixed_fields world0_def goodResult_def
        badResult_def)


lemma mixed_files:
  "getFilesToProcess (config mixedOrchestrator) (fileSystem mixedOrchestrator) w
     = Inr (''input/12345-contract.pdf'' # map (\<lambda>c. joinPath ''input'' [c]) ''abcdefghijk'')"
  by (simp add: getFilesToProcess_def mixedOrchestrator_def newUploadOrchestrator_def
        mixedDisk_def sampleConfig_def joinPath_def)

lemma mixed_chunks:
  "chunkArray (''input/12345-contract.pdf'' # map (\<lambda>c. joinPath ''input'' [c]) ''abcdefghijk'')
     11
   = Some [''input/12345-contract.pdf'' # map (\<lambda>c. joinPath ''input'' [c]) ''abcdefghij'',
           [joinPath ''input'' ''k'']]"
  by (simp add: chunkArray_def chunkArray_from.simps)

lemma mixed_token: "getAccessToken workingApi w = (Inr ''token-1'', w)"
  by (simp add: workingApi_def failingApi_def)

lemma last_file:
  assumes "ensureDirectoryExists (fileSystem orch) = (\<lambda>w dir. None)"
    and "rename (fileSystem orch) = (\<lambda>w source destination. None)"
    and "writeFile (fileSystem orch) = (\<lambda>w filePath. None)"
  shows "processChunk orch [joinPath ''input'' ''k''] categoryWidArg [] w
     = ([badResult CHR ''k''],
        orch\<lparr>consecutiveFailures := consecutiveFailures orch + 1\<rparr>,
        w\<lparr>movedToFailed := movedToFailed w @ [(joinPath ''input'' ''k'', patternMessage)]\<rparr>)"
  by (simp add: processChunk_def finishTask_step bad_reading bad_failing assms badResult_def)

text \<open>
  The order in which the awaited calls of a batch settle decides whether the user is
  asked: when the upload of the well-formed file is done first, the ten failures that
  follow leave the counter at 10 and the run stops at the prompt with 11 results;
  when it is done last, it resets the counter, nobody is asked and all 12 files are
  processed.
\<close>

lemma settlement_order_decides_prompt:
  "runSummary (uploadAllDocuments mixedOrchestrator ''7166a581648910019e415635dd8e0000''
                 [uploadFirst] world0) = Some (12, 1, 10, 11, 1)"
  "runSummary (uploadAllDocuments mixedOrchestrator ''7166a581648910019e415635dd8e0000''
                 [uploadLast] world0) = Some (12, 1, 11, 12, 0)"
proof -
  let ?cat = "''7166a581648910019e415635dd8e0000''"
  let ?chunk = "''input/12345-contract.pdf'' # map (\<lambda>c. joinPath ''input'' [c]) ''abcdefghij''"
  let ?paths = "''input/12345-contract.pdf'' # map (\<lambda>c. joinPath ''input'' [c]) ''abcdefghijk''"
  let ?cache = "[''12345'' \<mapsto> (''81f5373f398e4550a111264703c3f689'', 50::int)]"
  let ?w1 = "world0\<lparr>now := 100, soapCalls := 2,
             movedToProcessed := [''input/12345-contract.pdf''],
             movedToFailed := map (\<lambda>c. (joinPath ''input'' [c], patternMessage))
                                ''abcdefghij''\<rparr>"
  let ?oF = "mixedOrchestrator\<lparr>consecutiveFailures := 10, workerCache := ?cache\<rparr>"
  let ?oL = "mixedOrchestrator\<lparr>consecutiveFailures := 0, workerCache := ?cache\<rparr>"
  let ?rF = "goodResult ''input/12345-contract.pdf'' 100 # map (\<lambda>c. (badResult c)\<lparr>duration := 100\<rparr>) ''abcdefghij''"
  let ?rL = "goodResult ''input/12345-contract.pdf'' 100 # map badResult ''abcdefghij''"
  have first: "processChunk mixedOrchestrator ?chunk ?cat (scheduleOf [uploadFirst]) world0
                 = (?rF, ?oF, ?w1)"
    using upload_first by (simp add: scheduleOf_def)
  have armedF: "shouldCheckForFailures ?oF" by (simp add: mixed_fields)
  have chkF: "checkConsecutiveFailures ?oF ?rF (length ([] @ ?rF)) (length ?paths) ?w1
                = (True, ?oF\<lparr>shouldCheckForFailures := False\<rparr>, ?w1\<lparr>prompts := 1\<rparr>)"
    by (simp add: checkConsecutiveFailures_def mixed_fields world0_def Let_def)
  note loopF = uploadChunks_stop [OF first armedF chkF,
      where chunks = "[[joinPath ''input'' ''k'']]"]
  show "runSummary (uploadAllDocuments mixedOrchestrator ?cat [uploadFirst] world0)
          = Some (12, 1, 10, 11, 1)"
    unfolding uploadAllDocuments_def Let_def mixed_fields mixed_token prod.case sum.case
      mixed_files mixed_chunks option.case loopF
    by (simp add: runSummary_def goodResult_def badResult_def world0_def)
  have last: "processChunk mixedOrchestrator ?chunk ?cat (scheduleOf [uploadLast]) world0
                 = (?rL, ?oL, ?w1)"
    using upload_last by (simp add: scheduleOf_def)
  have armedL: "shouldCheckForFailures ?oL" by (simp add: mixed_fields)
  have chkL: "checkConsecutiveFailures ?oL ?rL (length ([] @ ?rL)) (length ?paths) ?w1
                = (False, ?oL, ?w1)"
    by (simp add: checkConsecutiveFailures_def)
  let ?o2 = "?oL\<lparr>consecutiveFailures := consecutiveFailures ?oL + 1\<rparr>"
  let ?w2 = "?w1\<lparr>movedToFailed := movedToFailed ?w1 @ [(joinPath ''input'' ''k'', patternMessage)]\<rparr>"
  have second: "processChunk ?oL [joinPath ''input'' ''k''] ?cat (scheduleOf (tl [uploadLast])) ?w1
                  = ([badResult CHR ''k''], ?o2, ?w2)"
    unfolding scheduleOf_def list.sel list.case
    by (rule last_file) (simp_all add: mixed_fields)
  have armed2: "shouldCheckForFailures ?o2" by (simp add: mixed_fields)
  have chk2: "checkConsecutiveFailures ?o2 [badResult CHR ''k'']
                (length (([] @ ?rL) @ [badResult CHR ''k''])) (length ?paths) ?w2
                = (False, ?o2, ?w2)"
    by (simp add: checkConsecutiveFailures_def)
  have ended: "uploadChunks ?o2 [] (([] @ ?rL) @ [badResult CHR ''k'']) ?paths ?cat
                (tl (tl [uploadLast])) ?w2
              = (([] @ ?rL) @ [badResult CHR ''k''], ?o2, ?w2, [])"
    by simp
  note loop2 = uploadChunks_continue [OF second armed2 chk2 ended]
  note loopL = uploadChunks_continue [OF last armedL chkL loop2]
  show "runSummary (uploadAllDocuments mixedOrchestrator ?cat [uploadLast] world0)
          = Some (12, 1, 11, 12, 0)"
    unfolding uploadAllDocuments_def Let_def mixed_fields mixed_token prod.case sum.case
      mixed_files mixed_chunks option.case loopL
    by (simp add: runSummary_def goodResult_def badResult_def world0_def)
qed


lemma pair_fields:
  "maxFileSizeMB (config pairOrchestrator) = 25"
  "stat (fileSystem pairOrchestrator) = (\<lambda>w filePath. Inr 1024)"
  "readFile (fileSystem pairOrchestrator) = (\<lambda>w filePath. Inr ''JVBERi0='')"
  "ensureDirectoryExists (fileSystem pairOrchestrator) = (\<lambda>w dir. None)"
  "rename (fileSystem pairOrchestrator) = (\<lambda>w source destination. None)"
  "workdayApi pairOrchestrator = workingApi"
  "workerCache pairOrchestrator = Map.empty"
  by (simp_all add: pairOrchestrator_def newUploadOrchestrator_def sampleConfig_def
        pairDisk_def sampleDisk_def)

text \<open>
  Two files of one worker in the same batch: when the first file is done before the
  second is read, the second finds the worker in the cache and three requests are
  sent; when both are read before either validation has settled, both validate the
  worker and four requests are sent.
\<close>

lemma settlement_order_decides_requests:
  "soapCalls (snd (snd (processChunk pairOrchestrator
      [''input/12345-contract.pdf'', ''input/12345-payslip.pdf'']
      ''7166a581648910019e415635dd8e0000'' [0, 0, 0, 0, 1, 1, 1] world0))) = 3"
  "soapCalls (snd (snd (processChunk pairOrchestrator
      [''input/12345-contract.pdf'', ''input/12345-payslip.pdf'']
      ''7166a581648910019e415635dd8e0000'' [0, 1, 0, 1, 0, 1, 0, 1] world0))) = 4"
  by (simp_all add: processChunk_def good_reading good_reading_cached good_validating
        good_uploading good_filing pair_fields world0_def)

end
